theory Spec2Isabelle
  imports Main "HOL-Library.Word"
begin

unbundle bit_operations_syntax

section \<open>The transport layer of a MySensors node (MyTransport.cpp)\<close>

text \<open>
  The source is written for the Arduino AVR target: \<open>uint8_t\<close>, \<open>uint16_t\<close> and
  \<open>unsigned long\<close> are 8, 16 and 32 bits wide and wrap around; \<open>int\<close> is 16 bits wide, so
  arithmetic on \<open>uint16_t\<close> operands stays in 16 bits.
\<close>

type_synonym u8 = "8 word"
type_synonym u16 = "16 word"
type_synonym u32 = "32 word"

subsection \<open>Messages\<close>

text \<open>
  Modelled from the spec: the message layout (MyMessage.h is not among the sources). The
  bit-packed header fields have the widths of the spec's table; the flag bits are booleans.
  The payload is held as the list of its bytes.
\<close>

record MyMessage =
  mLast :: u8
  mSender :: u8
  mDestination :: u8
  mSensor :: u8
  mCommand :: "3 word"
  mRequestAck :: bool
  mAck :: bool
  mSigned :: bool
  mVersion :: "3 word"
  mPayloadType :: "4 word"
  mLength :: "5 word"
  mType :: u8
  mData :: "u8 list"

text \<open>
  Modelled from the spec: the protocol constants of MyMessage.h, MyConfig.h and the core
  header. The spec fixes the reserved addresses (gateway 0, broadcast 255), the unknown
  distance 255, the 32-byte maximum frame and the 16-byte firmware block; the numeric codes
  of commands and subtypes are those of the MySensors serial protocol. The theorems below
  use of the codes only that the ones the source compares are distinct.
\<close>

abbreviation (input) GATEWAY_ADDRESS :: u8 where "GATEWAY_ADDRESS \<equiv> 0"
abbreviation (input) BROADCAST_ADDRESS :: u8 where "BROADCAST_ADDRESS \<equiv> 255"
abbreviation (input) AUTO :: u8 where "AUTO \<equiv> 255"
abbreviation (input) NODE_SENSOR_ID :: u8 where "NODE_SENSOR_ID \<equiv> 255"
abbreviation (input) DISTANCE_INVALID :: u8 where "DISTANCE_INVALID \<equiv> 255"

abbreviation (input) PROTOCOL_VERSION :: "3 word" where "PROTOCOL_VERSION \<equiv> 2"
abbreviation (input) HEADER_SIZE :: nat where "HEADER_SIZE \<equiv> 7"
abbreviation (input) MAX_MESSAGE_LENGTH :: nat where "MAX_MESSAGE_LENGTH \<equiv> 32"
abbreviation (input) MAX_PAYLOAD :: nat where "MAX_PAYLOAD \<equiv> 25"

abbreviation (input) C_PRESENTATION :: "3 word" where "C_PRESENTATION \<equiv> 0"
abbreviation (input) C_SET :: "3 word" where "C_SET \<equiv> 1"
abbreviation (input) C_REQ :: "3 word" where "C_REQ \<equiv> 2"
abbreviation (input) C_INTERNAL :: "3 word" where "C_INTERNAL \<equiv> 3"
abbreviation (input) C_STREAM :: "3 word" where "C_STREAM \<equiv> 4"

abbreviation (input) I_ID_REQUEST :: u8 where "I_ID_REQUEST \<equiv> 3"
abbreviation (input) I_ID_RESPONSE :: u8 where "I_ID_RESPONSE \<equiv> 4"
abbreviation (input) I_CONFIG :: u8 where "I_CONFIG \<equiv> 6"
abbreviation (input) I_FIND_PARENT :: u8 where "I_FIND_PARENT \<equiv> 7"
abbreviation (input) I_FIND_PARENT_RESPONSE :: u8 where "I_FIND_PARENT_RESPONSE \<equiv> 8"
abbreviation (input) I_REQUEST_SIGNING :: u8 where "I_REQUEST_SIGNING \<equiv> 15"
abbreviation (input) I_GET_NONCE :: u8 where "I_GET_NONCE \<equiv> 16"
abbreviation (input) I_GET_NONCE_RESPONSE :: u8 where "I_GET_NONCE_RESPONSE \<equiv> 17"
abbreviation (input) I_HEARTBEAT :: u8 where "I_HEARTBEAT \<equiv> 18"
abbreviation (input) I_DISCOVER :: u8 where "I_DISCOVER \<equiv> 20"
abbreviation (input) I_DISCOVER_RESPONSE :: u8 where "I_DISCOVER_RESPONSE \<equiv> 21"
abbreviation (input) I_HEARTBEAT_RESPONSE :: u8 where "I_HEARTBEAT_RESPONSE \<equiv> 22"

abbreviation (input) ST_FIRMWARE_CONFIG_REQUEST :: u8 where "ST_FIRMWARE_CONFIG_REQUEST \<equiv> 0"
abbreviation (input) ST_FIRMWARE_CONFIG_RESPONSE :: u8 where "ST_FIRMWARE_CONFIG_RESPONSE \<equiv> 1"
abbreviation (input) ST_FIRMWARE_REQUEST :: u8 where "ST_FIRMWARE_REQUEST \<equiv> 2"
abbreviation (input) ST_FIRMWARE_RESPONSE :: u8 where "ST_FIRMWARE_RESPONSE \<equiv> 3"

abbreviation (input) S_ARDUINO_NODE :: u8 where "S_ARDUINO_NODE \<equiv> 17"
abbreviation (input) S_ARDUINO_REPEATER_NODE :: u8 where "S_ARDUINO_REPEATER_NODE \<equiv> 18"

abbreviation (input) P_STRING :: "4 word" where "P_STRING \<equiv> 0"
abbreviation (input) P_BYTE :: "4 word" where "P_BYTE \<equiv> 1"
abbreviation (input) P_CUSTOM :: "4 word" where "P_CUSTOM \<equiv> 6"

abbreviation (input) SIGN_WAITING_FOR_NONCE :: u8 where "SIGN_WAITING_FOR_NONCE \<equiv> 0"
abbreviation (input) SIGN_OK :: u8 where "SIGN_OK \<equiv> 1"

abbreviation (input) FIRMWARE_BLOCK_SIZE :: u16 where "FIRMWARE_BLOCK_SIZE \<equiv> 16"
abbreviation (input) FIRMWARE_START_OFFSET :: u16 where "FIRMWARE_START_OFFSET \<equiv> 10"

text \<open>
  Modelled from the spec: the payload accessors of MyMessage. A byte the payload list does
  not hold reads as 0; \<open>put_bytes\<close> overwrites a range of the payload and keeps the rest.
\<close>

definition data_at :: "u8 list \<Rightarrow> nat \<Rightarrow> u8" where
  "data_at d i = (if i < length d then d ! i else 0)"

definition put_bytes :: "nat \<Rightarrow> u8 list \<Rightarrow> u8 list \<Rightarrow> u8 list" where
  "put_bytes off bs d =
     (let d' = d @ replicate (off + length bs - length d) 0
      in take off d' @ bs @ drop (off + length bs) d')"

definition le16 :: "u16 \<Rightarrow> u8 list" where
  "le16 w = [ucast w, ucast (drop_bit 8 w)]"

definition u16_at :: "u8 list \<Rightarrow> nat \<Rightarrow> u16" where
  "u16_at d i = ucast (data_at d i) OR push_bit 8 (ucast (data_at d (i + 1)))"

definition getByte :: "MyMessage \<Rightarrow> u8" where
  "getByte m = data_at (mData m) 0"

definition getBool :: "MyMessage \<Rightarrow> bool" where
  "getBool m = (getByte m \<noteq> 0)"

definition set_str_empty :: "MyMessage \<Rightarrow> MyMessage" where
  "set_str_empty m = m\<lparr>mLength := 0, mPayloadType := P_STRING, mData := put_bytes 0 [0] (mData m)\<rparr>"

definition set_u8 :: "u8 \<Rightarrow> MyMessage \<Rightarrow> MyMessage" where
  "set_u8 v m = m\<lparr>mLength := 1, mPayloadType := P_BYTE, mData := put_bytes 0 [v] (mData m)\<rparr>"

text \<open>
  Modelled from the spec: \<open>build\<close> of the message codec (section 4.1) fills the routing
  header, clears the ack bit and stamps the protocol version; \<open>last\<close>, the signed flag and
  the payload are left as they are.
\<close>

definition build :: "MyMessage \<Rightarrow> u8 \<Rightarrow> u8 \<Rightarrow> u8 \<Rightarrow> 3 word \<Rightarrow> u8 \<Rightarrow> bool \<Rightarrow> MyMessage" where
  "build m sender destination sensor command type enableAck =
     m\<lparr>mSender := sender, mDestination := destination, mSensor := sensor, mType := type,
       mCommand := command, mRequestAck := enableAck, mAck := False,
       mVersion := PROTOCOL_VERSION\<rparr>"

subsection \<open>Firmware configuration\<close>

record NodeFirmwareConfig =
  fwType :: u16
  fwVersion :: u16
  fwBlocks :: u16
  fwCrc :: u16

text \<open>
  Modelled from the spec: the packed little-endian structs that the source lays over the
  payload (\<open>NodeFirmwareConfig\<close>, \<open>RequestFWBlock\<close>, \<open>ReplyFWBlock\<close>,
  \<open>RequestFirmwareConfig\<close>): four, three, three-plus-block and five 16-bit fields.
\<close>

definition fc_of_payload :: "u8 list \<Rightarrow> NodeFirmwareConfig" where
  "fc_of_payload d =
     \<lparr>fwType = u16_at d 0, fwVersion = u16_at d 2, fwBlocks = u16_at d 4, fwCrc = u16_at d 6\<rparr>"

definition fc_bytes :: "NodeFirmwareConfig \<Rightarrow> u8 list" where
  "fc_bytes f = le16 (fwType f) @ le16 (fwVersion f) @ le16 (fwBlocks f) @ le16 (fwCrc f)"

definition reply_block_data :: "u8 list \<Rightarrow> u8 list" where
  "reply_block_data d = map (\<lambda>i. data_at d (6 + i)) [0 ..< unat FIRMWARE_BLOCK_SIZE]"

subsection \<open>Build configuration\<close>

text \<open>
  The conditional-compilation switches and the tunable constants of MyConfig.h, as a value.
\<close>

record config =
  MY_SIGNING_FEATURE :: bool
  MY_SIGNING_REQUEST_SIGNATURES :: bool
  MY_OTA_FIRMWARE_FEATURE :: bool
  MY_REPEATER_FEATURE :: bool
  MY_GATEWAY_FEATURE :: bool
  MY_OTA_RETRY :: u8
  MY_OTA_RETRY_DELAY :: u32
  MY_OTA_BOOTLOADER_VERSION :: u16
  MY_VERIFICATION_TIMEOUT_MS :: u32
  SEARCH_FAILURES :: u8
  receive_registered :: bool
  signer_nonce :: "MyMessage \<Rightarrow> MyMessage"
  signer_sign :: "MyMessage \<Rightarrow> MyMessage"

subsection \<open>Node state, environment and observable events\<close>

datatype event =
    Ev_Tx u8 MyMessage nat
  | Ev_BlinkRx
  | Ev_BlinkTx
  | Ev_BlinkErr
  | Ev_SignerCheckTimer
  | Ev_SignerVerify MyMessage
  | Ev_SignerGetNonce MyMessage
  | Ev_SignerPutNonce MyMessage
  | Ev_SignerSign MyMessage
  | Ev_Receive MyMessage
  | Ev_ProcessInternal MyMessage
  | Ev_GatewaySend MyMessage
  | Ev_Present u8 u8
  | Ev_SetAddress u8
  | Ev_FlashErase32K
  | Ev_FlashWrite nat "u8 list"
  | Ev_PersistFirmwareConfig NodeFirmwareConfig

text \<open>
  The globals of the translation unit (\<open>_nc\<close>, \<open>_msg\<close>, \<open>_msgTmp\<close>, \<open>_msgSign\<close>, the
  firmware session, the signing status, the function-static reentrancy flag), the
  nonvolatile storage (one field per region of the layout), the staging flash, and the
  environment: the frames the radio will offer at each poll, the results the radio driver
  and the signer will report, and the millisecond clock. \<open>msgCaller\<close> stands for a message
  object owned by a caller outside this file.
\<close>

record node =
  nodeId :: u8
  parentNodeId :: u8
  distance :: u8
  autoFindParent :: bool
  failedTransmissions :: u8
  signingNonceStatus :: u8
  doSign :: "u8 \<Rightarrow> bool"
  fc :: NodeFirmwareConfig
  fwUpdateOngoing :: bool
  fwLastRequestTime :: u32
  fwBlock :: u16
  fwRetry :: u8
  msg :: MyMessage
  msgTmp :: MyMessage
  msgSign :: MyMessage
  msgCaller :: MyMessage
  findingParentNode :: bool
  routes :: "u8 \<Rightarrow> u8"
  ee_nodeId :: u8
  ee_parentNodeId :: u8
  ee_distance :: u8
  ee_doSign :: "u8 \<Rightarrow> bool"
  ee_fc :: NodeFirmwareConfig
  flash :: "nat \<Rightarrow> u8"
  flash_initialize_ok :: bool
  radio_rx :: "(u8 \<times> MyMessage) option list"
  radio_tx_ok :: "bool list"
  signer_ok :: "bool list"
  millis :: nat
  ticks :: "nat list"
  trace :: "event list"

datatype msgref = Ref_msg | Ref_msgTmp | Ref_msgSign | Ref_msgCaller

fun get_msg :: "msgref \<Rightarrow> node \<Rightarrow> MyMessage" where
  "get_msg Ref_msg s = msg s"
| "get_msg Ref_msgTmp s = msgTmp s"
| "get_msg Ref_msgSign s = msgSign s"
| "get_msg Ref_msgCaller s = msgCaller s"

fun put_msg :: "msgref \<Rightarrow> MyMessage \<Rightarrow> node \<Rightarrow> node" where
  "put_msg Ref_msg m s = s\<lparr>msg := m\<rparr>"
| "put_msg Ref_msgTmp m s = s\<lparr>msgTmp := m\<rparr>"
| "put_msg Ref_msgSign m s = s\<lparr>msgSign := m\<rparr>"
| "put_msg Ref_msgCaller m s = s\<lparr>msgCaller := m\<rparr>"

definition emit :: "event \<Rightarrow> node \<Rightarrow> node" where
  "emit e s = s\<lparr>trace := trace s @ [e]\<rparr>"

text \<open>
  How a call ends: it returns a value, it spins forever in \<open>while (1)\<close>, it reboots the
  node, or the model ran out of fuel.
\<close>

datatype 'a outcome = Ret 'a node | Spin node | Reboot node | OutOfFuel

definition obind :: "'a outcome \<Rightarrow> ('a \<Rightarrow> node \<Rightarrow> 'b outcome) \<Rightarrow> 'b outcome" where
  "obind m f = (case m of Ret x s \<Rightarrow> f x s | Spin s \<Rightarrow> Spin s | Reboot s \<Rightarrow> Reboot s
                | OutOfFuel \<Rightarrow> OutOfFuel)"

lemma obind_cong [fundef_cong]:
  "m = m' \<Longrightarrow> (\<And>x s. m' = Ret x s \<Longrightarrow> f x s = f' x s) \<Longrightarrow> obind m f = obind m' f'"
  by (cases m') (simp_all add: obind_def)

lemma obind_simps [simp]:
  "obind (Ret x s) f = f x s"
  "obind (Spin s) f = Spin s"
  "obind (Reboot s) f = Reboot s"
  "obind OutOfFuel f = OutOfFuel"
  by (simp_all add: obind_def)

subsection \<open>Hardware and driver primitives\<close>

text \<open>
  Modelled from the spec: the external collaborators of section 1. The clock is a
  millisecond counter read as a 32-bit value; each reading lets the scripted number of
  milliseconds pass (one millisecond once the script is used up). The radio driver offers
  at each poll the next scripted frame, if any, and reports the next scripted result for
  each send (success once the script is used up). The signer answers each request with the
  next scripted result (refusal once the script is used up).
\<close>

definition hwMillis :: "node \<Rightarrow> u32 \<times> node" where
  "hwMillis s =
     (of_nat (millis s),
      case ticks s of [] \<Rightarrow> s\<lparr>millis := millis s + 1\<rparr>
      | d # ds \<Rightarrow> s\<lparr>millis := millis s + d, ticks := ds\<rparr>)"

definition transportAvailable :: "node \<Rightarrow> (u8 \<times> MyMessage) option \<times> node" where
  "transportAvailable s =
     (case radio_rx s of [] \<Rightarrow> (None, s) | x # xs \<Rightarrow> (x, s\<lparr>radio_rx := xs\<rparr>))"

definition transportSend :: "u8 \<Rightarrow> MyMessage \<Rightarrow> nat \<Rightarrow> node \<Rightarrow> bool \<times> node" where
  "transportSend to m len s =
     (case radio_tx_ok s of [] \<Rightarrow> (True, emit (Ev_Tx to m len) s)
      | b # bs \<Rightarrow> (b, emit (Ev_Tx to m len) (s\<lparr>radio_tx_ok := bs\<rparr>)))"

definition signer_answer :: "event \<Rightarrow> node \<Rightarrow> bool \<times> node" where
  "signer_answer e s =
     (case signer_ok s of [] \<Rightarrow> (False, emit e s)
      | b # bs \<Rightarrow> (b, emit e (s\<lparr>signer_ok := bs\<rparr>)))"

definition flash_writeBytes :: "nat \<Rightarrow> u8 list \<Rightarrow> node \<Rightarrow> node" where
  "flash_writeBytes addr bs s =
     emit (Ev_FlashWrite addr bs)
       (s\<lparr>flash := (\<lambda>a. if addr \<le> a \<and> a < addr + length bs then bs ! (a - addr) else flash s a)\<rparr>)"

definition flash_blockErase32K :: "node \<Rightarrow> node" where
  "flash_blockErase32K s =
     emit Ev_FlashErase32K (s\<lparr>flash := (\<lambda>a. if a < 32768 then 255 else flash s a)\<rparr>)"

subsection \<open>transportIsValidFirmware\<close>

definition crc_bit :: "u16 \<Rightarrow> u16" where
  "crc_bit crc = (if crc AND 1 \<noteq> 0 then drop_bit 1 crc XOR 0xA001 else drop_bit 1 crc)"

definition crc_update :: "u16 \<Rightarrow> u8 \<Rightarrow> u16" where
  "crc_update crc b = (crc_bit ^^ 8) (crc XOR ucast b)"

function fw_crc_loop :: "(nat \<Rightarrow> u8) \<Rightarrow> u16 \<Rightarrow> u16 \<Rightarrow> u16 \<Rightarrow> u16" where
  "fw_crc_loop fl bound i crc =
     (if i < bound
      then fw_crc_loop fl bound (i + 1) (crc_update crc (fl (unat (i + FIRMWARE_START_OFFSET))))
      else crc)"
  by pat_completeness auto
termination
proof (relation "measure (\<lambda>(fl, bound, i, crc). unat bound - unat i)")
  show "wf (measure (\<lambda>(fl, bound, i, crc). unat bound - unat i))" by simp
next
  fix fl :: "nat \<Rightarrow> u8" and bound i crc :: u16
  assume lt: "i < bound"
  then have "unat i < unat bound" by (simp add: word_less_nat_alt)
  moreover have "unat bound < 2 ^ 16" using unsigned_less [of bound] by simp
  ultimately have "unat i + 1 < 2 ^ 16" by simp
  then have "unat (i + 1) = unat i + 1" by (simp add: unat_word_ariths)
  with \<open>unat i < unat bound\<close> show "((fl, bound, i + 1, crc_update crc (fl (unat (i + FIRMWARE_START_OFFSET)))),
                    (fl, bound, i, crc)) \<in> measure (\<lambda>(fl, bound, i, crc). unat bound - unat i)"
    by simp
qed

declare fw_crc_loop.simps [simp del]

definition transportIsValidFirmware :: "node \<Rightarrow> bool" where
  "transportIsValidFirmware s =
     (fw_crc_loop (flash s) (fwBlocks (fc s) * FIRMWARE_BLOCK_SIZE) 0 (NOT 0) = fwCrc (fc s))"

subsection \<open>transportSendWrite\<close>

definition transportSendWrite :: "u8 \<Rightarrow> msgref \<Rightarrow> node \<Rightarrow> bool \<times> node" where
  "transportSendWrite to r s =
     (let m1 = (get_msg r s)\<lparr>mVersion := PROTOCOL_VERSION\<rparr>;
          length = (if mSigned m1 then MAX_MESSAGE_LENGTH else unat (mLength m1));
          m2 = m1\<lparr>mLast := nodeId s\<rparr>;
          s1 = emit Ev_BlinkTx (put_msg r m2 s)
      in transportSend to m2 (min MAX_MESSAGE_LENGTH (HEADER_SIZE + length)) s1)"


subsection \<open>The blocks of transportProcess that call nothing recursive\<close>

definition isValidDistance :: "u8 \<Rightarrow> bool" where
  "isValidDistance d = (d \<noteq> DISTANCE_INVALID)"

definition handshake_type :: "u8 \<Rightarrow> bool" where
  "handshake_type type =
     (type = I_GET_NONCE_RESPONSE \<or> type = I_GET_NONCE \<or> type = I_REQUEST_SIGNING \<or>
      type = I_ID_REQUEST \<or> type = I_ID_RESPONSE \<or>
      type = I_FIND_PARENT \<or> type = I_FIND_PARENT_RESPONSE \<or>
      type = I_HEARTBEAT \<or> type = I_HEARTBEAT_RESPONSE)"

text \<open>
  Lines 87 to 113: the inbound signing check. The result says whether processing goes on;
  \<open>MY_IS_GATEWAY\<close> is true exactly in a gateway build.
\<close>

definition verification_required :: "config \<Rightarrow> u8 \<Rightarrow> u8 \<Rightarrow> u8 \<Rightarrow> node \<Rightarrow> bool" where
  "verification_required c sender destination type s =
     (MY_SIGNING_FEATURE c \<and> MY_SIGNING_REQUEST_SIGNATURES c \<and>
      (\<not> MY_GATEWAY_FEATURE c \<or> doSign s sender) \<and>
      destination = nodeId s \<and>
      \<not> mAck (msg s) \<and>
      (mCommand (msg s) \<noteq> C_INTERNAL \<or> \<not> handshake_type type))"

definition verify_inbound :: "config \<Rightarrow> u8 \<Rightarrow> u8 \<Rightarrow> u8 \<Rightarrow> node \<Rightarrow> bool \<times> node" where
  "verify_inbound c sender destination type s =
     (if verification_required c sender destination type s
      then if \<not> mSigned (msg s) then (False, emit Ev_BlinkErr s)
           else (let (ok, s1) = signer_answer (Ev_SignerVerify (msg s)) s
                 in if \<not> ok then (False, emit Ev_BlinkErr s1) else (True, s1))
      else (True, s))"

text \<open>Lines 62 to 67: the firmware block request laid over \<open>_msg\<close>.\<close>

definition request_fw_block :: "node \<Rightarrow> node" where
  "request_fw_block s =
     (let m1 = (msg s)\<lparr>mLength := 6\<rparr>;
          m2 = m1\<lparr>mData := put_bytes 0
                  (le16 (fwType (fc s)) @ le16 (fwVersion (fc s)) @ le16 (fwBlock s - 1))
                  (mData m1)\<rparr>
      in s\<lparr>msg := build m2 (nodeId s) GATEWAY_ADDRESS NODE_SENSOR_ID C_STREAM
                     ST_FIRMWARE_REQUEST False\<rparr>)"

text \<open>Lines 161 to 178: a reply to FIND_PARENT.\<close>

definition find_parent_response :: "u8 \<Rightarrow> node \<Rightarrow> node" where
  "find_parent_response sender s =
     (if autoFindParent s then
        (let d = getByte (msg s) in
         if isValidDistance d then
           (let d' = d + 1 in
            if isValidDistance d' \<and> d' < distance s then
              (let s1 = s\<lparr>distance := d', parentNodeId := sender\<rparr>
               in s1\<lparr>ee_parentNodeId := parentNodeId s1, ee_distance := distance s1\<rparr>)
            else s)
         else s)
      else s)"

text \<open>Lines 187 to 195: the signing requirement of a peer, updated and persisted.\<close>

definition request_signing_update :: "u8 \<Rightarrow> node \<Rightarrow> node" where
  "request_signing_update sender s =
     (let s1 = (if getBool (msg s) then s\<lparr>doSign := (doSign s)(sender := True)\<rparr>
                else s\<lparr>doSign := (doSign s)(sender := False)\<rparr>)
      in s1\<lparr>ee_doSign := doSign s1\<rparr>)"

text \<open>
  Lines 239 to 261: a firmware configuration from the controller. The result says whether
  the source returns here (a new session) or falls through to the message hand-over.
\<close>

definition fw_config_response :: "config \<Rightarrow> node \<Rightarrow> bool \<times> node" where
  "fw_config_response c s =
     (let firmwareConfigResponse = fc_of_payload (mData (msg s)) in
      if fc s \<noteq> firmwareConfigResponse then
        (let s1 = s\<lparr>fc := firmwareConfigResponse\<rparr> in
         if \<not> flash_initialize_ok s1 then (True, s1\<lparr>fwUpdateOngoing := False\<rparr>)
         else (let s2 = flash_blockErase32K s1
               in (True, s2\<lparr>fwBlock := fwBlocks (fc s2), fwUpdateOngoing := True,
                            fwRetry := MY_OTA_RETRY c + 1, fwLastRequestTime := 0\<rparr>)))
      else (False, s))"

text \<open>Lines 264 to 296: a firmware block from the controller.\<close>

definition fw_response :: "config \<Rightarrow> node \<Rightarrow> unit outcome" where
  "fw_response c s =
     (if fwUpdateOngoing s then
        (let s1 = flash_writeBytes
                    (unat ((fwBlock s - 1) * FIRMWARE_BLOCK_SIZE + FIRMWARE_START_OFFSET))
                    (reply_block_data (mData (msg s))) s;
             s2 = s1\<lparr>fwBlock := fwBlock s1 - 1\<rparr>
         in if fwBlock s2 = 0 then
              (let s3 = s2\<lparr>fwUpdateOngoing := False\<rparr> in
               if transportIsValidFirmware s3 then
                 (let fwsize = FIRMWARE_BLOCK_SIZE * fwBlocks (fc s3);
                      OTAbuffer = [0x46, 0x4C, 0x58, 0x49, 0x4D, 0x47, 0x3A,
                                   ucast (drop_bit 8 fwsize), ucast (fwsize AND 0xff), 0x3A];
                      s4 = flash_writeBytes 0 OTAbuffer s3;
                      s5 = emit (Ev_PersistFirmwareConfig (fc s4)) (s4\<lparr>ee_fc := fc s4\<rparr>)
                  in Reboot s5)
               else Ret () (s3\<lparr>fwRetry := MY_OTA_RETRY c + 1, fwLastRequestTime := 0\<rparr>))
            else Ret () (s2\<lparr>fwRetry := MY_OTA_RETRY c + 1, fwLastRequestTime := 0\<rparr>))
      else Ret () s)"

text \<open>
  Lines 301 to 309: the message is handed to the controller (gateway builds) and to the
  application callback. Both are observed, not executed.
\<close>

definition deliver :: "config \<Rightarrow> node \<Rightarrow> node" where
  "deliver c s =
     (let s1 = (if MY_GATEWAY_FEATURE c then emit (Ev_GatewaySend (msg s)) s else s)
      in if receive_registered c then emit (Ev_Receive (msg s1)) s1 else s1)"

text \<open>Lines 578 to 586: the firmware configuration request laid over \<open>_msg\<close>.\<close>

definition request_fw_config :: "config \<Rightarrow> node \<Rightarrow> node" where
  "request_fw_config c s =
     (let m1 = (msg s)\<lparr>mLength := 10\<rparr>;
          m2 = m1\<lparr>mCommand := C_STREAM\<rparr>;
          m3 = m2\<lparr>mPayloadType := P_CUSTOM\<rparr>;
          m4 = m3\<lparr>mData := put_bytes 0 (fc_bytes (fc s)) (mData m3)\<rparr>;
          m5 = m4\<lparr>mData := put_bytes 8 (le16 (MY_OTA_BOOTLOADER_VERSION c)) (mData m4)\<rparr>
      in s\<lparr>msg := m5, fwUpdateOngoing := False\<rparr>)"

subsection \<open>The processing loop, the sender and parent discovery\<close>

text \<open>
  Modelled from the spec: \<open>_process\<close> is not among the sources; every function that
  reaches it takes it as the parameter \<open>proc\<close>, and \<open>transportProcess\<close> passes itself, as
  the spec says (the signing coordinator and \<open>wait\<close> re-enter the processing loop).
  \<open>_sendRoute\<close> is the sender \<open>transportSendRoute\<close>, and \<open>wait ms\<close> polls the processing
  loop until \<open>ms\<close> milliseconds have passed (section 9); \<open>present\<close> and
  \<open>_processInternalMessages\<close> belong to the host and are observed, not executed.

  Fuel bounds the iterations of the polling loops, the depth of nested sends and the depth
  of re-entry of the processing loop; a computation that needs more than it was given ends
  in \<open>OutOfFuel\<close>.
\<close>

primrec wait_loop :: "nat \<Rightarrow> (node \<Rightarrow> unit outcome) \<Rightarrow> u32 \<Rightarrow> u32 \<Rightarrow> node \<Rightarrow> unit outcome" where
  "wait_loop 0 proc enter ms s = OutOfFuel"
| "wait_loop (Suc n) proc enter ms s =
     (let (now, s1) = hwMillis s in
      if now - enter < ms
      then obind (proc s1) (\<lambda>u s2. wait_loop n proc enter ms s2)
      else Ret () s1)"

definition wait :: "nat \<Rightarrow> (node \<Rightarrow> unit outcome) \<Rightarrow> u32 \<Rightarrow> node \<Rightarrow> unit outcome" where
  "wait n proc ms s = (let (enter, s1) = hwMillis s in wait_loop n proc enter ms s1)"

definition transportFindParentNode :: "nat \<Rightarrow> (node \<Rightarrow> unit outcome) \<Rightarrow> node \<Rightarrow> unit outcome" where
  "transportFindParentNode n proc s =
     (if findingParentNode s then Ret () s
      else
        (let s1 = s\<lparr>findingParentNode := True\<rparr>;
             s2 = s1\<lparr>failedTransmissions := 0\<rparr>;
             s3 = s2\<lparr>distance := 255\<rparr>;
             s4 = s3\<lparr>msg := set_str_empty (build (msg s3) (nodeId s3) BROADCAST_ADDRESS
                                              NODE_SENSOR_ID C_INTERNAL I_FIND_PARENT False)\<rparr>;
             (ok, s5) = transportSendWrite BROADCAST_ADDRESS Ref_msg s4
         in obind (wait n proc 2000 s5) (\<lambda>u s6. Ret () (s6\<lparr>findingParentNode := False\<rparr>))))"

definition transportRequestNodeId :: "nat \<Rightarrow> (node \<Rightarrow> unit outcome) \<Rightarrow> node \<Rightarrow> unit outcome" where
  "transportRequestNodeId n proc s =
     (let s1 = emit (Ev_SetAddress (nodeId s)) s;
          s2 = s1\<lparr>msg := set_str_empty (build (msg s1) (nodeId s1) GATEWAY_ADDRESS NODE_SENSOR_ID
                                           C_INTERNAL I_ID_REQUEST False)\<rparr>;
          (ok, s3) = transportSendWrite (parentNodeId s2) Ref_msg s2
      in wait n proc 2000 s3)"

text \<open>Lines 519 to 531 of \<open>transportSendRoute\<close>: what follows a send to the parent.\<close>

definition send_result ::
  "nat \<Rightarrow> (node \<Rightarrow> unit outcome) \<Rightarrow> config \<Rightarrow> bool \<Rightarrow> node \<Rightarrow> bool outcome" where
  "send_result n proc c ok s =
     (if \<not> ok then
        (let s1 = emit Ev_BlinkErr s;
             s2 = s1\<lparr>failedTransmissions := failedTransmissions s1 + 1\<rparr>
         in if autoFindParent s2 \<and> failedTransmissions s2 > SEARCH_FAILURES c
            then obind (transportFindParentNode n proc s2) (\<lambda>u s3. Ret ok s3)
            else Ret ok s2)
      else Ret ok (s\<lparr>failedTransmissions := 0\<rparr>))"

text \<open>
  Lines 453 to 517 of \<open>transportSendRoute\<close>: the choice of the next hop. \<open>lastHop\<close> is the
  local \<open>last\<close>, read from the message when \<open>transportSendRoute\<close> was entered.
\<close>

definition route_message ::
  "nat \<Rightarrow> (node \<Rightarrow> unit outcome) \<Rightarrow> config \<Rightarrow> msgref \<Rightarrow> u8 \<Rightarrow> node \<Rightarrow> bool outcome" where
  "route_message n proc c r lastHop s =
     (if \<not> MY_REPEATER_FEATURE c then
        (let (ok, s1) = transportSendWrite (parentNodeId s) r s in send_result n proc c ok s1)
      else
        (let sender = mSender (get_msg r s);
             dest = mDestination (get_msg r s)
         in if dest = GATEWAY_ADDRESS then
              (let s1 = s\<lparr>routes := (routes s)(sender := lastHop)\<rparr>;
                   (ok, s2) = transportSendWrite (parentNodeId s1) r s1
               in send_result n proc c ok s2)
            else
              (let route = (if dest \<noteq> BROADCAST_ADDRESS then routes s dest
                            else BROADCAST_ADDRESS)
               in if route > GATEWAY_ADDRESS \<and> route < BROADCAST_ADDRESS then
                    (let (ok, s1) = transportSendWrite route r s in Ret ok s1)
                  else if sender = GATEWAY_ADDRESS \<and> dest = BROADCAST_ADDRESS then
                    (let (ok, s1) = transportSendWrite BROADCAST_ADDRESS r s in Ret ok s1)
                  else if MY_GATEWAY_FEATURE c then Ret False s
                  else
                    (let (ok, s1) = transportSendWrite (parentNodeId s) r s;
                         s2 = s1\<lparr>routes := (routes s1)(sender := lastHop)\<rparr>
                     in send_result n proc c ok s2))))"

text \<open>The loop of line 431: poll the processing loop until the nonce is in or time is up.\<close>

primrec nonce_wait ::
  "nat \<Rightarrow> (node \<Rightarrow> unit outcome) \<Rightarrow> config \<Rightarrow> u32 \<Rightarrow> node \<Rightarrow> unit outcome" where
  "nonce_wait 0 proc c enter s = OutOfFuel"
| "nonce_wait (Suc n) proc c enter s =
     (let (now, s1) = hwMillis s in
      if now - enter < MY_VERIFICATION_TIMEOUT_MS c \<and>
         signingNonceStatus s1 = SIGN_WAITING_FOR_NONCE
      then obind (proc s1) (\<lambda>u s2. nonce_wait n proc c enter s2)
      else Ret () s1)"

text \<open>Line 414: the send has to go through the signing handshake.\<close>

definition needs_signing :: "node \<Rightarrow> MyMessage \<Rightarrow> bool" where
  "needs_signing s message =
     (doSign s (mDestination message) \<and> mSender message = nodeId s \<and> \<not> mAck message \<and>
      (mCommand message \<noteq> C_INTERNAL \<or> \<not> handshake_type (mType message)))"

primrec transportSendRoute ::
  "nat \<Rightarrow> (node \<Rightarrow> unit outcome) \<Rightarrow> config \<Rightarrow> msgref \<Rightarrow> node \<Rightarrow> bool outcome" where
  "transportSendRoute 0 proc c r s = OutOfFuel"
| "transportSendRoute (Suc n) proc c r s =
     (let lastHop = mLast (get_msg r s) in
      if parentNodeId s = AUTO then
        obind (transportFindParentNode n proc s) (\<lambda>u s1. Ret False (emit Ev_BlinkErr s1))
      else if nodeId s = AUTO then
        obind (transportRequestNodeId n proc s) (\<lambda>u s1. Ret False (emit Ev_BlinkErr s1))
      else
        (let s1 = put_msg r ((get_msg r s)\<lparr>mVersion := PROTOCOL_VERSION\<rparr>) s;
             message = get_msg r s1
         in if MY_SIGNING_FEATURE c then
              (if needs_signing s1 message then
                 (let s2 = s1\<lparr>signingNonceStatus := SIGN_WAITING_FOR_NONCE\<rparr>;
                      s3 = s2\<lparr>msgTmp := set_str_empty
                                          (build (msgTmp s2) (nodeId s2) (mDestination message)
                                             (mSensor message) C_INTERNAL I_GET_NONCE False)\<rparr>
                  in obind (transportSendRoute n proc c Ref_msgTmp s3) (\<lambda>sent s4.
                       if \<not> sent then Ret False s4
                       else
                         (let (enter, s5) = hwMillis s4;
                              s6 = s5\<lparr>msgSign := get_msg r s5\<rparr>
                          in obind (nonce_wait n proc c enter s6) (\<lambda>u s7.
                               (let (now, s8) = hwMillis s7 in
                                if now - enter > MY_VERIFICATION_TIMEOUT_MS c
                                then Ret False (emit Ev_BlinkErr s8)
                                else if signingNonceStatus s8 = SIGN_OK
                                then route_message n proc c r lastHop (put_msg r (msgSign s8) s8)
                                else Ret False (emit Ev_BlinkErr s8))))))
               else if nodeId s1 = mSender message then
                 route_message n proc c r lastHop (put_msg r (message\<lparr>mSigned := False\<rparr>) s1)
               else route_message n proc c r lastHop s1)
            else route_message n proc c r lastHop s1))"

definition transportPresentNode ::
  "nat \<Rightarrow> (node \<Rightarrow> unit outcome) \<Rightarrow> config \<Rightarrow> node \<Rightarrow> unit outcome" where
  "transportPresentNode n proc c s =
     (let s1 = emit (Ev_SetAddress (nodeId s)) s in
      if \<not> MY_GATEWAY_FEATURE c \<and> nodeId s1 \<noteq> AUTO then
        obind (transportSendRoute n proc c Ref_msg
                 (s1\<lparr>msg := set_u8 (if MY_SIGNING_FEATURE c \<and> MY_SIGNING_REQUEST_SIGNATURES c
                                     then 1 else 0)
                               (build (msg s1) (nodeId s1) GATEWAY_ADDRESS NODE_SENSOR_ID
                                  C_INTERNAL I_REQUEST_SIGNING False)\<rparr>))
          (\<lambda>ok s2.
             obind (if MY_SIGNING_FEATURE c \<and> MY_SIGNING_REQUEST_SIGNATURES c
                    then wait n proc 2000 s2 else Ret () s2)
               (\<lambda>u s3.
                  (let s4 = emit (Ev_Present NODE_SENSOR_ID
                                    (if MY_REPEATER_FEATURE c then S_ARDUINO_REPEATER_NODE
                                     else S_ARDUINO_NODE)) s3
                   in obind (transportSendRoute n proc c Ref_msg
                               (s4\<lparr>msg := set_u8 (parentNodeId s4)
                                             (build (msg s4) (nodeId s4) GATEWAY_ADDRESS
                                                NODE_SENSOR_ID C_INTERNAL I_CONFIG False)\<rparr>))
                        (\<lambda>ok s5.
                           obind (wait n proc 2000 s5) (\<lambda>u s6.
                             if MY_OTA_FIRMWARE_FEATURE c then
                               (let s7 = request_fw_config c s6 in
                                obind (transportSendRoute n proc c Ref_msg
                                         (s7\<lparr>msg := build (msg s7) (nodeId s7) GATEWAY_ADDRESS
                                                       NODE_SENSOR_ID C_STREAM
                                                       ST_FIRMWARE_CONFIG_REQUEST False\<rparr>))
                                      (\<lambda>ok s8. Ret () s8))
                             else Ret () s6)))))
      else Ret () s1)"

text \<open>
  Lines 159 to 309 of \<open>transportProcess\<close>: the dispatch of a message addressed to this
  node, on the locals \<open>command\<close>, \<open>type\<close> and \<open>sender\<close> read when the frame came in.
\<close>

definition process_local ::
  "nat \<Rightarrow> (node \<Rightarrow> unit outcome) \<Rightarrow> config \<Rightarrow> 3 word \<Rightarrow> u8 \<Rightarrow> u8 \<Rightarrow> node \<Rightarrow> unit outcome" where
  "process_local n proc c command type sender s =
     (if command = C_INTERNAL \<and> type = I_FIND_PARENT_RESPONSE then
        Ret () (find_parent_response sender s)
      else if command = C_INTERNAL \<and> MY_SIGNING_FEATURE c \<and> type = I_GET_NONCE then
        (let (ok, s1) = signer_answer (Ev_SignerGetNonce (msg s)) s in
         if ok then
           obind (transportSendRoute n proc c Ref_msg
                    (s1\<lparr>msg := build (signer_nonce c (msg s1)) (nodeId s1) sender NODE_SENSOR_ID
                                  C_INTERNAL I_GET_NONCE_RESPONSE False\<rparr>))
                 (\<lambda>ok s2. Ret () s2)
         else Ret () s1)
      else if command = C_INTERNAL \<and> MY_SIGNING_FEATURE c \<and> type = I_REQUEST_SIGNING then
        (let s1 = request_signing_update sender s in
         if MY_GATEWAY_FEATURE c then
           obind (transportSendRoute n proc c Ref_msg
                    (s1\<lparr>msg := set_u8 (if MY_SIGNING_REQUEST_SIGNATURES c \<and> doSign s1 sender
                                        then 1 else 0)
                                  (build (msg s1) (nodeId s1) sender NODE_SENSOR_ID
                                     C_INTERNAL I_REQUEST_SIGNING False)\<rparr>))
                 (\<lambda>ok s2. Ret () s2)
         else Ret () s1)
      else if command = C_INTERNAL \<and> MY_SIGNING_FEATURE c \<and> type = I_GET_NONCE_RESPONSE then
        (let (ok1, s1) = signer_answer (Ev_SignerPutNonce (msg s)) s in
         if ok1 then
           (let (ok2, s2) = signer_answer (Ev_SignerSign (msgSign s1)) s1 in
            if ok2
            then Ret () (s2\<lparr>msgSign := signer_sign c (msgSign s2), signingNonceStatus := SIGN_OK\<rparr>)
            else Ret () s2)
         else Ret () s1)
      else if command = C_INTERNAL \<and> sender = GATEWAY_ADDRESS then
        (if type = I_ID_RESPONSE \<and> nodeId s = AUTO then
           (let s1 = s\<lparr>nodeId := getByte (msg s)\<rparr> in
            if nodeId s1 = AUTO then Spin s1
            else obind (transportPresentNode n proc c s1)
                       (\<lambda>u s2. Ret () (s2\<lparr>ee_nodeId := nodeId s2\<rparr>)))
         else Ret () (emit (Ev_ProcessInternal (msg s)) s))
      else if command \<noteq> C_INTERNAL \<and> MY_OTA_FIRMWARE_FEATURE c \<and> command = C_STREAM \<and>
              type = ST_FIRMWARE_CONFIG_RESPONSE then
        (let (returned, s1) = fw_config_response c s in
         if returned then Ret () s1 else Ret () (deliver c s1))
      else if command \<noteq> C_INTERNAL \<and> MY_OTA_FIRMWARE_FEATURE c \<and> command = C_STREAM \<and>
              type = ST_FIRMWARE_RESPONSE then
        fw_response c s
      else Ret () (deliver c s))"

text \<open>
  Lines 310 to 349 of \<open>transportProcess\<close>: a broadcast discovery signal, a FIND_PARENT
  ping, or a message to relay.
\<close>

definition process_relay ::
  "nat \<Rightarrow> (node \<Rightarrow> unit outcome) \<Rightarrow> config \<Rightarrow> u8 \<Rightarrow> 3 word \<Rightarrow> u8 \<Rightarrow> u8 \<Rightarrow> u8 \<Rightarrow> u8 \<Rightarrow> node
     \<Rightarrow> unit outcome" where
  "process_relay n proc c to command type sender lastHop destination s =
     (if destination = BROADCAST_ADDRESS \<and> command = C_INTERNAL \<and> type = I_DISCOVER \<and>
         lastHop = parentNodeId s then
        (let (now, s1) = hwMillis s in
         obind (wait n proc (now AND 0x3ff) s1) (\<lambda>u s2.
           obind (transportSendRoute n proc c Ref_msgTmp
                    (s2\<lparr>msgTmp := set_u8 (parentNodeId s2)
                                     (build (msgTmp s2) (nodeId s2) sender NODE_SENSOR_ID
                                        C_INTERNAL I_DISCOVER_RESPONSE False)\<rparr>))
                 (\<lambda>ok s3.
                    if MY_REPEATER_FEATURE c
                    then obind (transportSendRoute n proc c Ref_msg s3) (\<lambda>ok s4. Ret () s4)
                    else Ret () s3)))
      else if MY_REPEATER_FEATURE c \<and> nodeId s \<noteq> AUTO then
        (if command = C_INTERNAL \<and> type = I_FIND_PARENT then
           (if sender \<noteq> parentNodeId s then
              obind (if distance s = DISTANCE_INVALID then transportFindParentNode n proc s
                     else Ret () s)
                    (\<lambda>u s1.
                       if distance s1 \<noteq> DISTANCE_INVALID then
                         (let (now, s2) = hwMillis s1 in
                          obind (wait n proc (now AND 0x3ff) s2) (\<lambda>u s3.
                            Ret () (snd (transportSendWrite sender Ref_msg
                                      (s3\<lparr>msg := set_u8 (distance s3)
                                                     (build (msg s3) (nodeId s3) sender
                                                        NODE_SENSOR_ID C_INTERNAL
                                                        I_FIND_PARENT_RESPONSE False)\<rparr>)))))
                       else Ret () s1)
            else Ret () s)
         else if to = nodeId s then
           obind (transportSendRoute n proc c Ref_msg s) (\<lambda>ok s1. Ret () s1)
         else Ret () s)
      else Ret () s)"

text \<open>Lines 49 to 70 of \<open>transportProcess\<close>: no frame is pending.\<close>

definition process_idle ::
  "nat \<Rightarrow> (node \<Rightarrow> unit outcome) \<Rightarrow> config \<Rightarrow> node \<Rightarrow> unit outcome" where
  "process_idle n proc c s =
     (if MY_OTA_FIRMWARE_FEATURE c then
        (let (enter, s1) = hwMillis s in
         if fwUpdateOngoing s1 \<and> enter - fwLastRequestTime s1 > MY_OTA_RETRY_DELAY c then
           if fwRetry s1 = 0
           then Ret () (emit Ev_BlinkErr (s1\<lparr>fwUpdateOngoing := False\<rparr>))
           else obind (transportSendRoute n proc c Ref_msg
                         (request_fw_block
                            (s1\<lparr>fwRetry := fwRetry s1 - 1, fwLastRequestTime := enter\<rparr>)))
                      (\<lambda>ok s2. Ret () s2)
         else Ret () s1)
      else Ret () s)"

text \<open>Lines 73 to 350 of \<open>transportProcess\<close>: a frame is pending.\<close>

definition process_frame ::
  "nat \<Rightarrow> (node \<Rightarrow> unit outcome) \<Rightarrow> config \<Rightarrow> u8 \<Rightarrow> MyMessage \<Rightarrow> node \<Rightarrow> unit outcome" where
  "process_frame n proc c to frame s =
     (let s1 = (if MY_SIGNING_FEATURE c then emit Ev_SignerCheckTimer s else s);
          s2 = emit Ev_BlinkRx (s1\<lparr>msg := frame\<rparr>);
          command = mCommand (msg s2);
          type = mType (msg s2);
          sender = mSender (msg s2);
          lastHop = mLast (msg s2);
          destination = mDestination (msg s2);
          (accepted, s3) = verify_inbound c sender destination type s2
      in if \<not> accepted then Ret () s3
         else if mVersion (msg s3) \<noteq> PROTOCOL_VERSION then Ret () (emit Ev_BlinkErr s3)
         else if destination = nodeId s3 then
           (let s4 = s3\<lparr>msg := (msg s3)\<lparr>mSigned := False\<rparr>\<rparr>;
                s5 = (if MY_REPEATER_FEATURE c \<and> mLast (msg s4) \<noteq> parentNodeId s4
                      then s4\<lparr>routes := (routes s4)(sender := mLast (msg s4))\<rparr>
                      else s4)
            in if mRequestAck (msg s5) then
                 obind (transportSendRoute n proc c Ref_msgTmp
                          (s5\<lparr>msgTmp := (msg s5)\<lparr>mRequestAck := False, mAck := True,
                                                   mSender := nodeId s5,
                                                   mDestination := sender\<rparr>\<rparr>))
                       (\<lambda>ok s6. process_local n proc c command type sender s6)
               else process_local n proc c command type sender s5)
         else process_relay n proc c to command type sender lastHop destination s3)"

primrec transportProcess :: "nat \<Rightarrow> config \<Rightarrow> node \<Rightarrow> unit outcome" where
  "transportProcess 0 c s = OutOfFuel"
| "transportProcess (Suc n) c s =
     (case transportAvailable s of
        (None, s0) \<Rightarrow> process_idle n (transportProcess n c) c s0
      | (Some (to, frame), s0) \<Rightarrow> process_frame n (transportProcess n c) c to frame s0)"


subsection \<open>Receiving a frame\<close>

definition is_flash_event :: "event \<Rightarrow> bool" where
  "is_flash_event e = (case e of Ev_FlashErase32K \<Rightarrow> True | Ev_FlashWrite a bs \<Rightarrow> True | _ \<Rightarrow> False)"

text \<open>
  Lines 73 to 113 for a frame the radio hands over: the signing timer tick, the frame in
  the receive buffer, the receive blink and the inbound signing check. Lines 139 to 146:
  the signed flag is cleared and, on a repeater, the route to the sender is learned.
\<close>

definition frame_received :: "config \<Rightarrow> MyMessage \<Rightarrow> node \<Rightarrow> bool \<times> node" where
  "frame_received c frame s =
     verify_inbound c (mSender frame) (mDestination frame) (mType frame)
       (emit Ev_BlinkRx ((if MY_SIGNING_FEATURE c then emit Ev_SignerCheckTimer s else s)
                          \<lparr>msg := frame\<rparr>))"

definition route_learned :: "config \<Rightarrow> node \<Rightarrow> node" where
  "route_learned c s =
     (if MY_REPEATER_FEATURE c \<and> mLast (msg s) \<noteq> parentNodeId s
      then s\<lparr>msg := (msg s)\<lparr>mSigned := False\<rparr>,
             routes := (routes s)(mSender (msg s) := mLast (msg s))\<rparr>
      else s\<lparr>msg := (msg s)\<lparr>mSigned := False\<rparr>\<rparr>)"

text \<open>
  The frames that make the node send something while it handles them: an ack request, a
  nonce request, a signing preference on a gateway, an id assignment (which starts the
  node presentation).
\<close>

definition causes_reply :: "config \<Rightarrow> node \<Rightarrow> MyMessage \<Rightarrow> bool" where
  "causes_reply c s frame =
     (mRequestAck frame \<or>
      (mCommand frame = C_INTERNAL \<and>
       ((MY_SIGNING_FEATURE c \<and> mType frame = I_GET_NONCE) \<or>
        (MY_SIGNING_FEATURE c \<and> MY_GATEWAY_FEATURE c \<and> mType frame = I_REQUEST_SIGNING) \<or>
        (mType frame = I_ID_RESPONSE \<and> mSender frame = GATEWAY_ADDRESS \<and> nodeId s = AUTO))))"

subsection \<open>The firmware checksum and the staging header, as the spec words them\<close>

text \<open>
  The checksum in the spec's words: CRC-16 with the reflected polynomial 0xA001, initial
  value 0xFFFF and no final xor, bytes taken in ascending order, each byte xored into the
  low byte and shifted out bit by bit.
\<close>

definition crc16_shift :: "u16 \<Rightarrow> u16" where
  "crc16_shift x = (if bit x 0 then drop_bit 1 x XOR 0xA001 else drop_bit 1 x)"

definition crc16_spec :: "u8 list \<Rightarrow> u16" where
  "crc16_spec bytes = foldl (\<lambda>crc b. (crc16_shift ^^ 8) (crc XOR ucast b)) 0xFFFF bytes"

text \<open>
  The staging header in the spec's words: the text FLXIMG, a colon, the image size in two
  bytes, high byte first, and a colon.
\<close>

definition staging_header :: "u16 \<Rightarrow> u8 list" where
  "staging_header sz =
     map of_char ''FLXIMG:'' @ [ucast (drop_bit 8 sz), ucast sz] @ map of_char '':''"

subsection \<open>The host loop and the choice of a parent\<close>

text \<open>The host loop: the processing loop, invoked k times.\<close>

primrec process_times :: "nat \<Rightarrow> nat \<Rightarrow> config \<Rightarrow> node \<Rightarrow> unit outcome" where
  "process_times 0 n c s = Ret () s"
| "process_times (Suc k) n c s = obind (transportProcess n c s) (\<lambda>u s'. process_times k n c s')"

text \<open>
  A response to FIND_PARENT is valid when it has the protocol version and the distance it
  offers, the responder's plus one, is a valid distance (below 255).
\<close>

definition valid_response :: "MyMessage \<Rightarrow> bool" where
  "valid_response f = (mVersion f = PROTOCOL_VERSION \<and> unat (getByte f) + 1 < 255)"

definition offered_distance :: "MyMessage \<Rightarrow> nat" where
  "offered_distance f = unat (getByte f) + 1"

text \<open>The choice among offers (distance, sender): an offer wins when it is strictly better.\<close>

fun adopt_all :: "nat \<Rightarrow> u8 \<Rightarrow> (nat \<times> u8) list \<Rightarrow> nat \<times> u8" where
  "adopt_all D P [] = (D, P)"
| "adopt_all D P ((d, p) # xs) = (if d < D then adopt_all d p xs else adopt_all D P xs)"

subsection \<open>Observing outcomes and evaluating the model\<close>

definition final_state :: "'a outcome \<Rightarrow> node option" where
  "final_state out = (case out of Ret x s \<Rightarrow> Some s | Spin s \<Rightarrow> Some s | Reboot s \<Rightarrow> Some s
                      | OutOfFuel \<Rightarrow> None)"

lemma final_state_simps [simp]:
  "final_state (Ret x s) = Some s"
  "final_state (Spin s) = Some s"
  "final_state (Reboot s) = Some s"
  "final_state OutOfFuel = None"
  by (simp_all add: final_state_def)

lemma obind_weak_cong: "m = m' \<Longrightarrow> obind m f = obind m' f"
  by simp

lemmas model_defs = transportAvailable_def process_idle_def process_frame_def hwMillis_def
    request_fw_block_def build_def put_bytes_def le16_def needs_signing_def route_message_def
    transportSendWrite_def transportSend_def emit_def send_result_def verify_inbound_def
    verification_required_def handshake_type_def signer_answer_def process_local_def
    process_relay_def transportFindParentNode_def transportRequestNodeId_def wait_def
    transportPresentNode_def find_parent_response_def request_signing_update_def
    fw_config_response_def fw_response_def deliver_def request_fw_config_def
    set_u8_def set_str_empty_def getByte_def getBool_def data_at_def isValidDistance_def
    flash_writeBytes_def flash_blockErase32K_def fc_of_payload_def u16_at_def fc_bytes_def
    reply_block_data_def

lemmas eval_congs = let_weak_cong obind_weak_cong option.case_cong_weak list.case_cong_weak
    prod.case_cong_weak

subsection \<open>The signing handshake and its environment\<close>

text \<open>
  No nonce is on its way: the signing coordinator has not been told that the message is
  signed, and none of the frames the radio will offer is a GET_NONCE_RESPONSE.
\<close>

definition nonce_frame :: "(u8 \<times> MyMessage) option \<Rightarrow> bool" where
  "nonce_frame x = (case x of None \<Rightarrow> False
                    | Some (to, f) \<Rightarrow> mCommand f = C_INTERNAL \<and> mType f = I_GET_NONCE_RESPONSE)"

definition no_nonce_pending :: "node \<Rightarrow> bool" where
  "no_nonce_pending s =
     (signingNonceStatus s \<noteq> SIGN_OK \<and> (\<forall>x \<in> set (radio_rx s). \<not> nonce_frame x))"

text \<open>Every state an outcome ends in satisfies \<open>J\<close>.\<close>

definition keeps :: "(node \<Rightarrow> bool) \<Rightarrow> 'a outcome \<Rightarrow> bool" where
  "keeps J out = (\<forall>s'. final_state out = Some s' \<longrightarrow> J s')"

text \<open>
  Lines 421 to 422 of \<open>transportSendRoute\<close>: the state in which the nonce request is
  handed to the sender: the version stamped, the coordinator waiting, GET_NONCE built in
  \<open>_msgTmp\<close>.
\<close>

definition nonce_request :: "msgref \<Rightarrow> node \<Rightarrow> node" where
  "nonce_request r s =
     (let s1 = put_msg r ((get_msg r s)\<lparr>mVersion := PROTOCOL_VERSION\<rparr>) s;
          s2 = s1\<lparr>signingNonceStatus := SIGN_WAITING_FOR_NONCE\<rparr>
      in s2\<lparr>msgTmp := set_str_empty
                         (build (msgTmp s2) (nodeId s2) (mDestination (get_msg r s1))
                            (mSensor (get_msg r s1)) C_INTERNAL I_GET_NONCE False)\<rparr>)"

text \<open>
  A silent environment: the radio offers no frame, the driver reports every send as
  delivered, and no firmware download is on. The clock is free: it advances as its script
  of ticks says, and by one millisecond per reading once the script is used up.
\<close>

definition quiet_env :: "config \<Rightarrow> node \<Rightarrow> bool" where
  "quiet_env c s =
     (radio_rx s = [] \<and> radio_tx_ok s = [] \<and>
      (MY_OTA_FIRMWARE_FEATURE c \<longrightarrow> \<not> fwUpdateOngoing s))"

definition only_nonce_tx :: "event list \<Rightarrow> bool" where
  "only_nonce_tx evs =
     (\<forall>e \<in> set evs. case e of
          Ev_Tx to m len \<Rightarrow> mCommand m = C_INTERNAL \<and> mType m = I_GET_NONCE \<and> \<not> mSigned m
        | _ \<Rightarrow> True)"

definition written :: "u8 \<Rightarrow> msgref \<Rightarrow> node \<Rightarrow> node" where
  "written hop r t =
     emit (Ev_Tx hop ((get_msg r t)\<lparr>mVersion := PROTOCOL_VERSION, mLast := nodeId t\<rparr>)
             (min MAX_MESSAGE_LENGTH
                (HEADER_SIZE + (if mSigned (get_msg r t) then MAX_MESSAGE_LENGTH
                                else unat (mLength (get_msg r t))))))
       (emit Ev_BlinkTx
          (put_msg r ((get_msg r t)\<lparr>mVersion := PROTOCOL_VERSION, mLast := nodeId t\<rparr>) t))"

definition quiet_sent :: "config \<Rightarrow> msgref \<Rightarrow> node \<Rightarrow> bool outcome \<Rightarrow> bool" where
  "quiet_sent c r s out =
     (\<exists>ok s'. out = Ret ok s' \<and> quiet_env c s' \<and> ticks s' = ticks s \<and>
        signingNonceStatus s' = signingNonceStatus s \<and>
        (trace s' = trace s \<or>
         (\<exists>hop len. trace s' = trace s @
            [Ev_BlinkTx, Ev_Tx hop ((get_msg r s)\<lparr>mVersion := PROTOCOL_VERSION,
                                                  mLast := nodeId s\<rparr>) len])))"

text \<open>
  What a call adds to the trace: \<open>trace_extends p s\<close> says that the trace of \<open>s\<close> starts
  with \<open>p\<close>, and \<open>first_tx f len s s'\<close> that \<open>s'\<close> has either the trace of \<open>s\<close> or one
  that goes on with the transmission of the frame \<open>f\<close> with \<open>len\<close> bytes to some next hop.
\<close>

definition is_prefix :: "'a list \<Rightarrow> 'a list \<Rightarrow> bool" where
  "is_prefix p xs = (take (length p) xs = p)"

definition trace_extends :: "event list \<Rightarrow> node \<Rightarrow> bool" where
  "trace_extends p s = is_prefix p (trace s)"

definition first_tx :: "MyMessage \<Rightarrow> nat \<Rightarrow> node \<Rightarrow> node \<Rightarrow> bool" where
  "first_tx f len s s' =
     (trace s' = trace s \<or>
      (\<exists>hop. trace_extends (trace s @ [Ev_BlinkTx, Ev_Tx hop f len]) s'))"

text \<open>
  Lines 598 to 609 of \<open>transportFindParentNode\<close>: the state in which a running invocation
  starts to wait for the responses.
\<close>

definition find_parent_started :: "node \<Rightarrow> node" where
  "find_parent_started s =
     snd (transportSendWrite BROADCAST_ADDRESS Ref_msg
            (s\<lparr>findingParentNode := True, failedTransmissions := 0, distance := 255,
               msg := set_str_empty (build (msg s) (nodeId s) BROADCAST_ADDRESS NODE_SENSOR_ID
                                       C_INTERNAL I_FIND_PARENT False)\<rparr>))"

text \<open>
  Sends that do not re-enter the processing loop. \<open>no_search\<close>: a failed send starts no
  parent search, because the node does not search on its own or the driver reports no
  failure. \<open>sends_through\<close>: moreover the node has a parent and an id, so that a send
  reaches the radio. \<open>through r lastHop t out\<close>: a send of the message \<open>r\<close> from the state
  \<open>t\<close> has returned, the node is as it was, and the routing table differs at most in the
  entry of the message's sender, which may hold \<open>lastHop\<close>. \<open>nonce_requested\<close>: the frame
  asks for a nonce, which the dispatch answers with the message the signer hands back.
\<close>

definition no_search :: "node \<Rightarrow> bool" where
  "no_search s = (\<not> autoFindParent s \<or> False \<notin> set (radio_tx_ok s))"

definition sends_through :: "node \<Rightarrow> bool" where
  "sends_through s = (parentNodeId s \<noteq> AUTO \<and> nodeId s \<noteq> AUTO \<and> no_search s)"

definition through :: "msgref \<Rightarrow> u8 \<Rightarrow> node \<Rightarrow> bool outcome \<Rightarrow> bool" where
  "through r lastHop t out =
     (\<exists>ok s'. out = Ret ok s' \<and> nodeId s' = nodeId t \<and> parentNodeId s' = parentNodeId t \<and>
        no_search s' \<and> (r \<noteq> Ref_msg \<longrightarrow> msg s' = msg t) \<and>
        (\<forall>x. x \<noteq> mSender (get_msg r t) \<longrightarrow> routes s' x = routes t x) \<and>
        (routes s' (mSender (get_msg r t)) = routes t (mSender (get_msg r t)) \<or>
         routes s' (mSender (get_msg r t)) = lastHop))"

definition nonce_requested :: "config \<Rightarrow> MyMessage \<Rightarrow> bool" where
  "nonce_requested c frame =
     (mCommand frame = C_INTERNAL \<and> MY_SIGNING_FEATURE c \<and> mType frame = I_GET_NONCE)"

subsection \<open>Concrete configurations and states\<close>

text \<open>
  A plain sensor node build (no optional feature), a zeroed message, and a node that has
  its id 10 and its parent 1 at distance 1, with an empty routing table, blank flash, no
  pending frame and nothing observed yet.
\<close>

definition cfg0 :: config where
  "cfg0 = \<lparr>MY_SIGNING_FEATURE = False, MY_SIGNING_REQUEST_SIGNATURES = False,
            MY_OTA_FIRMWARE_FEATURE = False, MY_REPEATER_FEATURE = False,
            MY_GATEWAY_FEATURE = False, MY_OTA_RETRY = 5, MY_OTA_RETRY_DELAY = 500,
            MY_OTA_BOOTLOADER_VERSION = 3, MY_VERIFICATION_TIMEOUT_MS = 5000,
            SEARCH_FAILURES = 5, receive_registered = True,
            signer_nonce = (\<lambda>m. m), signer_sign = (\<lambda>m. m\<lparr>mSigned := True\<rparr>)\<rparr>"

definition msg0 :: MyMessage where
  "msg0 = \<lparr>mLast = 0, mSender = 0, mDestination = 0, mSensor = 0, mCommand = 0,
            mRequestAck = False, mAck = False, mSigned = False, mVersion = PROTOCOL_VERSION,
            mPayloadType = 0, mLength = 0, mType = 0, mData = []\<rparr>"

definition fc0 :: NodeFirmwareConfig where
  "fc0 = \<lparr>fwType = 0, fwVersion = 0, fwBlocks = 0, fwCrc = 0\<rparr>"

definition node0 :: node where
  "node0 = \<lparr>nodeId = 10, parentNodeId = 1, distance = 1, autoFindParent = True,
             failedTransmissions = 0, signingNonceStatus = SIGN_WAITING_FOR_NONCE,
             doSign = (\<lambda>a. False), fc = fc0, fwUpdateOngoing = False, fwLastRequestTime = 0,
             fwBlock = 0, fwRetry = 0, msg = msg0, msgTmp = msg0, msgSign = msg0,
             msgCaller = msg0, findingParentNode = False, routes = (\<lambda>a. 255),
             ee_nodeId = 10, ee_parentNodeId = 1, ee_distance = 1, ee_doSign = (\<lambda>a. False),
             ee_fc = fc0, flash = (\<lambda>a. 255), flash_initialize_ok = True, radio_rx = [],
             radio_tx_ok = [], signer_ok = [], millis = 0, ticks = [], trace = []\<rparr>"

definition cfg_signing :: config where
  "cfg_signing = cfg0\<lparr>MY_SIGNING_FEATURE := True, MY_SIGNING_REQUEST_SIGNATURES := True\<rparr>"

definition cfg_ota :: config where
  "cfg_ota = cfg0\<lparr>MY_OTA_FIRMWARE_FEATURE := True\<rparr>"

definition cfg_repeater :: config where
  "cfg_repeater = cfg0\<lparr>MY_REPEATER_FEATURE := True\<rparr>"

text \<open>A SET message from node 20, heard directly, for node 10.\<close>

definition frame_set :: MyMessage where
  "frame_set = msg0\<lparr>mLast := 20, mSender := 20, mDestination := 10, mCommand := C_SET\<rparr>"

text \<open>A node in a firmware download: three blocks to go, six tries left.\<close>

definition node_ota :: node where
  "node_ota = node0\<lparr>fwUpdateOngoing := True, fwBlock := 3, fwRetry := 6, millis := 1000,
                    fc := \<lparr>fwType = 1, fwVersion = 2, fwBlocks = 3, fwCrc = 0\<rparr>\<rparr>"

text \<open>
  A firmware block that asks for an ack, a new firmware configuration, and a node without
  a parent that will be offered both, one second passing between clock readings.
\<close>

definition frame_fw_block :: MyMessage where
  "frame_fw_block = msg0\<lparr>mLast := 1, mSender := 0, mDestination := 10, mCommand := C_STREAM,
       mType := ST_FIRMWARE_RESPONSE, mRequestAck := True, mLength := 22,
       mData := [1, 0, 2, 0, 2, 0, 7, 7, 7, 7, 7, 7, 7, 7, 7, 7, 7, 7, 7, 7, 7, 7]\<rparr>"

definition frame_fw_config :: MyMessage where
  "frame_fw_config = msg0\<lparr>mLast := 1, mSender := 0, mDestination := 10, mCommand := C_STREAM,
       mType := ST_FIRMWARE_CONFIG_RESPONSE, mLength := 8,
       mData := [1, 0, 2, 0, 3, 0, 0, 0]\<rparr>"

definition node_c9 :: node where
  "node_c9 = node0\<lparr>parentNodeId := AUTO,
                   radio_rx := [Some (10, frame_fw_block), Some (10, frame_fw_config)],
                   ticks := [1000, 1000]\<rparr>"

lemmas scenario_defs = frame_fw_block_def frame_fw_config_def node_c9_def

text \<open>
  The last block of a one-block image: the session is active with one block to go, and
  the receive buffer holds bytes 1 to 16 as the block. 0x3B28 is their checksum.
\<close>

definition node_last_block :: node where
  "node_last_block =
     node0\<lparr>fwUpdateOngoing := True, fwBlock := 1, fwRetry := 6,
           fc := \<lparr>fwType = 1, fwVersion = 2, fwBlocks = 1, fwCrc = 0x3B28\<rparr>,
           msg := frame_fw_block\<lparr>mRequestAck := False,
                    mData := [1, 0, 2, 0, 0, 0,
                              1, 2, 3, 4, 5, 6, 7, 8, 9, 10, 11, 12, 13, 14, 15, 16]\<rparr>\<rparr>"

text \<open>
  A FIND_PARENT_RESPONSE for node 10 from a sender that is d hops from the gateway, and a
  node with five failed transmissions that looks for a parent and will be offered two
  responses, the second one asking for an ack that the radio fails to deliver.
\<close>

definition frame_fpr :: "u8 \<Rightarrow> u8 \<Rightarrow> MyMessage" where
  "frame_fpr sender d = msg0\<lparr>mLast := sender, mSender := sender, mDestination := 10,
       mCommand := C_INTERNAL, mType := I_FIND_PARENT_RESPONSE, mPayloadType := P_BYTE,
       mLength := 1, mData := [d]\<rparr>"

definition node_c5 :: node where
  "node_c5 = node0\<lparr>parentNodeId := AUTO, distance := DISTANCE_INVALID, failedTransmissions := 5,
       radio_rx := [Some (10, frame_fpr 5 0), Some (10, (frame_fpr 6 3)\<lparr>mRequestAck := True\<rparr>)],
       radio_tx_ok := [False], ticks := [2000]\<rparr>"

definition node_searching :: node where
  "node_searching = node0\<lparr>parentNodeId := AUTO, distance := DISTANCE_INVALID,
       radio_rx := map Some [(10, frame_fpr 5 3), (10, frame_fpr 6 1), (10, frame_fpr 7 1)]\<rparr>"

text \<open>
  A node that signs what it sends to the gateway, with a SET message of its own ready to go.
\<close>

definition node_signing :: node where
  "node_signing = node0\<lparr>doSign := (\<lambda>a. a = GATEWAY_ADDRESS),
                        msgCaller := msg0\<lparr>mSender := 10, mCommand := C_SET, mSigned := True\<rparr>\<rparr>"

text \<open>A node whose caller hands over a SET message of its own with the signed flag set.\<close>

definition node_c10 :: node where
  "node_c10 = node0\<lparr>msgCaller := msg0\<lparr>mSender := 10, mCommand := C_SET, mSigned := True\<rparr>\<rparr>"

text \<open>
  A node without a parent; an ack request is on its way and the clock jumps past the two
  seconds of a parent search at its third reading.
\<close>

definition node_c8 :: node where
  "node_c8 = node0\<lparr>parentNodeId := AUTO, failedTransmissions := 3, ticks := [0, 2000],
                    radio_rx := [Some (10, frame_set\<lparr>mRequestAck := True\<rparr>)]\<rparr>"

text \<open>
  The same node with a clock that jumps by the whole timeout after the first reading and
  stands still at the second: the wait ends at once and the call leaves by the sign-fail
  exit of lines 441 to 445.
\<close>

definition node_sign_fail :: node where
  "node_sign_fail = node_signing\<lparr>ticks := [5000, 0]\<rparr>"

text \<open>
  A repeater without a parent: a frame from node 20, heard through node 15, asks for an
  ack; a second frame from node 20, heard through node 16, is already waiting, and the clock
  jumps past the two seconds of a parent search at its third reading.
\<close>

definition node_reentry :: node where
  "node_reentry = node0\<lparr>parentNodeId := AUTO, ticks := [0, 2000],
                         radio_rx := [Some (10, frame_set\<lparr>mLast := 15, mRequestAck := True\<rparr>),
                                      Some (10, frame_set\<lparr>mLast := 16\<rparr>)]\<rparr>"

lemmas concrete_defs = cfg0_def cfg_signing_def cfg_ota_def cfg_repeater_def msg0_def fc0_def
    node0_def frame_set_def node_ota_def

section \<open>Properties\<close>

subsection \<open>transportSendWrite\<close>

text \<open>
  C7, as the spec states it, fails: an unsigned message whose 5-bit length field holds 31
  goes to the radio driver with an on-wire length of 32, not of HEADER_SIZE + 31 = 38.
\<close>

theorem C7_unsigned_length_counterexample:
  "\<not> mSigned (msg0\<lparr>mLength := 31\<rparr>) \<and>
   trace (snd (transportSendWrite 1 Ref_msg (node0\<lparr>msg := msg0\<lparr>mLength := 31\<rparr>\<rparr>)))
     = [Ev_BlinkTx, Ev_Tx 1 (msg0\<lparr>mLength := 31, mLast := 10\<rparr>) 32] \<and>
   HEADER_SIZE + unat (mLength (msg0\<lparr>mLength := 31\<rparr>)) = 38"
  by (simp add: transportSendWrite_def transportSend_def emit_def node0_def msg0_def Let_def)

text \<open>
  C7, amended: for every message and next-hop address, transportSendWrite stamps the
  protocol version into the message, sets its last field to this node's id, passes to the
  radio driver the stamped message with an on-wire length of MAX_MESSAGE_LENGTH when the
  signed flag is set and of min MAX_MESSAGE_LENGTH (HEADER_SIZE + payload_length) when it
  is not, and returns exactly the driver's success flag.
\<close>

theorem C7_transportSendWrite:
  "fst (transportSendWrite to r s) = (case radio_tx_ok s of [] \<Rightarrow> True | b # bs \<Rightarrow> b) \<and>
   get_msg r (snd (transportSendWrite to r s))
     = (get_msg r s)\<lparr>mVersion := PROTOCOL_VERSION, mLast := nodeId s\<rparr> \<and>
   trace (snd (transportSendWrite to r s))
     = trace s @ [Ev_BlinkTx,
                  Ev_Tx to ((get_msg r s)\<lparr>mVersion := PROTOCOL_VERSION, mLast := nodeId s\<rparr>)
                    (if mSigned (get_msg r s) then MAX_MESSAGE_LENGTH
                     else min MAX_MESSAGE_LENGTH (HEADER_SIZE + unat (mLength (get_msg r s))))]"
  by (cases r; cases "radio_tx_ok s")
     (simp_all add: transportSendWrite_def transportSend_def emit_def Let_def)

theorem C7_transportSendWrite_witness:
  "fst (transportSendWrite 1 Ref_msg (node0\<lparr>radio_tx_ok := [False]\<rparr>)) = False \<and>
   mLast (msg (snd (transportSendWrite 1 Ref_msg (node0\<lparr>radio_tx_ok := [False]\<rparr>)))) = 10 \<and>
   trace (snd (transportSendWrite 1 Ref_msg (node0\<lparr>radio_tx_ok := [False]\<rparr>)))
     = [Ev_BlinkTx, Ev_Tx 1 (msg0\<lparr>mLast := 10\<rparr>) 7]"
  using C7_transportSendWrite [of 1 Ref_msg "node0\<lparr>radio_tx_ok := [False]\<rparr>"]
  by (simp add: node0_def msg0_def Let_def)

subsection \<open>transportProcess: no frame pending\<close>

text \<open>
  C3, as the spec states it, fails: when the radio has no frame, the call returns at line
  70, before the signing timer tick of line 74. In a signing build with nothing pending
  the call changes nothing and observes no tick.
\<close>

theorem C3_no_timer_tick_counterexample:
  "fst (transportAvailable node0) = None \<and>
   transportProcess (Suc 0) cfg_signing node0 = Ret () node0 \<and>
   Ev_SignerCheckTimer \<notin> set (trace node0)"
  by (simp add: concrete_defs transportAvailable_def process_idle_def)

text \<open>
  C3, amended: for every invocation of transportProcess in which the radio reports no
  frame available, the call runs the OTA idle branch and then returns without reading a
  frame: without the OTA feature nothing happens; with it the clock is read, and when a
  session is active and the retry delay has elapsed, either the session is given up with
  an error blink (no retry left) or the retry counter is decremented, the request time is
  set to now and a FIRMWARE_REQUEST for block next_block - 1 is handed to the sender.
  The signing timer tick is not part of this path.
\<close>

theorem C3_idle_branch:
  assumes "fst (transportAvailable s) = None"
  shows "transportProcess (Suc n) c s =
     (let s0 = snd (transportAvailable s) in
      if \<not> MY_OTA_FIRMWARE_FEATURE c then Ret () s0
      else
        (let enter = fst (hwMillis s0); s1 = snd (hwMillis s0) in
         if \<not> (fwUpdateOngoing s1 \<and> MY_OTA_RETRY_DELAY c < enter - fwLastRequestTime s1)
         then Ret () s1
         else if fwRetry s1 = 0 then Ret () (emit Ev_BlinkErr (s1\<lparr>fwUpdateOngoing := False\<rparr>))
         else obind (transportSendRoute n (transportProcess n c) c Ref_msg
                       (s1\<lparr>fwRetry := fwRetry s1 - 1, fwLastRequestTime := enter,
                           msg := build ((msg s1)\<lparr>mLength := 6,
                                     mData := put_bytes 0
                                       (le16 (fwType (fc s1)) @ le16 (fwVersion (fc s1)) @
                                        le16 (fwBlock s1 - 1)) (mData (msg s1))\<rparr>)
                                    (nodeId s1) GATEWAY_ADDRESS NODE_SENSOR_ID C_STREAM
                                    ST_FIRMWARE_REQUEST False\<rparr>))
                    (\<lambda>ok s2. Ret () s2)))"
  using assms
  by (cases "transportAvailable s")
     (simp add: process_idle_def request_fw_block_def Let_def split: prod.split)

theorem C3_idle_branch_witness:
  "fst (transportAvailable node_ota) = None \<and>
   map_option trace (final_state (transportProcess (Suc (Suc (Suc 0))) cfg_ota node_ota))
     = Some [Ev_BlinkTx,
             Ev_Tx 1 (msg0\<lparr>mLast := 10, mSender := 10, mDestination := 0, mSensor := 255,
                           mCommand := C_STREAM, mType := ST_FIRMWARE_REQUEST, mLength := 6,
                           mData := [1, 0, 2, 0, 2, 0]\<rparr>) 13]"
  using C3_idle_branch [of node_ota "Suc (Suc 0)" cfg_ota]
  by (simp add: concrete_defs model_defs Let_def cong: eval_congs)

subsection \<open>transportProcess: the order of the inbound checks\<close>

text \<open>
  C2, as the spec states it, fails: the signing check of lines 87 to 113 comes before the
  version check of line 131. A signed frame with a wrong protocol version, addressed to a
  node that requires signatures, is handed to the signature verifier and rejected there.
\<close>

theorem C2_verifier_invoked_counterexample:
  "mVersion (frame_set\<lparr>mVersion := 1, mSigned := True\<rparr>) \<noteq> PROTOCOL_VERSION \<and>
   map_option trace (final_state (transportProcess (Suc 0) cfg_signing
      (node0\<lparr>radio_rx := [Some (10, frame_set\<lparr>mVersion := 1, mSigned := True\<rparr>)],
             signer_ok := [False]\<rparr>)))
     = Some [Ev_SignerCheckTimer, Ev_BlinkRx,
             Ev_SignerVerify (frame_set\<lparr>mVersion := 1, mSigned := True\<rparr>), Ev_BlinkErr]"
  by (simp add: concrete_defs model_defs Let_def cong: eval_congs)

lemma signer_answer_msg [simp]: "msg (snd (signer_answer e s)) = msg s"
  by (simp add: signer_answer_def emit_def split: list.split)

lemma emit_msg [simp]: "msg (emit e s) = msg s"
  by (simp add: emit_def)

lemma verify_inbound_eq:
  "verify_inbound c sd dst ty s =
     (if verification_required c sd dst ty s
      then if \<not> mSigned (msg s) then (False, emit Ev_BlinkErr s)
           else if \<not> fst (signer_answer (Ev_SignerVerify (msg s)) s)
                then (False, emit Ev_BlinkErr (snd (signer_answer (Ev_SignerVerify (msg s)) s)))
                else (True, snd (signer_answer (Ev_SignerVerify (msg s)) s))
      else (True, s))"
  by (simp add: verify_inbound_def Let_def case_prod_beta)

lemma verify_inbound_msg [simp]: "msg (snd (verify_inbound c sd dst ty s)) = msg s"
  by (simp add: verify_inbound_eq)

lemma verify_inbound_rejected:
  "\<not> fst (verify_inbound c sd dst ty s) \<Longrightarrow>
   snd (verify_inbound c sd dst ty s) =
     (if mSigned (msg s) then emit Ev_BlinkErr (snd (signer_answer (Ev_SignerVerify (msg s)) s))
      else emit Ev_BlinkErr s)"
  by (simp add: verify_inbound_eq split: if_split_asm)

lemma verify_inbound_accepted:
  "fst (verify_inbound c sd dst ty s) \<Longrightarrow>
   snd (verify_inbound c sd dst ty s) =
     (if verification_required c sd dst ty s
      then snd (signer_answer (Ev_SignerVerify (msg s)) s) else s)"
  by (simp add: verify_inbound_eq split: if_split_asm)

lemma verify_inbound_rejected_required:
  "\<not> fst (verify_inbound c sd dst ty s) \<Longrightarrow> verification_required c sd dst ty s"
  by (simp add: verify_inbound_eq split: if_split_asm)

lemma verify_inbound_accepted_signed:
  "fst (verify_inbound c sd dst ty s) \<Longrightarrow> verification_required c sd dst ty s \<Longrightarrow> mSigned (msg s)"
  by (simp add: verify_inbound_eq split: if_split_asm)

lemma process_frame_version_mismatch:
  assumes "mVersion frame \<noteq> PROTOCOL_VERSION"
  shows "process_frame n proc c to frame s =
     (let s1 = (if MY_SIGNING_FEATURE c then emit Ev_SignerCheckTimer s else s);
          s2 = emit Ev_BlinkRx (s1\<lparr>msg := frame\<rparr>)
      in if verification_required c (mSender frame) (mDestination frame) (mType frame) s2 \<and>
            mSigned frame
         then Ret () (emit Ev_BlinkErr (snd (signer_answer (Ev_SignerVerify frame) s2)))
         else Ret () (emit Ev_BlinkErr s2))"
proof -
  define s1 where "s1 = (if MY_SIGNING_FEATURE c then emit Ev_SignerCheckTimer s else s)"
  define s2 where "s2 = emit Ev_BlinkRx (s1\<lparr>msg := frame\<rparr>)"
  define v where "v = verify_inbound c (mSender frame) (mDestination frame) (mType frame) s2"
  have m2: "msg s2 = frame" by (simp add: s2_def)
  have pf: "process_frame n proc c to frame s =
      (if \<not> fst v then Ret () (snd v) else Ret () (emit Ev_BlinkErr (snd v)))"
  proof -
    have m3: "msg (snd v) = frame" by (simp add: v_def m2)
    show ?thesis
      unfolding process_frame_def Let_def case_prod_beta s1_def [symmetric]
      unfolding s2_def [symmetric] m2
      unfolding v_def [symmetric] m3
      using assms by simp
  qed
  show ?thesis
  proof (cases "fst v")
    case True
    then show ?thesis
      using verify_inbound_accepted [of c "mSender frame" "mDestination frame" "mType frame" s2]
            verify_inbound_accepted_signed [of c "mSender frame" "mDestination frame" "mType frame" s2]
      by (simp add: pf Let_def s1_def [symmetric] s2_def [symmetric] v_def [symmetric] m2)
  next
    case False
    then show ?thesis
      using verify_inbound_rejected [of c "mSender frame" "mDestination frame" "mType frame" s2]
            verify_inbound_rejected_required [of c "mSender frame" "mDestination frame" "mType frame" s2]
      by (simp add: pf Let_def s1_def [symmetric] s2_def [symmetric] v_def [symmetric] m2)
  qed
qed

text \<open>
  C2, amended: in transportProcess the inbound signing check is performed before the
  protocol-version check. A received frame whose version field differs from
  PROTOCOL_VERSION is always dropped with exactly one error blink, and nothing but the
  receive buffer (and the signer) is touched; the signature verifier is invoked exactly
  when the frame is subject to inbound verification and carries the signed flag, and a
  frame subject to verification that is unsigned or fails verification is rejected by the
  signing check.
\<close>

theorem C2_version_mismatch_dropped:
  assumes "radio_rx s = Some (to, frame) # rest" and "mVersion frame \<noteq> PROTOCOL_VERSION"
  shows "transportProcess (Suc n) c s =
     (let s0 = s\<lparr>radio_rx := rest\<rparr>;
          s1 = (if MY_SIGNING_FEATURE c then emit Ev_SignerCheckTimer s0 else s0);
          s2 = emit Ev_BlinkRx (s1\<lparr>msg := frame\<rparr>)
      in if verification_required c (mSender frame) (mDestination frame) (mType frame) s2 \<and>
            mSigned frame
         then Ret () (emit Ev_BlinkErr (snd (signer_answer (Ev_SignerVerify frame) s2)))
         else Ret () (emit Ev_BlinkErr s2))"
  using assms process_frame_version_mismatch [of frame n "transportProcess n c" c to "s\<lparr>radio_rx := rest\<rparr>"]
  by (simp add: transportAvailable_def Let_def)

theorem C2_version_mismatch_dropped_witness:
  "radio_rx (node0\<lparr>radio_rx := [Some (10, frame_set\<lparr>mVersion := 1\<rparr>)]\<rparr>)
     = Some (10, frame_set\<lparr>mVersion := 1\<rparr>) # [] \<and>
   mVersion (frame_set\<lparr>mVersion := 1\<rparr>) \<noteq> PROTOCOL_VERSION \<and>
   transportProcess (Suc 0) cfg0 (node0\<lparr>radio_rx := [Some (10, frame_set\<lparr>mVersion := 1\<rparr>)]\<rparr>)
     = Ret () (node0\<lparr>msg := frame_set\<lparr>mVersion := 1\<rparr>, trace := [Ev_BlinkRx, Ev_BlinkErr]\<rparr>)"
  using C2_version_mismatch_dropped
          [of "node0\<lparr>radio_rx := [Some (10, frame_set\<lparr>mVersion := 1\<rparr>)]\<rparr>" 10
              "frame_set\<lparr>mVersion := 1\<rparr>" "[]" 0 cfg0]
  by (simp add: concrete_defs verification_required_def emit_def Let_def)

subsection \<open>Facts about the receive path\<close>

lemma frame_received_msg [simp]: "msg (snd (frame_received c frame s)) = frame"
  by (simp add: frame_received_def)

lemma frame_received_fields [simp]:
  "nodeId (snd (frame_received c frame s)) = nodeId s"
  "parentNodeId (snd (frame_received c frame s)) = parentNodeId s"
  "distance (snd (frame_received c frame s)) = distance s"
  "autoFindParent (snd (frame_received c frame s)) = autoFindParent s"
  "routes (snd (frame_received c frame s)) = routes s"
  "flash (snd (frame_received c frame s)) = flash s"
  "fc (snd (frame_received c frame s)) = fc s"
  "ee_fc (snd (frame_received c frame s)) = ee_fc s"
  "fwUpdateOngoing (snd (frame_received c frame s)) = fwUpdateOngoing s"
  "fwBlock (snd (frame_received c frame s)) = fwBlock s"
  "fwRetry (snd (frame_received c frame s)) = fwRetry s"
  "fwLastRequestTime (snd (frame_received c frame s)) = fwLastRequestTime s"
  "ee_parentNodeId (snd (frame_received c frame s)) = ee_parentNodeId s"
  "ee_distance (snd (frame_received c frame s)) = ee_distance s"
  by (simp_all add: frame_received_def verify_inbound_eq signer_answer_def emit_def
        split: list.split)

lemma frame_received_flash_events [simp]:
  "filter is_flash_event (trace (snd (frame_received c frame s))) = filter is_flash_event (trace s)"
  by (simp add: frame_received_def verify_inbound_eq signer_answer_def emit_def is_flash_event_def
        split: list.split)

lemma process_frame_eq:
  "process_frame n proc c to frame s =
     (let v = frame_received c frame s; s3 = snd v in
      if \<not> fst v then Ret () s3
      else if mVersion frame \<noteq> PROTOCOL_VERSION then Ret () (emit Ev_BlinkErr s3)
      else if mDestination frame = nodeId s then
        (let s5 = route_learned c s3 in
         if mRequestAck frame then
           obind (transportSendRoute n proc c Ref_msgTmp
                    (s5\<lparr>msgTmp := (msg s5)\<lparr>mRequestAck := False, mAck := True,
                                             mSender := nodeId s5,
                                             mDestination := mSender frame\<rparr>\<rparr>))
                 (\<lambda>ok s6. process_local n proc c (mCommand frame) (mType frame) (mSender frame) s6)
         else process_local n proc c (mCommand frame) (mType frame) (mSender frame) s5)
      else process_relay n proc c to (mCommand frame) (mType frame) (mSender frame) (mLast frame)
             (mDestination frame) s3)"
proof -
  define s2 where "s2 = emit Ev_BlinkRx
      ((if MY_SIGNING_FEATURE c then emit Ev_SignerCheckTimer s else s)\<lparr>msg := frame\<rparr>)"
  define v where "v = verify_inbound c (mSender frame) (mDestination frame) (mType frame) s2"
  have m2: "msg s2 = frame" by (simp add: s2_def)
  have m3: "msg (snd v) = frame" by (simp add: v_def m2)
  have fr: "frame_received c frame s = v" by (simp add: frame_received_def v_def s2_def)
  have n3: "nodeId (snd v) = nodeId s"
    using frame_received_fields(1) [of c frame s] by (simp add: fr)
  show ?thesis
    unfolding process_frame_def Let_def case_prod_beta fr
    unfolding s2_def [symmetric] m2
    unfolding v_def [symmetric] m3 n3
    by (simp add: route_learned_def m3)
qed

lemma process_local_fw_response:
  "process_local n proc c C_STREAM ST_FIRMWARE_RESPONSE sender s =
     (if MY_OTA_FIRMWARE_FEATURE c then fw_response c s else Ret () (deliver c s))"
  by (simp add: process_local_def)

lemma route_learned_fields [simp]:
  "flash (route_learned c s) = flash s"
  "trace (route_learned c s) = trace s"
  "fc (route_learned c s) = fc s"
  "ee_fc (route_learned c s) = ee_fc s"
  "fwUpdateOngoing (route_learned c s) = fwUpdateOngoing s"
  "fwBlock (route_learned c s) = fwBlock s"
  "fwRetry (route_learned c s) = fwRetry s"
  "fwLastRequestTime (route_learned c s) = fwLastRequestTime s"
  "nodeId (route_learned c s) = nodeId s"
  "parentNodeId (route_learned c s) = parentNodeId s"
  "distance (route_learned c s) = distance s"
  "autoFindParent (route_learned c s) = autoFindParent s"
  "ee_parentNodeId (route_learned c s) = ee_parentNodeId s"
  "ee_distance (route_learned c s) = ee_distance s"
  by (simp_all add: route_learned_def)

lemma deliver_fields [simp]:
  "flash (deliver c s) = flash s"
  "fc (deliver c s) = fc s"
  "ee_fc (deliver c s) = ee_fc s"
  "fwUpdateOngoing (deliver c s) = fwUpdateOngoing s"
  "fwBlock (deliver c s) = fwBlock s"
  "fwRetry (deliver c s) = fwRetry s"
  "fwLastRequestTime (deliver c s) = fwLastRequestTime s"
  "routes (deliver c s) = routes s"
  "filter is_flash_event (trace (deliver c s)) = filter is_flash_event (trace s)"
  by (simp_all add: deliver_def emit_def Let_def is_flash_event_def)

lemma emit_fields [simp]:
  "flash (emit e s) = flash s"
  "fc (emit e s) = fc s"
  "ee_fc (emit e s) = ee_fc s"
  "fwUpdateOngoing (emit e s) = fwUpdateOngoing s"
  "fwBlock (emit e s) = fwBlock s"
  "fwRetry (emit e s) = fwRetry s"
  "fwLastRequestTime (emit e s) = fwLastRequestTime s"
  "routes (emit e s) = routes s"
  "trace (emit e s) = trace s @ [e]"
  by (simp_all add: emit_def)

subsection \<open>transportProcess: a firmware block outside a session\<close>

text \<open>
  C9, as stated, fails: the ack reply is sent before the dispatch, and sending re-enters
  the processing loop when it has to look for a parent. A firmware block that asks for an
  ack reaches a node without a parent and without a session; while the node waits for
  FIND_PARENT replies the nested processing loop takes a new firmware configuration and
  opens a session; back in the outer call the block branch finds a session active and
  writes 16 bytes of the receive buffer (by now the configuration frame) to flash.
\<close>

theorem C9_reentrant_session_counterexample:
  "radio_rx node_c9 = Some (10, frame_fw_block) # [Some (10, frame_fw_config)] \<and>
   mCommand frame_fw_block = C_STREAM \<and> mType frame_fw_block = ST_FIRMWARE_RESPONSE \<and>
   mDestination frame_fw_block = nodeId node_c9 \<and> \<not> fwUpdateOngoing node_c9 \<and>
   map_option fwUpdateOngoing
     (final_state (transportProcess (Suc (Suc (Suc (Suc 0)))) cfg_ota node_c9)) = Some True \<and>
   map_option fwBlock
     (final_state (transportProcess (Suc (Suc (Suc (Suc 0)))) cfg_ota node_c9)) = Some 2 \<and>
   map_option (filter is_flash_event)
     (map_option trace
        (final_state (transportProcess (Suc (Suc (Suc (Suc 0)))) cfg_ota node_c9)))
     = Some [Ev_FlashErase32K, Ev_FlashWrite 42 [0, 0, 0, 0, 0, 0, 0, 0, 0, 0, 0, 0, 0, 0, 0, 0]]"
proof -
  have "\<exists>s'. final_state (transportProcess (Suc (Suc (Suc (Suc 0)))) cfg_ota node_c9) = Some s' \<and>
          fwUpdateOngoing s' \<and> fwBlock s' = 2 \<and>
          filter is_flash_event (trace s')
            = [Ev_FlashErase32K, Ev_FlashWrite 42 [0, 0, 0, 0, 0, 0, 0, 0, 0, 0, 0, 0, 0, 0, 0, 0]]"
    by (simp add: scenario_defs concrete_defs model_defs is_flash_event_def Let_def upt_rec
          cong: eval_congs)
  then show ?thesis
    by (auto simp: scenario_defs concrete_defs)
qed

text \<open>
  C9, amended: for every received STREAM/FIRMWARE_RESPONSE frame addressed to this node
  that does not request an ack, while no OTA session is active, transportProcess returns,
  writes nothing to flash and leaves the firmware session state (active flag, next block,
  retry counter, last request time), the firmware config and the stored firmware config
  unchanged.
\<close>

theorem C9_no_session:
  assumes rx: "radio_rx s = Some (to, frame) # rest"
      and cmd: "mCommand frame = C_STREAM" and ty: "mType frame = ST_FIRMWARE_RESPONSE"
      and dst: "mDestination frame = nodeId s"
      and idle: "\<not> fwUpdateOngoing s" and noack: "\<not> mRequestAck frame"
  shows "\<exists>s'. transportProcess (Suc n) c s = Ret () s' \<and>
           flash s' = flash s \<and>
           filter is_flash_event (trace s') = filter is_flash_event (trace s) \<and>
           fwUpdateOngoing s' = fwUpdateOngoing s \<and> fwBlock s' = fwBlock s \<and>
           fwRetry s' = fwRetry s \<and> fwLastRequestTime s' = fwLastRequestTime s \<and>
           fc s' = fc s \<and> ee_fc s' = ee_fc s"
proof -
  define s0 where "s0 = s\<lparr>radio_rx := rest\<rparr>"
  have tp: "transportProcess (Suc n) c s = process_frame n (transportProcess n c) c to frame s0"
    using rx by (simp add: transportAvailable_def s0_def)
  have s0_fields: "flash s0 = flash s" "trace s0 = trace s" "fwUpdateOngoing s0 = fwUpdateOngoing s"
      "fwBlock s0 = fwBlock s" "fwRetry s0 = fwRetry s" "fwLastRequestTime s0 = fwLastRequestTime s"
      "fc s0 = fc s" "ee_fc s0 = ee_fc s" "nodeId s0 = nodeId s"
    by (simp_all add: s0_def)
  show ?thesis
    unfolding tp process_frame_eq Let_def
    using cmd ty dst idle noack
    by (simp add: s0_fields process_local_fw_response fw_response_def is_flash_event_def)
qed

theorem C9_no_session_witness:
  "radio_rx (node0\<lparr>radio_rx := [Some (10, frame_fw_block\<lparr>mRequestAck := False\<rparr>)]\<rparr>)
     = Some (10, frame_fw_block\<lparr>mRequestAck := False\<rparr>) # [] \<and>
   mCommand (frame_fw_block\<lparr>mRequestAck := False\<rparr>) = C_STREAM \<and>
   mType (frame_fw_block\<lparr>mRequestAck := False\<rparr>) = ST_FIRMWARE_RESPONSE \<and>
   mDestination (frame_fw_block\<lparr>mRequestAck := False\<rparr>)
     = nodeId (node0\<lparr>radio_rx := [Some (10, frame_fw_block\<lparr>mRequestAck := False\<rparr>)]\<rparr>) \<and>
   \<not> fwUpdateOngoing (node0\<lparr>radio_rx := [Some (10, frame_fw_block\<lparr>mRequestAck := False\<rparr>)]\<rparr>) \<and>
   \<not> mRequestAck (frame_fw_block\<lparr>mRequestAck := False\<rparr>) \<and>
   transportProcess (Suc (Suc 0)) cfg_ota
       (node0\<lparr>radio_rx := [Some (10, frame_fw_block\<lparr>mRequestAck := False\<rparr>)]\<rparr>)
     = Ret () (node0\<lparr>msg := frame_fw_block\<lparr>mRequestAck := False\<rparr>, trace := [Ev_BlinkRx]\<rparr>)"
  using C9_no_session
          [of "node0\<lparr>radio_rx := [Some (10, frame_fw_block\<lparr>mRequestAck := False\<rparr>)]\<rparr>" 10
              "frame_fw_block\<lparr>mRequestAck := False\<rparr>" "[]" "Suc 0" cfg_ota]
  by (simp add: scenario_defs concrete_defs model_defs Let_def cong: eval_congs)

subsection \<open>Routing entries and the message dispatch\<close>

lemma signer_answer_routes [simp]: "routes (snd (signer_answer e s)) = routes s"
  by (simp add: signer_answer_def emit_def split: list.split)

lemma find_parent_response_routes [simp]: "routes (find_parent_response sender s) = routes s"
  by (simp add: find_parent_response_def Let_def)

lemma request_signing_update_routes [simp]: "routes (request_signing_update sender s) = routes s"
  by (simp add: request_signing_update_def Let_def)

lemma fw_config_response_routes [simp]: "routes (snd (fw_config_response c s)) = routes s"
  by (simp add: fw_config_response_def flash_blockErase32K_def emit_def Let_def)

lemma fw_response_routes:
  "final_state (fw_response c s) = Some s' \<Longrightarrow> routes s' = routes s"
  by (auto simp: fw_response_def flash_writeBytes_def emit_def Let_def split: if_split_asm)

lemma process_local_routes:
  assumes "\<not> (command = C_INTERNAL \<and>
              ((MY_SIGNING_FEATURE c \<and> type = I_GET_NONCE) \<or>
               (MY_SIGNING_FEATURE c \<and> MY_GATEWAY_FEATURE c \<and> type = I_REQUEST_SIGNING) \<or>
               (type = I_ID_RESPONSE \<and> sender = GATEWAY_ADDRESS \<and> nodeId s = AUTO)))"
      and "final_state (process_local n proc c command type sender s) = Some s'"
  shows "routes s' = routes s"
proof (cases "command = C_INTERNAL")
  case True
  show ?thesis
  proof (cases "type = I_FIND_PARENT_RESPONSE")
    case True
    with \<open>command = C_INTERNAL\<close> assms(2) show ?thesis
      by (auto simp: process_local_def)
  next
    case nfp: False
    show ?thesis
    proof (cases "MY_SIGNING_FEATURE c \<and> type = I_REQUEST_SIGNING")
      case True
      with \<open>command = C_INTERNAL\<close> nfp assms show ?thesis
        by (auto simp: process_local_def Let_def)
    next
      case nrs: False
      show ?thesis
      proof (cases "MY_SIGNING_FEATURE c \<and> type = I_GET_NONCE_RESPONSE")
        case True
        with \<open>command = C_INTERNAL\<close> nfp nrs assms(2) show ?thesis
          by (auto simp: process_local_def Let_def case_prod_beta split: if_split_asm)
      next
        case False
        with \<open>command = C_INTERNAL\<close> nfp nrs assms show ?thesis
          by (auto simp: process_local_def Let_def split: if_split_asm)
      qed
    qed
  qed
next
  case False
  with assms(2) show ?thesis
    by (auto simp: process_local_def Let_def case_prod_beta fw_response_routes
             split: if_split_asm)
qed

subsection \<open>The last block of a firmware download\<close>

lemma crc_bit_spec: "crc_bit = crc16_shift"
  by (rule ext) (simp add: crc_bit_def crc16_shift_def and_one_eq mod_2_eq_odd bit_0)

lemma u16_mult16_bound: "unat ((b :: u16) * 16) \<le> 65520"
proof -
  have "unat (b * 16) = (unat b * 16) mod 65536" by (simp add: unat_word_ariths)
  also have "\<dots> = 16 * (unat b mod 4096)"
    using mult_mod_right [of 16 "unat b" 4096] by (simp add: mult.commute)
  also have "\<dots> \<le> 16 * 4095"
    by (rule mult_le_mono2) (simp add: Suc_leI [of "unat b mod 4096" 4096, simplified] less_Suc_eq_le [symmetric])
  finally show ?thesis by simp
qed

lemma fw_crc_loop_fold:
  assumes "unat bound \<le> 65520" and "i \<le> bound"
  shows "fw_crc_loop fl bound i crc =
           foldl crc_update crc (map fl [unat i + 10 ..< unat bound + 10])"
  using assms
proof (induction fl bound i crc rule: fw_crc_loop.induct)
  case (1 fl bound i crc)
  show ?case
  proof (cases "i < bound")
    case True
    then have lt: "unat i < unat bound" by (simp add: word_less_nat_alt)
    with "1.prems"(1) have i1: "unat (i + 1) = unat i + 1" and i10: "unat (i + 10) = unat i + 10"
      by (simp_all add: unat_word_ariths)
    from lt i1 have le: "i + 1 \<le> bound" by (simp add: word_le_nat_alt)
    have up: "[unat i + 10 ..< unat bound + 10]
                = (unat i + 10) # [unat (i + 1) + 10 ..< unat bound + 10]"
      using lt by (simp add: upt_rec i1)
    have "fw_crc_loop fl bound i crc =
            fw_crc_loop fl bound (i + 1) (crc_update crc (fl (unat (i + 10))))"
      using True by (subst fw_crc_loop.simps) simp
    also have "\<dots> = foldl crc_update (crc_update crc (fl (unat (i + 10))))
                        (map fl [unat (i + 1) + 10 ..< unat bound + 10])"
      using "1.IH" [OF True "1.prems"(1) le] .
    finally show ?thesis by (simp only: up i10 list.map foldl.simps)
  next
    case False
    with "1.prems"(2) have "i = bound" by simp
    then show ?thesis by (subst fw_crc_loop.simps) simp
  qed
qed

lemma transportIsValidFirmware_spec:
  "transportIsValidFirmware s =
     (crc16_spec (map (flash s) [unat FIRMWARE_START_OFFSET ..<
                                 unat FIRMWARE_START_OFFSET + unat (fwBlocks (fc s) * FIRMWARE_BLOCK_SIZE)])
      = fwCrc (fc s))"
proof -
  have loop: "fw_crc_loop (flash s) (fwBlocks (fc s) * 16) 0 (- 1) =
          foldl crc_update (- 1) (map (flash s) [10 ..< 10 + unat (fwBlocks (fc s) * 16)])"
    using fw_crc_loop_fold [of "fwBlocks (fc s) * 16" 0 "flash s" "- 1"]
    by (simp add: u16_mult16_bound add.commute)
  have cu: "crc_update = (\<lambda>crc b. (crc16_shift ^^ 8) (crc XOR ucast b))"
    by (intro ext) (simp add: crc_update_def crc_bit_spec)
  have m1: "(0xFFFF :: u16) = - 1"
    by (simp add: word_unat_eq_iff unsigned_minus_1_eq_mask mask_eq_exp_minus_1)
  have spec: "crc16_spec bs = foldl crc_update (- 1) bs" for bs
    by (simp add: crc16_spec_def cu m1)
  show ?thesis
    by (simp add: transportIsValidFirmware_def loop spec)
qed


lemma low_byte: "ucast ((w :: u16) AND 0xff) = (ucast w :: u8)"
proof -
  have m8: "(0xff :: u16) = mask 8" by (simp add: mask_eq_exp_minus_1)
  show ?thesis unfolding m8 by (rule bit_word_eqI) (simp add: bit_simps)
qed

lemma staging_header_bytes:
  "staging_header sz =
     [0x46, 0x4C, 0x58, 0x49, 0x4D, 0x47, 0x3A, ucast (drop_bit 8 sz), ucast (sz AND 0xff), 0x3A]"
  by (simp add: staging_header_def low_byte)

lemma flash_writeBytes_fields [simp]:
  "fc (flash_writeBytes a bs s) = fc s"
  "fwBlock (flash_writeBytes a bs s) = fwBlock s"
  "fwUpdateOngoing (flash_writeBytes a bs s) = fwUpdateOngoing s"
  "ee_fc (flash_writeBytes a bs s) = ee_fc s"
  by (simp_all add: flash_writeBytes_def emit_def)

text \<open>
  C6: when the last block of an OTA session is written (the session is active and
  next_block is 1, so it reaches 0), the block goes to flash at START_OFFSET, the
  session is closed, and the CRC-16 (polynomial 0xA001, initial 0xFFFF, no final xor) of
  the blocks * BLOCK_SIZE flash bytes from START_OFFSET on is compared with the config
  CRC. If they are equal, the header FLXIMG:, size high byte, size low byte, colon (size
  = blocks * BLOCK_SIZE) is written at flash offset 0, the firmware config is persisted
  and the node reboots; if not, the call returns with the session closed, and there is no
  header write, no persisted config and no reboot. The products are those of the source,
  in 16 bits.
\<close>

theorem C6_last_block:
  assumes ota: "MY_OTA_FIRMWARE_FEATURE c" and active: "fwUpdateOngoing s"
      and lastb: "fwBlock s = 1"
  shows "process_local n proc c C_STREAM ST_FIRMWARE_RESPONSE sender s =
     (let s1 = flash_writeBytes (unat FIRMWARE_START_OFFSET) (reply_block_data (mData (msg s))) s;
          s2 = s1\<lparr>fwUpdateOngoing := False, fwBlock := 0\<rparr>;
          sz = fwBlocks (fc s) * FIRMWARE_BLOCK_SIZE
      in if crc16_spec (map (flash s2) [unat FIRMWARE_START_OFFSET ..<
                                        unat FIRMWARE_START_OFFSET + unat sz]) = fwCrc (fc s)
         then Reboot (emit (Ev_PersistFirmwareConfig (fc s))
                        ((flash_writeBytes 0 (staging_header sz) s2)\<lparr>ee_fc := fc s\<rparr>))
         else Ret () (s2\<lparr>fwRetry := MY_OTA_RETRY c + 1, fwLastRequestTime := 0\<rparr>))"
proof -
  define s1 where "s1 = flash_writeBytes (unat FIRMWARE_START_OFFSET) (reply_block_data (mData (msg s))) s"
  define s3 where "s3 = s1\<lparr>fwUpdateOngoing := False, fwBlock := 0\<rparr>"
  have addr: "unat ((fwBlock s - 1) * FIRMWARE_BLOCK_SIZE + FIRMWARE_START_OFFSET)
                = unat FIRMWARE_START_OFFSET"
    using lastb by simp
  have f1: "fc s1 = fc s" "fwBlock s1 = 1"
    using lastb by (simp_all add: s1_def)
  have f3: "fc s3 = fc s" by (simp add: s3_def f1)
  have s3': "s1\<lparr>fwBlock := fwBlock s1 - 1\<rparr>\<lparr>fwUpdateOngoing := False\<rparr> = s3"
    by (simp add: s3_def f1)
  have z3: "fwBlock (s1\<lparr>fwBlock := fwBlock s1 - 1\<rparr>) = 0" by (simp add: f1)
  have fr: "fw_response c s =
      (if transportIsValidFirmware s3
       then Reboot (emit (Ev_PersistFirmwareConfig (fc s))
                      ((flash_writeBytes 0 (staging_header (fwBlocks (fc s) * 16)) s3)\<lparr>ee_fc := fc s\<rparr>))
       else Ret () (s3\<lparr>fwRetry := MY_OTA_RETRY c + 1, fwLastRequestTime := 0\<rparr>))"
    unfolding fw_response_def Let_def addr s1_def [symmetric] z3 s3'
    using active by (simp add: f3 staging_header_bytes mult.commute)
  show ?thesis
    unfolding process_local_fw_response Let_def s1_def [symmetric] s3_def [symmetric]
    using ota by (simp add: fr transportIsValidFirmware_spec f3)
qed

lemma funpow8: "(f ^^ 8) x = f (f (f (f (f (f (f (f x)))))))"
  by (simp add: eval_nat_numeral)

lemma crc16_spec_1_to_16:
  "crc16_spec [1, 2, 3, 4, 5, 6, 7, 8, 9, 10, 11, 12, 13, 14, 15, 16] = 0x3B28"
  by (simp add: crc16_spec_def funpow8 crc16_shift_def)

theorem C6_last_block_witness:
  "MY_OTA_FIRMWARE_FEATURE cfg_ota \<and> fwUpdateOngoing node_last_block \<and>
   fwBlock node_last_block = 1 \<and>
   (\<exists>s'. process_local 0 (transportProcess 0 cfg_ota) cfg_ota C_STREAM ST_FIRMWARE_RESPONSE 0
            node_last_block = Reboot s' \<and>
         map (flash s') [0 ..< 26]
           = map of_char ''FLXIMG:'' @ [0, 16] @ map of_char '':'' @
             [1, 2, 3, 4, 5, 6, 7, 8, 9, 10, 11, 12, 13, 14, 15, 16] \<and>
         ee_fc s' = fc node_last_block \<and> \<not> fwUpdateOngoing s' \<and> fwBlock s' = 0 \<and>
         trace s' = [Ev_FlashWrite 10 [1, 2, 3, 4, 5, 6, 7, 8, 9, 10, 11, 12, 13, 14, 15, 16],
                     Ev_FlashWrite 0 (map of_char ''FLXIMG:'' @ [0, 16] @ map of_char '':''),
                     Ev_PersistFirmwareConfig (fc node_last_block)])"
proof -
  have hyps: "MY_OTA_FIRMWARE_FEATURE cfg_ota" "fwUpdateOngoing node_last_block"
      "fwBlock node_last_block = 1"
    by (simp_all add: node_last_block_def concrete_defs)
  have blk: "reply_block_data (mData (msg node_last_block))
               = [1, 2, 3, 4, 5, 6, 7, 8, 9, 10, 11, 12, 13, 14, 15, 16]"
    by (simp add: node_last_block_def reply_block_data_def data_at_def upt_rec)
  have img: "flash (flash_writeBytes 10 [1, 2, 3, 4, 5, 6, 7, 8, 9, 10, 11, 12, 13, 14, 15, 16]
                     node_last_block) a
               = (if 10 \<le> a \<and> a < 26
                  then [1, 2, 3, 4, 5, 6, 7, 8, 9, 10, 11, 12, 13, 14, 15, 16] ! (a - 10)
                  else 255)" for a
    by (simp add: flash_writeBytes_def emit_def node_last_block_def node0_def)
  have fcv: "fc node_last_block = \<lparr>fwType = 1, fwVersion = 2, fwBlocks = 1, fwCrc = 0x3B28\<rparr>"
    by (simp add: node_last_block_def concrete_defs)
  from C6_last_block [OF hyps, of 0 "transportProcess 0 cfg_ota" 0]
  have "process_local 0 (transportProcess 0 cfg_ota) cfg_ota C_STREAM ST_FIRMWARE_RESPONSE 0
          node_last_block
        = Reboot (emit (Ev_PersistFirmwareConfig (fc node_last_block))
            ((flash_writeBytes 0 (staging_header 16)
               (flash_writeBytes 10 [1, 2, 3, 4, 5, 6, 7, 8, 9, 10, 11, 12, 13, 14, 15, 16]
                  node_last_block\<lparr>fwUpdateOngoing := False, fwBlock := 0\<rparr>))
             \<lparr>ee_fc := fc node_last_block\<rparr>))"
    by (simp add: Let_def blk img fcv crc16_spec_1_to_16)
  then show ?thesis
    using hyps
    by (simp add: flash_writeBytes_def emit_def staging_header_def upt_rec
          node_last_block_def concrete_defs)
qed

subsection \<open>Parent discovery: the best response wins\<close>

lemma adopt_all_none: "\<forall>x \<in> set xs. \<not> fst x < D \<Longrightarrow> adopt_all D P xs = (D, P)"
  by (induction xs) auto

lemma adopt_all_fold: "fst (adopt_all D P xs) = fold min (map fst xs) D"
proof (induction xs arbitrary: D P)
  case Nil
  then show ?case by simp
next
  case (Cons x xs)
  obtain d p where x: "x = (d, p)" by (cases x)
  show ?case
  proof (cases "d < D")
    case True
    then have "min d D = d" by simp
    with True show ?thesis by (simp add: x Cons.IH)
  next
    case False
    then have "min d D = D" by simp
    with False show ?thesis by (simp add: x Cons.IH)
  qed
qed

lemma adopt_all_min: "fst (adopt_all D P xs) = Min (set (D # map fst xs))"
  by (simp only: adopt_all_fold Min.set_eq_fold)

lemma adopt_all_first:
  "xs \<noteq> [] \<Longrightarrow> Min (fst ` set xs) < D \<Longrightarrow>
   \<exists>p. find (\<lambda>x. fst x = Min (fst ` set xs)) xs = Some (Min (fst ` set xs), p) \<and>
       snd (adopt_all D P xs) = p"
proof (induction xs arbitrary: D P)
  case Nil
  then show ?case by simp
next
  case (Cons x xs)
  obtain d p where x: "x = (d, p)" by (cases x)
  show ?case
  proof (cases "xs = []")
    case True
    with Cons.prems show ?thesis by (simp add: x)
  next
    case ne: False
    define m' where "m' = Min (fst ` set xs)"
    have m: "Min (insert d (fst ` set xs)) = min d m'"
      using ne by (simp add: m'_def)
    show ?thesis
    proof (cases "m' < d")
      case True
      then have mm: "min d m' = m'" and dm: "d \<noteq> m'" by simp_all
      show ?thesis
      proof (cases "d < D")
        case dD: True
        from Cons.IH [OF ne, of d p] True
        obtain q where "find (\<lambda>x. fst x = m') xs = Some (m', q)" "snd (adopt_all d p xs) = q"
          by (auto simp: m'_def)
        with dD dm show ?thesis by (simp add: x m mm)
      next
        case dD: False
        from Cons.prems(2) have "m' < D" by (simp add: x m mm)
        from Cons.IH [OF ne, of D P] this
        obtain q where "find (\<lambda>x. fst x = m') xs = Some (m', q)" "snd (adopt_all D P xs) = q"
          by (auto simp: m'_def)
        with dD dm show ?thesis by (simp add: x m mm)
      qed
    next
      case False
      then have mm: "min d m' = d" by simp
      from Cons.prems(2) have dD: "d < D" by (simp add: x m mm)
      have "\<forall>y \<in> set xs. \<not> fst y < d"
      proof
        fix y assume "y \<in> set xs"
        then have "m' \<le> fst y" by (simp add: m'_def)
        with False show "\<not> fst y < d" by simp
      qed
      then have "adopt_all d p xs = (d, p)" by (rule adopt_all_none)
      with dD show ?thesis by (simp add: x m mm)
    qed
  qed
qed


lemma find_map_pair:
  "find (\<lambda>x. fst x = m) (map (\<lambda>f. (g f, h f)) xs)
     = map_option (\<lambda>f. (g f, h f)) (find (\<lambda>f. g f = m) xs)"
  by (induction xs) simp_all

lemma frame_received_more_fields [simp]:
  "radio_rx (snd (frame_received c frame s)) = radio_rx s"
  by (simp add: frame_received_def verify_inbound_eq signer_answer_def emit_def split: list.split)

lemma route_learned_more_fields [simp]:
  "radio_rx (route_learned c s) = radio_rx s"
  "msg (route_learned c s) = (msg s)\<lparr>mSigned := False\<rparr>"
  by (simp_all add: route_learned_def)

lemma frame_received_handshake:
  "mCommand frame = C_INTERNAL \<Longrightarrow> handshake_type (mType frame) \<Longrightarrow>
   fst (frame_received c frame s)"
  by (simp add: frame_received_def verify_inbound_eq verification_required_def)

lemma u8_le_255: "unat (d :: u8) \<le> 255"
  using unsigned_less [of d, where 'a = nat] by simp

lemma find_parent_response_eq:
  assumes "autoFindParent s"
  shows "find_parent_response sender s =
     (if offered_distance (msg s) < unat (distance s)
      then s\<lparr>distance := getByte (msg s) + 1, parentNodeId := sender,
             ee_parentNodeId := sender, ee_distance := getByte (msg s) + 1\<rparr>
      else s)"
proof -
  define d where "d = getByte (msg s)"
  have D: "unat (distance s) \<le> 255" by (rule u8_le_255)
  have dle: "unat d \<le> 255" by (rule u8_le_255)
  show ?thesis
  proof (cases "d = 255")
    case True
    then have "unat d = 255" by simp
    with D True assms show ?thesis
      by (simp add: find_parent_response_def isValidDistance_def offered_distance_def
            d_def [symmetric] Let_def)
  next
    case False
    then have "unat d \<noteq> 255" by (simp add: word_unat_eq_iff)
    with dle have lt: "unat d < 255" by simp
    then have u1: "unat (d + 1) = unat d + 1" by (simp add: unat_word_ariths)
    have v1: "d + 1 \<noteq> 255 \<longleftrightarrow> unat d + 1 \<noteq> 255"
      using u1 by (simp add: word_unat_eq_iff)
    have l1: "d + 1 < distance s \<longleftrightarrow> unat d + 1 < unat (distance s)"
      by (simp add: word_less_nat_alt u1)
    from D have "(d + 1 \<noteq> 255 \<and> d + 1 < distance s) \<longleftrightarrow> unat d + 1 < unat (distance s)"
      by (auto simp: v1 l1)
    with False assms show ?thesis
      by (simp add: find_parent_response_def isValidDistance_def offered_distance_def
            d_def [symmetric] Let_def)
  qed
qed

lemma process_find_parent_response:
  assumes rx: "radio_rx s = Some (to, f) # rest"
      and cmd: "mCommand f = C_INTERNAL" and ty: "mType f = I_FIND_PARENT_RESPONSE"
      and dst: "mDestination f = nodeId s" and noack: "\<not> mRequestAck f"
      and auto: "autoFindParent s"
  shows "\<exists>s1. transportProcess (Suc n) c s = Ret () s1 \<and> radio_rx s1 = rest \<and>
           nodeId s1 = nodeId s \<and> autoFindParent s1 \<and>
           (unat (distance s1), parentNodeId s1)
             = (if valid_response f \<and> offered_distance f < unat (distance s)
                then (offered_distance f, mSender f)
                else (unat (distance s), parentNodeId s))"
proof -
  define s0 where "s0 = s\<lparr>radio_rx := rest\<rparr>"
  define s5 where "s5 = route_learned c (snd (frame_received c f s0))"
  have tp: "transportProcess (Suc n) c s = process_frame n (transportProcess n c) c to f s0"
    using rx by (simp add: transportAvailable_def s0_def)
  have acc: "fst (frame_received c f s0)"
    using cmd ty by (simp add: frame_received_handshake handshake_type_def)
  have s0f: "nodeId s0 = nodeId s" "distance s0 = distance s" "parentNodeId s0 = parentNodeId s"
      "autoFindParent s0 = autoFindParent s" "radio_rx s0 = rest"
    by (simp_all add: s0_def)
  have s5f: "nodeId s5 = nodeId s" "distance s5 = distance s" "parentNodeId s5 = parentNodeId s"
      "autoFindParent s5" "radio_rx s5 = rest" "getByte (msg s5) = getByte f"
      "offered_distance (msg s5) = offered_distance f"
    using auto by (simp_all add: s5_def s0f getByte_def offered_distance_def)
  show ?thesis
  proof (cases "mVersion f = PROTOCOL_VERSION")
    case False
    then have "transportProcess (Suc n) c s = Ret () (emit Ev_BlinkErr (snd (frame_received c f s0)))"
      unfolding tp process_frame_eq Let_def using acc by simp
    moreover have "\<not> valid_response f" using False by (simp add: valid_response_def)
    ultimately show ?thesis
      using auto by (simp only: simp_thms if_False) (simp add: emit_def s0f)
  next
    case True
    have pl: "transportProcess (Suc n) c s = Ret () (find_parent_response (mSender f) s5)"
      unfolding tp process_frame_eq Let_def s5_def
      using acc True dst noack cmd ty by (simp add: s0f process_local_def)
    have D: "unat (distance s) \<le> 255" by (rule u8_le_255)
    show ?thesis
    proof (cases "offered_distance f < unat (distance s)")
      case lt: True
      with D have v: "offered_distance f < 255" by simp
      then have "unat (getByte f) < 255" by (simp add: offered_distance_def)
      then have "unat (getByte f + 1) = offered_distance f"
        by (simp add: unat_word_ariths offered_distance_def)
      with lt v True show ?thesis
        unfolding pl
        by (simp add: find_parent_response_eq s5f valid_response_def offered_distance_def)
    next
      case False
      then show ?thesis
        unfolding pl
        by (simp add: find_parent_response_eq s5f)
    qed
  qed
qed

lemma process_times_find_parent_responses:
  assumes "radio_rx s = map Some rxs"
      and "\<forall>x \<in> set rxs. mCommand (snd x) = C_INTERNAL \<and> mType (snd x) = I_FIND_PARENT_RESPONSE \<and>
                          mDestination (snd x) = nodeId s \<and> \<not> mRequestAck (snd x)"
      and "autoFindParent s"
  shows "\<exists>s'. process_times (length rxs) (Suc n) c s = Ret () s' \<and>
           (unat (distance s'), parentNodeId s')
             = adopt_all (unat (distance s)) (parentNodeId s)
                 (map (\<lambda>f. (offered_distance f, mSender f))
                    (filter valid_response (map snd rxs)))"
  using assms
proof (induction rxs arbitrary: s)
  case Nil
  then show ?case by simp
next
  case (Cons x rxs)
  obtain to f where x: "x = (to, f)" by (cases x)
  from Cons.prems x have rx: "radio_rx s = Some (to, f) # map Some rxs"
    and fr: "mCommand f = C_INTERNAL" "mType f = I_FIND_PARENT_RESPONSE"
            "mDestination f = nodeId s" "\<not> mRequestAck f"
    by simp_all
  from process_find_parent_response [OF rx fr Cons.prems(3), of n c]
  obtain s1 where s1: "transportProcess (Suc n) c s = Ret () s1" "radio_rx s1 = map Some rxs"
      "nodeId s1 = nodeId s" "autoFindParent s1"
      "(unat (distance s1), parentNodeId s1)
         = (if valid_response f \<and> offered_distance f < unat (distance s)
            then (offered_distance f, mSender f)
            else (unat (distance s), parentNodeId s))"
    by blast
  have "\<forall>x \<in> set rxs. mCommand (snd x) = C_INTERNAL \<and> mType (snd x) = I_FIND_PARENT_RESPONSE \<and>
                          mDestination (snd x) = nodeId s1 \<and> \<not> mRequestAck (snd x)"
    using Cons.prems(2) s1(3) by simp
  from Cons.IH [OF s1(2) this s1(4)]
  obtain s' where s': "process_times (length rxs) (Suc n) c s1 = Ret () s'"
      "(unat (distance s'), parentNodeId s')
         = adopt_all (unat (distance s1)) (parentNodeId s1)
             (map (\<lambda>f. (offered_distance f, mSender f)) (filter valid_response (map snd rxs)))"
    by blast
  have D: "unat (distance s) \<le> 255" by (rule u8_le_255)
  have inv: "\<not> valid_response f \<Longrightarrow> unat (distance s1) = unat (distance s) \<and> parentNodeId s1 = parentNodeId s"
    using s1(5) by simp
  show ?case
  proof (cases "valid_response f")
    case True
    with s1(5) s' show ?thesis
      by (cases "offered_distance f < unat (distance s)")
         (simp_all add: x s1(1) del: transportProcess.simps)
  next
    case False
    with inv s' show ?thesis by (simp add: x s1(1) del: transportProcess.simps)
  qed
qed

text \<open>
  C5, as stated, fails for responses that ask for an ack: the ack goes out before the
  response is looked at, and when sending it fails often enough transportSendRoute starts
  a new parent search, which sets the distance back to 255 in the middle of the frame
  (line 603) and reuses the receive buffer. The node has adopted sender 5 at distance 1;
  the second response, from sender 6 offering distance 4, then replaces it.
\<close>

theorem C5_ack_resets_search_counterexample:
  "distance node_c5 = DISTANCE_INVALID \<and> autoFindParent node_c5 \<and>
   radio_rx node_c5
     = map Some [(10, frame_fpr 5 0), (10, (frame_fpr 6 3)\<lparr>mRequestAck := True\<rparr>)] \<and>
   valid_response (frame_fpr 5 0) \<and> offered_distance (frame_fpr 5 0) = 1 \<and>
   valid_response ((frame_fpr 6 3)\<lparr>mRequestAck := True\<rparr>) \<and>
   offered_distance ((frame_fpr 6 3)\<lparr>mRequestAck := True\<rparr>) = 4 \<and>
   map_option parentNodeId
     (final_state (process_times (Suc (Suc 0)) (Suc (Suc (Suc (Suc (Suc 0))))) cfg0 node_c5))
     = Some 6 \<and>
   map_option distance
     (final_state (process_times (Suc (Suc 0)) (Suc (Suc (Suc (Suc (Suc 0))))) cfg0 node_c5))
     = Some 1"
  by (simp add: node_c5_def frame_fpr_def valid_response_def offered_distance_def
        concrete_defs model_defs Let_def cong: eval_congs)

text \<open>
  C5, amended: starting from distance_to_gateway = 255 with auto-find enabled, after
  transportProcess has handled any sequence of FIND_PARENT_RESPONSE frames addressed to
  this node that request no ack, distance_to_gateway is the minimum over the valid
  responses (protocol version right, responder_distance + 1 below 255) of
  responder_distance + 1, and parent_id is the sender of the first response attaining
  that minimum; with no valid response both are as before. With auto-find on, a response
  is adopted iff responder_distance + 1 is strictly less than the current distance.
\<close>

theorem C5_best_parent:
  assumes rx: "radio_rx s = map Some rxs"
      and frames: "\<forall>x \<in> set rxs. mCommand (snd x) = C_INTERNAL \<and>
                      mType (snd x) = I_FIND_PARENT_RESPONSE \<and>
                      mDestination (snd x) = nodeId s \<and> \<not> mRequestAck (snd x)"
      and auto: "autoFindParent s" and start: "distance s = DISTANCE_INVALID"
  shows "(\<exists>s'. process_times (length rxs) (Suc n) c s = Ret () s' \<and>
            (let valid = filter valid_response (map snd rxs) in
             if valid = [] then distance s' = DISTANCE_INVALID \<and> parentNodeId s' = parentNodeId s
             else unat (distance s') = Min (offered_distance ` set valid) \<and>
                  (\<exists>f. find (\<lambda>f. offered_distance f = Min (offered_distance ` set valid)) valid
                         = Some f \<and>
                       parentNodeId s' = mSender f))) \<and>
         (\<forall>t sender. autoFindParent t \<longrightarrow>
            find_parent_response sender t =
              (if offered_distance (msg t) < unat (distance t)
               then t\<lparr>distance := getByte (msg t) + 1, parentNodeId := sender,
                      ee_parentNodeId := sender, ee_distance := getByte (msg t) + 1\<rparr>
               else t))"
proof (intro conjI allI impI)
  define valid where "valid = filter valid_response (map snd rxs)"
  define cands where "cands = map (\<lambda>f. (offered_distance f, mSender f)) valid"
  from process_times_find_parent_responses [OF rx frames auto, of n c]
  obtain s' where run: "process_times (length rxs) (Suc n) c s = Ret () s'"
      and res: "(unat (distance s'), parentNodeId s') = adopt_all 255 (parentNodeId s) cands"
    by (auto simp: start cands_def valid_def)
  have fst_c: "fst ` set cands = offered_distance ` set valid"
    by (simp add: cands_def image_image)
  have "(if valid = [] then distance s' = DISTANCE_INVALID \<and> parentNodeId s' = parentNodeId s
         else unat (distance s') = Min (offered_distance ` set valid) \<and>
              (\<exists>f. find (\<lambda>f. offered_distance f = Min (offered_distance ` set valid)) valid
                     = Some f \<and>
                   parentNodeId s' = mSender f))"
  proof (cases "valid = []")
    case True
    with res have "unat (distance s') = 255" "parentNodeId s' = parentNodeId s"
      by (simp_all add: cands_def)
    then show ?thesis using True by (simp add: word_unat_eq_iff)
  next
    case False
    then have ne: "cands \<noteq> []" by (simp add: cands_def)
    have small: "\<forall>f \<in> set valid. offered_distance f < 255"
      by (simp add: valid_def valid_response_def offered_distance_def)
    from False obtain f0 where "f0 \<in> set valid" by (cases valid) auto
    with small have "Min (offered_distance ` set valid) \<le> offered_distance f0"
        "offered_distance f0 < 255"
      by simp_all
    then have lt: "Min (offered_distance ` set valid) < 255" by simp
    have "fst (adopt_all 255 (parentNodeId s) cands) = Min (set (255 # map fst cands))"
      by (rule adopt_all_min)
    also have "\<dots> = min 255 (Min (offered_distance ` set valid))"
    proof -
      have "finite (fst ` set cands)" "fst ` set cands \<noteq> {}" using ne by simp_all
      then have "Min (insert 255 (fst ` set cands)) = min 255 (Min (fst ` set cands))"
        by (rule Min_insert)
      then show ?thesis by (simp add: fst_c)
    qed
    also have "\<dots> = Min (offered_distance ` set valid)" using lt by simp
    finally have d: "unat (distance s') = Min (offered_distance ` set valid)"
      using res by (metis fst_conv)
    from adopt_all_first [OF ne, of 255 "parentNodeId s"] lt
    obtain p where p: "find (\<lambda>x. fst x = Min (offered_distance ` set valid)) cands
                         = Some (Min (offered_distance ` set valid), p)"
        "snd (adopt_all 255 (parentNodeId s) cands) = p"
      by (auto simp: fst_c)
    from p(1) obtain f where f: "find (\<lambda>f. offered_distance f = Min (offered_distance ` set valid)) valid = Some f"
        "mSender f = p"
      by (auto simp: cands_def find_map_pair)
    from p(2) res have "parentNodeId s' = p" by (metis snd_conv)
    with d f False show ?thesis by simp
  qed
  with run show "\<exists>s'. process_times (length rxs) (Suc n) c s = Ret () s' \<and>
            (let valid = filter valid_response (map snd rxs) in
             if valid = [] then distance s' = DISTANCE_INVALID \<and> parentNodeId s' = parentNodeId s
             else unat (distance s') = Min (offered_distance ` set valid) \<and>
                  (\<exists>f. find (\<lambda>f. offered_distance f = Min (offered_distance ` set valid)) valid
                         = Some f \<and>
                       parentNodeId s' = mSender f))"
    unfolding Let_def valid_def [symmetric] by blast
next
  fix t :: node and sender :: u8
  assume "autoFindParent t"
  then show "find_parent_response sender t =
              (if offered_distance (msg t) < unat (distance t)
               then t\<lparr>distance := getByte (msg t) + 1, parentNodeId := sender,
                      ee_parentNodeId := sender, ee_distance := getByte (msg t) + 1\<rparr>
               else t)"
    by (rule find_parent_response_eq)
qed

theorem C5_best_parent_witness:
  "radio_rx node_searching
     = map Some [(10, frame_fpr 5 3), (10, frame_fpr 6 1), (10, frame_fpr 7 1)] \<and>
   autoFindParent node_searching \<and> distance node_searching = DISTANCE_INVALID \<and>
   (\<exists>s'. process_times (Suc (Suc (Suc 0))) (Suc 0) cfg0 node_searching = Ret () s' \<and>
         distance s' = 2 \<and> parentNodeId s' = 6)"
proof -
  have hyps: "radio_rx node_searching
       = map Some [(10, frame_fpr 5 3), (10, frame_fpr 6 1), (10, frame_fpr 7 1)]"
    "\<forall>x \<in> set [(10, frame_fpr 5 3), (10, frame_fpr 6 1), (10, frame_fpr 7 1)].
      mCommand (snd x) = C_INTERNAL \<and> mType (snd x) = I_FIND_PARENT_RESPONSE \<and>
      mDestination (snd x) = nodeId node_searching \<and> \<not> mRequestAck (snd x)"
    "autoFindParent node_searching" "distance node_searching = DISTANCE_INVALID"
    by (simp_all add: node_searching_def frame_fpr_def concrete_defs)
  have v: "valid_response (frame_fpr 5 3)" "valid_response (frame_fpr 6 1)"
      "valid_response (frame_fpr 7 1)"
    by (simp_all add: valid_response_def frame_fpr_def getByte_def data_at_def concrete_defs)
  have o: "offered_distance (frame_fpr 5 3) = 4" "offered_distance (frame_fpr 6 1) = 2"
      "offered_distance (frame_fpr 7 1) = 2"
    by (simp_all add: offered_distance_def frame_fpr_def getByte_def data_at_def)
  have s: "mSender (frame_fpr 6 1) = 6" by (simp add: frame_fpr_def)
  from C5_best_parent [OF hyps, of 0 cfg0]
  have "\<exists>s'. process_times (Suc (Suc (Suc 0))) (Suc 0) cfg0 node_searching = Ret () s' \<and>
          unat (distance s') = 2 \<and> parentNodeId s' = 6"
    by (simp add: v o Let_def s del: process_times.simps transportProcess.simps)
  then have "\<exists>s'. process_times (Suc (Suc (Suc 0))) (Suc 0) cfg0 node_searching = Ret () s' \<and>
          distance s' = 2 \<and> parentNodeId s' = 6"
    by (simp add: word_unat_eq_iff del: process_times.simps transportProcess.simps)
  with hyps show ?thesis by blast
qed

subsection \<open>The signing coordinator without a nonce\<close>

lemma keeps_simps [simp]:
  "keeps J (Ret x s) = J s" "keeps J (Spin s) = J s" "keeps J (Reboot s) = J s"
  "keeps J OutOfFuel"
  by (simp_all add: keeps_def)

lemma keeps_obind:
  "keeps J m \<Longrightarrow> (\<And>x t. J t \<Longrightarrow> keeps J (f x t)) \<Longrightarrow> keeps J (obind m f)"
  by (cases m) simp_all

lemma keeps_if:
  "(b \<Longrightarrow> keeps J x) \<Longrightarrow> (\<not> b \<Longrightarrow> keeps J y) \<Longrightarrow> keeps J (if b then x else y)"
  by simp

lemma obind_keeps_cong:
  "keeps J m \<Longrightarrow> (\<And>x t. J t \<Longrightarrow> f x t = g x t) \<Longrightarrow> obind m f = obind m g"
  by (cases m) simp_all

lemma status_fields [simp]:
  "signingNonceStatus (emit e s) = signingNonceStatus s"
  "signingNonceStatus (snd (hwMillis s)) = signingNonceStatus s"
  "signingNonceStatus (snd (transportSend to m len s)) = signingNonceStatus s"
  "signingNonceStatus (put_msg r m s) = signingNonceStatus s"
  "signingNonceStatus (snd (transportSendWrite to r s)) = signingNonceStatus s"
  "signingNonceStatus (snd (signer_answer e s)) = signingNonceStatus s"
  by (cases r; simp add: emit_def hwMillis_def transportSend_def transportSendWrite_def
        signer_answer_def Let_def split: list.split)+

lemma rx_fields [simp]:
  "radio_rx (emit e s) = radio_rx s"
  "radio_rx (snd (hwMillis s)) = radio_rx s"
  "radio_rx (snd (transportSend to m len s)) = radio_rx s"
  "radio_rx (put_msg r m s) = radio_rx s"
  "radio_rx (snd (transportSendWrite to r s)) = radio_rx s"
  "radio_rx (snd (signer_answer e s)) = radio_rx s"
  by (cases r; simp add: emit_def hwMillis_def transportSend_def transportSendWrite_def
        signer_answer_def Let_def split: list.split)+

lemma wait_loop_keeps:
  assumes "\<And>t. no_nonce_pending t \<Longrightarrow> keeps no_nonce_pending (proc t)"
  shows "no_nonce_pending s \<Longrightarrow> keeps no_nonce_pending (wait_loop n proc enter ms s)"
proof (induction n arbitrary: s)
  case 0
  then show ?case by simp
next
  case (Suc n)
  have J1: "no_nonce_pending (snd (hwMillis s))"
    using Suc.prems by (simp add: no_nonce_pending_def)
  show ?case
    unfolding wait_loop.simps Let_def case_prod_beta
    by (intro keeps_if keeps_obind assms Suc.IH) (simp_all add: J1)
qed

lemma wait_keeps:
  assumes "\<And>t. no_nonce_pending t \<Longrightarrow> keeps no_nonce_pending (proc t)"
  shows "no_nonce_pending s \<Longrightarrow> keeps no_nonce_pending (wait n proc ms s)"
  unfolding wait_def Let_def case_prod_beta
  by (rule wait_loop_keeps [OF assms]) (simp_all add: no_nonce_pending_def)

lemma transportFindParentNode_keeps:
  assumes "\<And>t. no_nonce_pending t \<Longrightarrow> keeps no_nonce_pending (proc t)"
  shows "no_nonce_pending s \<Longrightarrow> keeps no_nonce_pending (transportFindParentNode n proc s)"
  unfolding transportFindParentNode_def Let_def case_prod_beta
  by (intro keeps_if keeps_obind wait_keeps [OF assms])
     (simp_all add: no_nonce_pending_def)

lemma transportRequestNodeId_keeps:
  assumes "\<And>t. no_nonce_pending t \<Longrightarrow> keeps no_nonce_pending (proc t)"
  shows "no_nonce_pending s \<Longrightarrow> keeps no_nonce_pending (transportRequestNodeId n proc s)"
  unfolding transportRequestNodeId_def Let_def case_prod_beta
  by (intro keeps_if keeps_obind wait_keeps [OF assms])
     (simp_all add: no_nonce_pending_def)

lemma send_result_keeps:
  assumes "\<And>t. no_nonce_pending t \<Longrightarrow> keeps no_nonce_pending (proc t)"
  shows "no_nonce_pending s \<Longrightarrow> keeps no_nonce_pending (send_result n proc c ok s)"
  unfolding send_result_def Let_def
  by (intro keeps_if keeps_obind transportFindParentNode_keeps [OF assms])
     (simp_all add: no_nonce_pending_def)

lemma route_message_keeps:
  assumes "\<And>t. no_nonce_pending t \<Longrightarrow> keeps no_nonce_pending (proc t)"
  shows "no_nonce_pending s \<Longrightarrow> keeps no_nonce_pending (route_message n proc c r lastHop s)"
  unfolding route_message_def Let_def case_prod_beta
  by (intro keeps_if keeps_obind send_result_keeps [OF assms])
     (simp_all add: no_nonce_pending_def)

lemma nonce_wait_keeps:
  assumes "\<And>t. no_nonce_pending t \<Longrightarrow> keeps no_nonce_pending (proc t)"
  shows "no_nonce_pending s \<Longrightarrow> keeps no_nonce_pending (nonce_wait n proc c enter s)"
proof (induction n arbitrary: s)
  case 0
  then show ?case by simp
next
  case (Suc n)
  have J1: "no_nonce_pending (snd (hwMillis s))"
    using Suc.prems by (simp add: no_nonce_pending_def)
  show ?case
    unfolding nonce_wait.simps Let_def case_prod_beta
    by (intro keeps_if keeps_obind assms Suc.IH) (simp_all add: J1)
qed

lemma transportSendRoute_keeps:
  assumes "\<And>t. no_nonce_pending t \<Longrightarrow> keeps no_nonce_pending (proc t)"
  shows "no_nonce_pending s \<Longrightarrow> keeps no_nonce_pending (transportSendRoute n proc c r s)"
proof (induction n arbitrary: r s)
  case 0
  then show ?case by simp
next
  case (Suc n)
  note J = Suc.prems
  show ?case
    unfolding transportSendRoute.simps Let_def case_prod_beta
    using J
    by (intro keeps_if keeps_obind transportFindParentNode_keeps [OF assms]
          transportRequestNodeId_keeps [OF assms] route_message_keeps [OF assms]
          nonce_wait_keeps [OF assms] Suc.IH)
       (simp_all add: no_nonce_pending_def)
qed

lemma status_fields2 [simp]:
  "signingNonceStatus (find_parent_response sender s) = signingNonceStatus s"
  "signingNonceStatus (request_signing_update sender s) = signingNonceStatus s"
  "signingNonceStatus (snd (fw_config_response c s)) = signingNonceStatus s"
  "signingNonceStatus (deliver c s) = signingNonceStatus s"
  "signingNonceStatus (request_fw_block s) = signingNonceStatus s"
  "signingNonceStatus (request_fw_config c s) = signingNonceStatus s"
  "signingNonceStatus (snd (verify_inbound c a b ty s)) = signingNonceStatus s"
  "signingNonceStatus (flash_writeBytes ad bs s) = signingNonceStatus s"
  by (simp_all add: find_parent_response_def request_signing_update_def fw_config_response_def
        deliver_def request_fw_block_def request_fw_config_def verify_inbound_eq
        flash_blockErase32K_def flash_writeBytes_def emit_def Let_def)

lemma rx_fields2 [simp]:
  "radio_rx (find_parent_response sender s) = radio_rx s"
  "radio_rx (request_signing_update sender s) = radio_rx s"
  "radio_rx (snd (fw_config_response c s)) = radio_rx s"
  "radio_rx (deliver c s) = radio_rx s"
  "radio_rx (request_fw_block s) = radio_rx s"
  "radio_rx (request_fw_config c s) = radio_rx s"
  "radio_rx (snd (verify_inbound c a b ty s)) = radio_rx s"
  "radio_rx (flash_writeBytes ad bs s) = radio_rx s"
  by (simp_all add: find_parent_response_def request_signing_update_def fw_config_response_def
        deliver_def request_fw_block_def request_fw_config_def verify_inbound_eq
        flash_blockErase32K_def flash_writeBytes_def emit_def Let_def)

lemma fw_response_keeps:
  "no_nonce_pending s \<Longrightarrow> keeps no_nonce_pending (fw_response c s)"
  unfolding fw_response_def Let_def
  by (intro keeps_if) (simp_all add: no_nonce_pending_def emit_def)

lemma transportPresentNode_keeps:
  assumes "\<And>t. no_nonce_pending t \<Longrightarrow> keeps no_nonce_pending (proc t)"
  shows "no_nonce_pending s \<Longrightarrow> keeps no_nonce_pending (transportPresentNode n proc c s)"
  unfolding transportPresentNode_def Let_def
  by (intro keeps_if keeps_obind wait_keeps [OF assms] transportSendRoute_keeps [OF assms])
     (simp_all add: no_nonce_pending_def)

lemma process_local_keeps:
  assumes "\<And>t. no_nonce_pending t \<Longrightarrow> keeps no_nonce_pending (proc t)"
      and "\<not> (command = C_INTERNAL \<and> type = I_GET_NONCE_RESPONSE)"
  shows "no_nonce_pending s \<Longrightarrow>
         keeps no_nonce_pending (process_local n proc c command type sender s)"
  unfolding process_local_def Let_def case_prod_beta
  using assms(2)
  by (intro keeps_if keeps_obind transportSendRoute_keeps [OF assms(1)]
        transportPresentNode_keeps [OF assms(1)] fw_response_keeps)
     (simp_all add: no_nonce_pending_def)

lemma process_relay_keeps:
  assumes "\<And>t. no_nonce_pending t \<Longrightarrow> keeps no_nonce_pending (proc t)"
  shows "no_nonce_pending s \<Longrightarrow>
         keeps no_nonce_pending (process_relay n proc c to command type sender lastHop destination s)"
  unfolding process_relay_def Let_def case_prod_beta
  by (intro keeps_if keeps_obind transportSendRoute_keeps [OF assms]
        transportFindParentNode_keeps [OF assms] wait_keeps [OF assms])
     (simp_all add: no_nonce_pending_def)

lemma process_idle_keeps:
  assumes "\<And>t. no_nonce_pending t \<Longrightarrow> keeps no_nonce_pending (proc t)"
  shows "no_nonce_pending s \<Longrightarrow> keeps no_nonce_pending (process_idle n proc c s)"
  unfolding process_idle_def Let_def case_prod_beta
  by (intro keeps_if keeps_obind transportSendRoute_keeps [OF assms])
     (simp_all add: no_nonce_pending_def)

lemma process_frame_keeps:
  assumes "\<And>t. no_nonce_pending t \<Longrightarrow> keeps no_nonce_pending (proc t)"
      and "\<not> (mCommand frame = C_INTERNAL \<and> mType frame = I_GET_NONCE_RESPONSE)"
  shows "no_nonce_pending s \<Longrightarrow> keeps no_nonce_pending (process_frame n proc c to frame s)"
  unfolding process_frame_eq Let_def
  by (intro keeps_if keeps_obind transportSendRoute_keeps [OF assms(1)]
        process_local_keeps [OF assms] process_relay_keeps [OF assms(1)])
     (simp_all add: no_nonce_pending_def frame_received_def route_learned_def)

lemma transportProcess_keeps:
  "no_nonce_pending s \<Longrightarrow> keeps no_nonce_pending (transportProcess n c s)"
proof (induction n arbitrary: s)
  case 0
  then show ?case by simp
next
  case (Suc n)
  show ?case
  proof (cases "radio_rx s")
    case Nil
    with Suc.prems show ?thesis
      by (simp add: transportAvailable_def process_idle_keeps [OF Suc.IH])
  next
    case (Cons x rest)
    have J0: "no_nonce_pending (s\<lparr>radio_rx := rest\<rparr>)"
      using Suc.prems Cons by (simp add: no_nonce_pending_def)
    show ?thesis
    proof (cases x)
      case None
      with Cons J0 show ?thesis
        by (simp add: transportAvailable_def process_idle_keeps [OF Suc.IH])
    next
      case (Some tf)
      obtain to frame where tf: "tf = (to, frame)" by (cases tf)
      have "\<not> nonce_frame x" using Suc.prems Cons by (simp add: no_nonce_pending_def)
      then have nf: "\<not> (mCommand frame = C_INTERNAL \<and> mType frame = I_GET_NONCE_RESPONSE)"
        by (simp add: Some tf nonce_frame_def)
      from Cons Some tf show ?thesis
        by (simp add: transportAvailable_def process_frame_keeps [OF Suc.IH nf J0])
    qed
  qed
qed

lemma needs_signing_stamped:
  "needs_signing (put_msg r ((get_msg r s)\<lparr>mVersion := v\<rparr>) s)
     (get_msg r (put_msg r ((get_msg r s)\<lparr>mVersion := v\<rparr>) s))
   = needs_signing s (get_msg r s)"
  by (cases r) (simp_all add: needs_signing_def)

lemma transportSendRoute_coordinator:
  assumes "MY_SIGNING_FEATURE c" "parentNodeId s \<noteq> AUTO" "nodeId s \<noteq> AUTO"
      and "needs_signing s (get_msg r s)"
  shows "transportSendRoute (Suc n) proc c r s =
     obind (transportSendRoute n proc c Ref_msgTmp (nonce_request r s)) (\<lambda>sent s4.
       if \<not> sent then Ret False s4
       else
         obind (nonce_wait n proc c (fst (hwMillis s4))
                  ((snd (hwMillis s4))\<lparr>msgSign := get_msg r (snd (hwMillis s4))\<rparr>)) (\<lambda>u s7.
           if fst (hwMillis s7) - fst (hwMillis s4) > MY_VERIFICATION_TIMEOUT_MS c
           then Ret False (emit Ev_BlinkErr (snd (hwMillis s7)))
           else if signingNonceStatus (snd (hwMillis s7)) = SIGN_OK
           then route_message n proc c r (mLast (get_msg r s))
                  (put_msg r (msgSign (snd (hwMillis s7))) (snd (hwMillis s7)))
           else Ret False (emit Ev_BlinkErr (snd (hwMillis s7)))))"
proof -
  have ns: "needs_signing (put_msg r ((get_msg r s)\<lparr>mVersion := PROTOCOL_VERSION\<rparr>) s)
              (get_msg r (put_msg r ((get_msg r s)\<lparr>mVersion := PROTOCOL_VERSION\<rparr>) s))"
    using assms(4) by (simp only: needs_signing_stamped)
  have f: "parentNodeId (put_msg r m s) = parentNodeId s" "nodeId (put_msg r m s) = nodeId s" for m
    by (cases r; simp)+
  show ?thesis
    unfolding transportSendRoute.simps Let_def case_prod_beta nonce_request_def
    using assms(1-3) ns by simp
qed

lemma nonce_request_pending:
  "\<forall>x \<in> set (radio_rx s). \<not> nonce_frame x \<Longrightarrow> no_nonce_pending (nonce_request r s)"
  by (cases r) (simp_all add: nonce_request_def no_nonce_pending_def Let_def)

lemma nonce_timeout_general:
  assumes sign: "MY_SIGNING_FEATURE c" and par: "parentNodeId s \<noteq> AUTO"
      and nid: "nodeId s \<noteq> AUTO" and need: "needs_signing s (get_msg r s)"
      and quiet: "\<forall>x \<in> set (radio_rx s). \<not> nonce_frame x"
      and ret: "transportSendRoute (Suc n) (transportProcess m c) c r s = Ret ok s'"
  shows "ok = False \<and>
         (transportSendRoute n (transportProcess m c) c Ref_msgTmp (nonce_request r s) = Ret False s' \<or>
          (\<exists>s4 s7. transportSendRoute n (transportProcess m c) c Ref_msgTmp (nonce_request r s)
                      = Ret True s4 \<and>
                   nonce_wait n (transportProcess m c) c (fst (hwMillis s4))
                      ((snd (hwMillis s4))\<lparr>msgSign := get_msg r (snd (hwMillis s4))\<rparr>)
                      = Ret () s7 \<and>
                   s' = emit Ev_BlinkErr (snd (hwMillis s7))))"
proof -
  let ?proc = "transportProcess m c"
  have pk: "\<And>t. no_nonce_pending t \<Longrightarrow> keeps no_nonce_pending (?proc t)"
    by (rule transportProcess_keeps)
  have J3: "no_nonce_pending (nonce_request r s)"
    using quiet by (rule nonce_request_pending)
  note eq = transportSendRoute_coordinator [OF sign par nid need, where n = n and proc = ?proc]
  from ret obtain sent s4 where
      r1: "transportSendRoute n ?proc c Ref_msgTmp (nonce_request r s) = Ret sent s4"
    unfolding eq by (cases "transportSendRoute n ?proc c Ref_msgTmp (nonce_request r s)") simp_all
  have "keeps no_nonce_pending (transportSendRoute n ?proc c Ref_msgTmp (nonce_request r s))"
    by (rule transportSendRoute_keeps) (simp_all add: transportProcess_keeps J3)
  with r1 have J4: "no_nonce_pending s4" by simp
  show ?thesis
  proof (cases sent)
    case False
    with ret r1 show ?thesis unfolding eq by simp
  next
    case True
    let ?s6 = "(snd (hwMillis s4))\<lparr>msgSign := get_msg r (snd (hwMillis s4))\<rparr>"
    have J6: "no_nonce_pending ?s6" using J4 by (simp add: no_nonce_pending_def)
    from ret r1 True obtain s7 where
        r2: "nonce_wait n ?proc c (fst (hwMillis s4)) ?s6 = Ret () s7"
      unfolding eq
      by (cases "nonce_wait n ?proc c (fst (hwMillis s4)) ?s6") simp_all
    have "keeps no_nonce_pending (nonce_wait n ?proc c (fst (hwMillis s4)) ?s6)"
      by (rule nonce_wait_keeps) (simp_all add: transportProcess_keeps J6)
    with r2 have J7: "no_nonce_pending s7" by simp
    then have st: "signingNonceStatus (snd (hwMillis s7)) \<noteq> SIGN_OK"
      by (simp add: no_nonce_pending_def)
    from ret r1 True r2 st have "ok = False \<and> s' = emit Ev_BlinkErr (snd (hwMillis s7))"
      unfolding eq by (simp split: if_split_asm)
    with r1 True r2 show ?thesis by auto
  qed
qed

lemma hwMillis_quiet:
  "ticks t = [] \<Longrightarrow> hwMillis t = (of_nat (millis t), t\<lparr>millis := millis t + 1\<rparr>)"
  by (simp add: hwMillis_def)

lemma hwMillis_clock:
  "\<exists>M tk. snd (hwMillis t) = t\<lparr>millis := M, ticks := tk\<rparr> \<and> length tk \<le> length (ticks t)"
proof (cases "ticks t")
  case Nil
  then have "snd (hwMillis t) = t\<lparr>millis := millis t + 1, ticks := []\<rparr>"
    by (cases t) (simp add: hwMillis_def)
  with Nil show ?thesis
    by (intro exI [of _ "millis t + 1"] exI [of _ "[]"]) simp
next
  case (Cons d ds)
  then have "snd (hwMillis t) = t\<lparr>millis := millis t + d, ticks := ds\<rparr>"
    by (simp add: hwMillis_def)
  with Cons show ?thesis
    by (intro exI [of _ "millis t + d"] exI [of _ ds]) simp
qed

lemma clock_fields:
  "quiet_env c (snd (hwMillis t)) = quiet_env c t"
  "quiet_env c (t\<lparr>millis := M, ticks := tk\<rparr>) = quiet_env c t"
  "trace (snd (hwMillis t)) = trace t"
  by (simp_all add: quiet_env_def hwMillis_def split: list.split)

lemma transportProcess_quiet:
  assumes "quiet_env c t"
  shows "transportProcess (Suc m) c t
           = Ret () (if MY_OTA_FIRMWARE_FEATURE c then snd (hwMillis t) else t)"
  using assms
  by (cases "MY_OTA_FIRMWARE_FEATURE c")
     (auto simp: quiet_env_def transportAvailable_def process_idle_def hwMillis_def
           split: list.split)

lemma unat_plus_of_nat:
  "unat (a :: u32) + j < 2 ^ 32 \<Longrightarrow> unat (a + of_nat j) = unat a + j"
  by (simp add: unat_word_ariths unat_of_nat)

text \<open>
  Once the script of ticks is used up, the wait for the nonce ends within
  \<open>MY_VERIFICATION_TIMEOUT_MS + 2\<close> iterations, whatever the clock showed on entry.
\<close>

lemma nonce_wait_steady_near:
  assumes big: "unat (MY_VERIFICATION_TIMEOUT_MS c) + 2 < 2 ^ 32"
  shows "quiet_env c t \<Longrightarrow> ticks t = [] \<Longrightarrow>
         unat (of_nat (millis t) - w) \<le> unat (MY_VERIFICATION_TIMEOUT_MS c) + 1 \<Longrightarrow>
         unat (MY_VERIFICATION_TIMEOUT_MS c) + 2 \<le> k + unat (of_nat (millis t) - w) \<Longrightarrow>
         \<exists>M. nonce_wait k (transportProcess (Suc m) c) c w t = Ret () (t\<lparr>millis := M\<rparr>)"
proof (induction k arbitrary: t)
  case 0
  then show ?case by simp
next
  case (Suc k)
  let ?T = "MY_VERIFICATION_TIMEOUT_MS c"
  let ?x = "unat (of_nat (millis t) - w)"
  let ?t1 = "t\<lparr>millis := Suc (millis t)\<rparr>"
  have tk: "ticks t = []" by (rule Suc.prems(2))
  have cond: "(of_nat (millis t) :: u32) - w < ?T \<longleftrightarrow> ?x < unat ?T"
    by (simp add: word_less_nat_alt)
  show ?case
  proof (cases "?x < unat ?T \<and> signingNonceStatus t = SIGN_WAITING_FOR_NONCE")
    case False
    then have "nonce_wait (Suc k) (transportProcess (Suc m) c) c w t = Ret () ?t1"
      by (auto simp: hwMillis_quiet [OF tk] cond simp del: transportProcess.simps)
    then show ?thesis
      by (intro exI [of _ "millis t + 1"]) (simp del: nonce_wait.simps transportProcess.simps)
  next
    case True
    define d :: nat where "d = (if MY_OTA_FIRMWARE_FEATURE c then 1 else 0)"
    let ?t2 = "t\<lparr>millis := Suc (millis t + d)\<rparr>"
    have q1: "quiet_env c ?t1" using Suc.prems(1) by (simp add: quiet_env_def)
    have tk1: "ticks ?t1 = []" using tk by simp
    have p: "transportProcess (Suc m) c ?t1 = Ret () ?t2"
      unfolding transportProcess_quiet [OF q1, of m] hwMillis_quiet [OF tk1]
      by (simp add: d_def)
    have q2: "quiet_env c ?t2" using q1 by (simp add: quiet_env_def)
    have tk2: "ticks ?t2 = []" using tk by simp
    have dle: "d \<le> 1" by (simp add: d_def)
    have "(of_nat (millis ?t2) :: u32) - w = (of_nat (millis t) - w) + of_nat (1 + d)"
      by simp
    moreover have "?x + (1 + d) < 2 ^ 32" using True dle big by linarith
    ultimately have x2: "unat (of_nat (millis ?t2) - w) = ?x + (1 + d)"
      by (simp only: unat_plus_of_nat)
    have step: "nonce_wait (Suc k) (transportProcess (Suc m) c) c w t
                  = nonce_wait k (transportProcess (Suc m) c) c w ?t2"
      using True by (simp add: hwMillis_quiet [OF tk] cond p del: transportProcess.simps)
    have "\<exists>M. nonce_wait k (transportProcess (Suc m) c) c w ?t2 = Ret () (?t2\<lparr>millis := M\<rparr>)"
    proof (rule Suc.IH [OF q2 tk2])
      show "unat (of_nat (millis ?t2) - w) \<le> unat ?T + 1"
        unfolding x2 using True dle by linarith
      show "unat ?T + 2 \<le> k + unat (of_nat (millis ?t2) - w)"
        unfolding x2 using Suc.prems(4) by linarith
    qed
    then obtain M where M: "nonce_wait k (transportProcess (Suc m) c) c w ?t2
                              = Ret () (?t2\<lparr>millis := M\<rparr>)"
      by blast
    have "?t2\<lparr>millis := M\<rparr> = t\<lparr>millis := M\<rparr>" by simp
    with M step show ?thesis
      by (intro exI [of _ M]) (simp del: nonce_wait.simps transportProcess.simps)
  qed
qed

lemma nonce_wait_steady:
  assumes big: "unat (MY_VERIFICATION_TIMEOUT_MS c) + 2 < 2 ^ 32"
      and q: "quiet_env c t" and tk: "ticks t = []"
      and fuel: "unat (MY_VERIFICATION_TIMEOUT_MS c) + 2 \<le> k"
  shows "\<exists>M. nonce_wait k (transportProcess (Suc m) c) c w t = Ret () (t\<lparr>millis := M\<rparr>)"
proof (cases "unat (of_nat (millis t) - w) \<le> unat (MY_VERIFICATION_TIMEOUT_MS c) + 1")
  case True
  show ?thesis
    by (rule nonce_wait_steady_near [OF big q tk True]) (use fuel in linarith)
next
  case False
  then have far: "\<not> (of_nat (millis t) :: u32) - w < MY_VERIFICATION_TIMEOUT_MS c"
    by (simp add: word_less_nat_alt)
  from fuel obtain k' where k: "k = Suc k'" by (cases k) simp_all
  have "nonce_wait (Suc k') (transportProcess (Suc m) c) c w t
          = Ret () (t\<lparr>millis := millis t + 1\<rparr>)"
    using far by (simp add: hwMillis_quiet [OF tk] del: transportProcess.simps)
  then show ?thesis unfolding k by blast
qed

text \<open>
  With a script of ticks, every iteration of the wait uses up at least one of them: the
  wait ends within \<open>length ticks + MY_VERIFICATION_TIMEOUT_MS + 2\<close> iterations, and all it
  has changed is the clock.
\<close>

lemma nonce_wait_quiet:
  assumes big: "unat (MY_VERIFICATION_TIMEOUT_MS c) + 2 < 2 ^ 32"
  shows "quiet_env c t \<Longrightarrow>
         length (ticks t) + unat (MY_VERIFICATION_TIMEOUT_MS c) + 2 \<le> k \<Longrightarrow>
         \<exists>M tk. nonce_wait k (transportProcess (Suc m) c) c w t
                   = Ret () (t\<lparr>millis := M, ticks := tk\<rparr>)"
proof (induction k arbitrary: t)
  case 0
  then show ?case by simp
next
  case (Suc k)
  let ?T = "MY_VERIFICATION_TIMEOUT_MS c"
  show ?case
  proof (cases "ticks t")
    case Nil
    from nonce_wait_steady [OF big Suc.prems(1) Nil, of "Suc k" m w] Suc.prems(2)
    obtain M where "nonce_wait (Suc k) (transportProcess (Suc m) c) c w t
                      = Ret () (t\<lparr>millis := M\<rparr>)"
      by auto
    moreover have "t\<lparr>millis := M\<rparr> = t\<lparr>millis := M, ticks := []\<rparr>"
      using Nil by (cases t) simp
    ultimately show ?thesis by metis
  next
    case (Cons d ds)
    let ?t1 = "t\<lparr>millis := millis t + d, ticks := ds\<rparr>"
    have h: "hwMillis t = (of_nat (millis t), ?t1)" using Cons by (simp add: hwMillis_def)
    have q1: "quiet_env c ?t1" using Suc.prems(1) by (simp add: quiet_env_def)
    show ?thesis
    proof (cases "(of_nat (millis t) :: u32) - w < ?T \<and>
                  signingNonceStatus t = SIGN_WAITING_FOR_NONCE")
      case False
      then have "nonce_wait (Suc k) (transportProcess (Suc m) c) c w t = Ret () ?t1"
        by (auto simp: h simp del: transportProcess.simps)
      then show ?thesis by blast
    next
      case True
      define t2 where "t2 = (if MY_OTA_FIRMWARE_FEATURE c then snd (hwMillis ?t1) else ?t1)"
      have p: "transportProcess (Suc m) c ?t1 = Ret () t2"
        unfolding transportProcess_quiet [OF q1, of m] t2_def ..
      from hwMillis_clock [of ?t1]
      obtain M2 tk2 where c2: "t2 = t\<lparr>millis := M2, ticks := tk2\<rparr>" "length tk2 \<le> length ds"
        by (cases "MY_OTA_FIRMWARE_FEATURE c") (auto simp: t2_def)
      have q2: "quiet_env c t2" using Suc.prems(1) by (simp add: c2 quiet_env_def)
      have step: "nonce_wait (Suc k) (transportProcess (Suc m) c) c w t
                    = nonce_wait k (transportProcess (Suc m) c) c w t2"
        using True by (simp add: h p del: transportProcess.simps)
      have "length (ticks t2) + unat ?T + 2 \<le> k"
        using Suc.prems(2) c2(2) Cons by (simp add: c2(1))
      from Suc.IH [OF q2 this]
      obtain M tk where "nonce_wait k (transportProcess (Suc m) c) c w t2
                           = Ret () (t2\<lparr>millis := M, ticks := tk\<rparr>)"
        by blast
      moreover have "t2\<lparr>millis := M, ticks := tk\<rparr> = t\<lparr>millis := M, ticks := tk\<rparr>"
        by (simp add: c2(1))
      ultimately show ?thesis unfolding step by metis
    qed
  qed
qed

lemma only_nonce_tx_simps [simp]:
  "only_nonce_tx []"
  "only_nonce_tx (evs @ [Ev_BlinkErr]) = only_nonce_tx evs"
  "only_nonce_tx [Ev_BlinkTx, Ev_Tx to m len]
     = (mCommand m = C_INTERNAL \<and> mType m = I_GET_NONCE \<and> \<not> mSigned m)"
  by (auto simp: only_nonce_tx_def)

lemma transportSendWrite_quiet:
  "radio_tx_ok t = [] \<Longrightarrow> transportSendWrite hop r t = (True, written hop r t)"
  by (cases r) (simp_all add: written_def transportSendWrite_def transportSend_def emit_def Let_def)

lemma written_fields:
  "quiet_env c (written hop r t) = quiet_env c t"
  "signingNonceStatus (written hop r t) = signingNonceStatus t"
  "routes (written hop r t) = routes t"
  "ticks (written hop r t) = ticks t"
  "\<exists>len. trace (written hop r t)
      = trace t @ [Ev_BlinkTx, Ev_Tx hop ((get_msg r t)\<lparr>mVersion := PROTOCOL_VERSION,
                                                        mLast := nodeId t\<rparr>) len]"
  by (cases r; simp add: written_def emit_def quiet_env_def)+

lemma quiet_sent_if:
  "(b \<Longrightarrow> quiet_sent c r s x) \<Longrightarrow> (\<not> b \<Longrightarrow> quiet_sent c r s y)
     \<Longrightarrow> quiet_sent c r s (if b then x else y)"
  by simp

lemma quiet_sent_ret: "quiet_env c s \<Longrightarrow> quiet_sent c r s (Ret ok s)"
  by (simp add: quiet_sent_def)

lemma quiet_sent_write:
  assumes "quiet_env c t" "get_msg r t = get_msg r s" "nodeId t = nodeId s"
    "trace t = trace s" "signingNonceStatus t = signingNonceStatus s" "ticks t = ticks s"
  shows "quiet_sent c r s (Ret ok (written hop r t))"
    and "quiet_sent c r s (Ret ok ((written hop r t)\<lparr>failedTransmissions := 0\<rparr>))"
    and "quiet_sent c r s (Ret ok ((written hop r t)\<lparr>routes := rt, failedTransmissions := 0\<rparr>))"
  using assms written_fields(5) [of hop r t] written_fields(1) [of c hop r t]
    written_fields(2) [of hop r t] written_fields(4) [of hop r t]
  by (auto simp: quiet_sent_def quiet_env_def)

lemma route_message_quiet:
  assumes q: "quiet_env c s"
  shows "quiet_sent c r s (route_message n proc c r lastHop s)"
proof -
  have tx: "radio_tx_ok s = []" using q by (simp add: quiet_env_def)
  have q1: "quiet_env c (s\<lparr>routes := rt\<rparr>)" for rt using q by (simp add: quiet_env_def)
  have g1: "get_msg r (s\<lparr>routes := rt\<rparr>) = get_msg r s" for rt by (cases r) simp_all
  show ?thesis
    unfolding route_message_def Let_def
    by (intro quiet_sent_if)
       (simp_all add: transportSendWrite_quiet tx send_result_def quiet_sent_write q q1 g1
          quiet_sent_ret)
qed

lemma nonce_request_sent:
  assumes sign: "MY_SIGNING_FEATURE c" and par: "parentNodeId s \<noteq> AUTO"
      and nid: "nodeId s \<noteq> AUTO" and q: "quiet_env c s"
  shows "\<exists>sent s4. transportSendRoute (Suc n) proc c Ref_msgTmp (nonce_request r s) = Ret sent s4 \<and>
           quiet_env c s4 \<and> signingNonceStatus s4 = SIGN_WAITING_FOR_NONCE \<and>
           ticks s4 = ticks s \<and>
           (\<exists>evs. trace s4 = trace s @ evs \<and> only_nonce_tx evs)"
proof -
  define s3 where "s3 = nonce_request r s"
  define g where "g = (msgTmp s3)\<lparr>mVersion := PROTOCOL_VERSION, mSigned := False\<rparr>"
  define s3' where "s3' = s3\<lparr>msgTmp := g\<rparr>"
  have f3: "parentNodeId s3 = parentNodeId s" "nodeId s3 = nodeId s" "trace s3 = trace s"
      "signingNonceStatus s3 = SIGN_WAITING_FOR_NONCE" "quiet_env c s3"
      "mType (msgTmp s3) = I_GET_NONCE" "mCommand (msgTmp s3) = C_INTERNAL"
      "mSender (msgTmp s3) = nodeId s" "ticks s3 = ticks s"
    using q
    by (cases r; simp add: s3_def nonce_request_def Let_def quiet_env_def build_def
          set_str_empty_def)+
  have ns: "\<not> needs_signing t ((msgTmp s3)\<lparr>mVersion := PROTOCOL_VERSION\<rparr>)" for t
    by (simp add: needs_signing_def f3 handshake_type_def)
  have eq: "transportSendRoute (Suc n) proc c Ref_msgTmp s3
              = route_message n proc c Ref_msgTmp (mLast (msgTmp s3)) s3'"
    using sign par nid
    by (simp add: Let_def f3 ns s3'_def g_def)
  have q3': "quiet_env c s3'" using f3(5) by (simp add: s3'_def quiet_env_def)
  from route_message_quiet [OF q3', of Ref_msgTmp n proc "mLast (msgTmp s3)"]
  obtain ok s4 where r: "route_message n proc c Ref_msgTmp (mLast (msgTmp s3)) s3' = Ret ok s4"
      "quiet_env c s4" "signingNonceStatus s4 = signingNonceStatus s3'"
      "ticks s4 = ticks s3'"
      "trace s4 = trace s3' \<or>
       (\<exists>hop len. trace s4 = trace s3' @
          [Ev_BlinkTx, Ev_Tx hop (g\<lparr>mVersion := PROTOCOL_VERSION, mLast := nodeId s3'\<rparr>) len])"
    unfolding quiet_sent_def by (auto simp: s3'_def)
  have gt: "mCommand g = C_INTERNAL" "mType g = I_GET_NONCE" "\<not> mSigned g"
    by (simp_all add: g_def f3)
  from r(5) have "\<exists>evs. trace s4 = trace s @ evs \<and> only_nonce_tx evs"
  proof
    assume "trace s4 = trace s3'"
    then have "trace s4 = trace s @ []" by (simp add: s3'_def f3)
    then show ?thesis using only_nonce_tx_simps(1) by blast
  next
    assume "\<exists>hop len. trace s4 = trace s3' @
          [Ev_BlinkTx, Ev_Tx hop (g\<lparr>mVersion := PROTOCOL_VERSION, mLast := nodeId s3'\<rparr>) len]"
    then obtain hop len where
      "trace s4 = trace s @ [Ev_BlinkTx, Ev_Tx hop (g\<lparr>mVersion := PROTOCOL_VERSION, mLast := nodeId s3'\<rparr>) len]"
      by (auto simp: s3'_def f3)
    moreover have "only_nonce_tx [Ev_BlinkTx, Ev_Tx hop (g\<lparr>mVersion := PROTOCOL_VERSION, mLast := nodeId s3'\<rparr>) len]"
      by (simp add: gt)
    ultimately show ?thesis by blast
  qed
  with r(1,2,3,4) show ?thesis
    unfolding s3_def [symmetric] eq by (simp add: s3'_def f3)
qed

text \<open>
  Without a nonce on its way the branch of line 438 that takes the signed message back is
  dead: the call is the nonce request, the wait, the error blink and \<open>false\<close>.
\<close>

lemma nonce_timeout_equation:
  assumes sign: "MY_SIGNING_FEATURE c" and par: "parentNodeId s \<noteq> AUTO"
      and nid: "nodeId s \<noteq> AUTO" and need: "needs_signing s (get_msg r s)"
      and quiet: "\<forall>x \<in> set (radio_rx s). \<not> nonce_frame x"
  shows "transportSendRoute (Suc n) (transportProcess m c) c r s =
     obind (transportSendRoute n (transportProcess m c) c Ref_msgTmp (nonce_request r s))
       (\<lambda>sent s4.
          if \<not> sent then Ret False s4
          else obind (nonce_wait n (transportProcess m c) c (fst (hwMillis s4))
                        ((snd (hwMillis s4))\<lparr>msgSign := get_msg r (snd (hwMillis s4))\<rparr>))
                 (\<lambda>u s7. Ret False (emit Ev_BlinkErr (snd (hwMillis s7)))))"
proof -
  let ?proc = "transportProcess m c"
  note eq = transportSendRoute_coordinator [OF sign par nid need, where n = n and proc = ?proc]
  have J3: "no_nonce_pending (nonce_request r s)"
    using quiet by (rule nonce_request_pending)
  have k1: "keeps no_nonce_pending (transportSendRoute n ?proc c Ref_msgTmp (nonce_request r s))"
    by (rule transportSendRoute_keeps) (simp_all add: transportProcess_keeps J3)
  show ?thesis
    unfolding eq
  proof (rule obind_keeps_cong [OF k1])
    fix sent :: bool and s4 :: node
    assume J4: "no_nonce_pending s4"
    let ?s6 = "(snd (hwMillis s4))\<lparr>msgSign := get_msg r (snd (hwMillis s4))\<rparr>"
    let ?w = "nonce_wait n ?proc c (fst (hwMillis s4)) ?s6"
    have J6: "no_nonce_pending ?s6" using J4 by (simp add: no_nonce_pending_def)
    have k2: "keeps no_nonce_pending ?w"
      by (rule nonce_wait_keeps) (simp_all add: transportProcess_keeps J6)
    have "obind ?w (\<lambda>u s7.
             if fst (hwMillis s7) - fst (hwMillis s4) > MY_VERIFICATION_TIMEOUT_MS c
             then Ret False (emit Ev_BlinkErr (snd (hwMillis s7)))
             else if signingNonceStatus (snd (hwMillis s7)) = SIGN_OK
             then route_message n ?proc c r (mLast (get_msg r s))
                    (put_msg r (msgSign (snd (hwMillis s7))) (snd (hwMillis s7)))
             else Ret False (emit Ev_BlinkErr (snd (hwMillis s7))))
        = obind ?w (\<lambda>u s7. Ret False (emit Ev_BlinkErr (snd (hwMillis s7))))"
    proof (rule obind_keeps_cong [OF k2])
      fix u :: unit and s7 :: node
      assume "no_nonce_pending s7"
      then have "signingNonceStatus (snd (hwMillis s7)) \<noteq> SIGN_OK"
        by (simp add: no_nonce_pending_def)
      then show "(if fst (hwMillis s7) - fst (hwMillis s4) > MY_VERIFICATION_TIMEOUT_MS c
             then Ret False (emit Ev_BlinkErr (snd (hwMillis s7)))
             else if signingNonceStatus (snd (hwMillis s7)) = SIGN_OK
             then route_message n ?proc c r (mLast (get_msg r s))
                    (put_msg r (msgSign (snd (hwMillis s7))) (snd (hwMillis s7)))
             else Ret False (emit Ev_BlinkErr (snd (hwMillis s7))))
          = Ret False (emit Ev_BlinkErr (snd (hwMillis s7)))"
        by simp
    qed
    then show "(if \<not> sent then Ret False s4
          else obind ?w (\<lambda>u s7.
             if fst (hwMillis s7) - fst (hwMillis s4) > MY_VERIFICATION_TIMEOUT_MS c
             then Ret False (emit Ev_BlinkErr (snd (hwMillis s7)))
             else if signingNonceStatus (snd (hwMillis s7)) = SIGN_OK
             then route_message n ?proc c r (mLast (get_msg r s))
                    (put_msg r (msgSign (snd (hwMillis s7))) (snd (hwMillis s7)))
             else Ret False (emit Ev_BlinkErr (snd (hwMillis s7)))))
        = (if \<not> sent then Ret False s4
           else obind ?w (\<lambda>u s7. Ret False (emit Ev_BlinkErr (snd (hwMillis s7)))))"
      by simp
  qed
qed

lemma nonce_timeout_quiet:
  assumes sign: "MY_SIGNING_FEATURE c" and par: "parentNodeId s \<noteq> AUTO"
      and nid: "nodeId s \<noteq> AUTO" and need: "needs_signing s (get_msg r s)"
      and q: "quiet_env c s"
      and big: "unat (MY_VERIFICATION_TIMEOUT_MS c) + 2 < 2 ^ 32"
      and fuel: "length (ticks s) + unat (MY_VERIFICATION_TIMEOUT_MS c) + 2 \<le> n"
  shows "\<exists>s' evs. transportSendRoute (Suc (Suc n)) (transportProcess (Suc m) c) c r s = Ret False s' \<and>
           trace s' = trace s @ evs \<and> only_nonce_tx evs"
proof -
  let ?proc = "transportProcess (Suc m) c"
  have quiet: "\<forall>x \<in> set (radio_rx s). \<not> nonce_frame x"
    using q by (simp add: quiet_env_def)
  note eq = nonce_timeout_equation [OF sign par nid need quiet, of "Suc n" "Suc m"]
  from nonce_request_sent [OF sign par nid q, of n ?proc r]
  obtain sent s4 evs where
    s4: "transportSendRoute (Suc n) ?proc c Ref_msgTmp (nonce_request r s) = Ret sent s4"
      "quiet_env c s4" "signingNonceStatus s4 = SIGN_WAITING_FOR_NONCE"
      "ticks s4 = ticks s" "trace s4 = trace s @ evs" "only_nonce_tx evs"
    by blast
  show ?thesis
  proof (cases sent)
    case False
    then show ?thesis using s4 unfolding eq by auto
  next
    case True
    define s6 where "s6 = (snd (hwMillis s4))\<lparr>msgSign := get_msg r (snd (hwMillis s4))\<rparr>"
    from hwMillis_clock [of s4]
    obtain M5 tk5 where c5: "snd (hwMillis s4) = s4\<lparr>millis := M5, ticks := tk5\<rparr>"
        "length tk5 \<le> length (ticks s4)"
      by blast
    have "quiet_env c (snd (hwMillis s4))" using s4(2) by (simp add: clock_fields)
    then have q6: "quiet_env c s6" by (simp add: s6_def quiet_env_def)
    have l6: "length (ticks s6) \<le> length (ticks s)"
      using c5(2) s4(4) by (simp add: s6_def c5(1))
    have f6: "signingNonceStatus s6 = SIGN_WAITING_FOR_NONCE" "trace s6 = trace s @ evs"
      using s4(3,5) by (simp_all add: s6_def clock_fields)
    from nonce_wait_quiet [OF big q6, of "Suc n" m "fst (hwMillis s4)"] fuel l6
    obtain M tk where
      w: "nonce_wait (Suc n) ?proc c (fst (hwMillis s4)) s6 = Ret () (s6\<lparr>millis := M, ticks := tk\<rparr>)"
      by auto
    define s7 where "s7 = s6\<lparr>millis := M, ticks := tk\<rparr>"
    have f7: "trace (emit Ev_BlinkErr (snd (hwMillis s7))) = trace s @ (evs @ [Ev_BlinkErr])"
      using f6(2) by (simp add: clock_fields s7_def emit_def)
    have "transportSendRoute (Suc (Suc n)) ?proc c r s
            = Ret False (emit Ev_BlinkErr (snd (hwMillis s7)))"
      unfolding eq s4(1) using True
      by (simp add: s6_def [symmetric] w s7_def [symmetric]
            del: nonce_wait.simps transportProcess.simps)
    moreover have "only_nonce_tx (evs @ [Ev_BlinkErr])" using s4(6) by simp
    ultimately show ?thesis using f7 by blast
  qed
qed

text \<open>
  C4. A send that enters the signing coordinator (signing is built in, the node has an id and
  a parent, the destination requires signing, the node is the originator, and the message is
  neither an ack nor a handshake message) fails when no nonce comes. If none of the frames
  the radio offers is a GET_NONCE_RESPONSE, then whatever else arrives and whatever the
  clock does, the call is the nonce request, the wait in the processing loop and the error
  blink: the branch that takes the signed message back and sends it is never reached, and
  every return of \<open>transportSendRoute\<close> is \<open>false\<close>, by the timeout exit or by the
  sign-fail exit. If moreover the radio is silent, then for every script of the clock the
  call does return \<open>false\<close>, given fuel for the whole wait, and all it has transmitted is
  the unsigned GET_NONCE request: the saved message never goes out.
\<close>

theorem C4_nonce_timeout:
  assumes sign: "MY_SIGNING_FEATURE c" and par: "parentNodeId s \<noteq> AUTO"
      and nid: "nodeId s \<noteq> AUTO" and need: "needs_signing s (get_msg r s)"
  shows "((\<forall>x \<in> set (radio_rx s). \<not> nonce_frame x) \<longrightarrow>
            (\<forall>n m. transportSendRoute (Suc n) (transportProcess m c) c r s =
               obind (transportSendRoute n (transportProcess m c) c Ref_msgTmp (nonce_request r s))
                 (\<lambda>sent s4.
                    if \<not> sent then Ret False s4
                    else obind (nonce_wait n (transportProcess m c) c (fst (hwMillis s4))
                                  ((snd (hwMillis s4))\<lparr>msgSign := get_msg r (snd (hwMillis s4))\<rparr>))
                           (\<lambda>u s7. Ret False (emit Ev_BlinkErr (snd (hwMillis s7)))))) \<and>
            (\<forall>n m ok s'. transportSendRoute n (transportProcess m c) c r s = Ret ok s'
                \<longrightarrow> \<not> ok)) \<and>
         (quiet_env c s \<and> unat (MY_VERIFICATION_TIMEOUT_MS c) + 2 < 2 ^ 32 \<longrightarrow>
            (\<forall>n m. length (ticks s) + unat (MY_VERIFICATION_TIMEOUT_MS c) + 2 \<le> n \<longrightarrow>
               (\<exists>s' evs. transportSendRoute (Suc (Suc n)) (transportProcess (Suc m) c) c r s
                            = Ret False s' \<and>
                          trace s' = trace s @ evs \<and> only_nonce_tx evs)))"
proof (intro conjI impI allI)
  fix n m
  assume quiet: "\<forall>x \<in> set (radio_rx s). \<not> nonce_frame x"
  show "transportSendRoute (Suc n) (transportProcess m c) c r s =
               obind (transportSendRoute n (transportProcess m c) c Ref_msgTmp (nonce_request r s))
                 (\<lambda>sent s4.
                    if \<not> sent then Ret False s4
                    else obind (nonce_wait n (transportProcess m c) c (fst (hwMillis s4))
                                  ((snd (hwMillis s4))\<lparr>msgSign := get_msg r (snd (hwMillis s4))\<rparr>))
                           (\<lambda>u s7. Ret False (emit Ev_BlinkErr (snd (hwMillis s7)))))"
    by (rule nonce_timeout_equation [OF sign par nid need quiet])
next
  fix n m ok s'
  assume quiet: "\<forall>x \<in> set (radio_rx s). \<not> nonce_frame x"
     and ret: "transportSendRoute n (transportProcess m c) c r s = Ret ok s'"
  show "\<not> ok"
  proof (cases n)
    case 0
    then show ?thesis using ret by simp
  next
    case (Suc k)
    with ret have "transportSendRoute (Suc k) (transportProcess m c) c r s = Ret ok s'"
      by simp
    from nonce_timeout_general [OF sign par nid need quiet this] show ?thesis by simp
  qed
next
  fix n m
  assume "quiet_env c s \<and> unat (MY_VERIFICATION_TIMEOUT_MS c) + 2 < 2 ^ 32"
     and "length (ticks s) + unat (MY_VERIFICATION_TIMEOUT_MS c) + 2 \<le> n"
  then show "\<exists>s' evs. transportSendRoute (Suc (Suc n)) (transportProcess (Suc m) c) c r s
                         = Ret False s' \<and>
                       trace s' = trace s @ evs \<and> only_nonce_tx evs"
    using nonce_timeout_quiet [OF sign par nid need] by blast
qed

theorem C4_nonce_timeout_witness:
  "ticks node_sign_fail = [5000, 0] \<and>
   (\<exists>s' evs. transportSendRoute (Suc (Suc 5004)) (transportProcess (Suc 0) cfg_signing)
               cfg_signing Ref_msgCaller node_sign_fail = Ret False s' \<and>
             trace s' = trace node_sign_fail @ evs \<and> only_nonce_tx evs)"
proof -
  have a: "MY_SIGNING_FEATURE cfg_signing" "parentNodeId node_sign_fail \<noteq> AUTO"
      "nodeId node_sign_fail \<noteq> AUTO"
      "needs_signing node_sign_fail (get_msg Ref_msgCaller node_sign_fail)"
    by (simp_all add: concrete_defs node_signing_def node_sign_fail_def needs_signing_def)
  have b: "quiet_env cfg_signing node_sign_fail \<and>
           unat (MY_VERIFICATION_TIMEOUT_MS cfg_signing) + 2 < 2 ^ 32"
    by (simp add: concrete_defs node_signing_def node_sign_fail_def quiet_env_def)
  have c: "length (ticks node_sign_fail) + unat (MY_VERIFICATION_TIMEOUT_MS cfg_signing) + 2
             \<le> 5004"
    by (simp add: concrete_defs node_signing_def node_sign_fail_def)
  have d: "ticks node_sign_fail = [5000, 0]"
    by (simp add: node_sign_fail_def)
  from C4_nonce_timeout [OF a] b c d show ?thesis by blast
qed

subsection \<open>transportSendRoute: the signed flag of a message that is not to be signed\<close>

lemma is_prefix_iff: "is_prefix p xs = (\<exists>ys. xs = p @ ys)"
  unfolding is_prefix_def
  by (metis append_eq_conv_conj append_take_drop_id)

lemma is_prefix_append [simp]: "is_prefix p xs \<Longrightarrow> is_prefix p (xs @ ys)"
  by (auto simp: is_prefix_iff)

lemma is_prefix_refl [simp]: "is_prefix p p"
  by (simp add: is_prefix_def)

lemma keeps_mono: "keeps J x \<Longrightarrow> (\<And>s. J s \<Longrightarrow> J' s) \<Longrightarrow> keeps J' x"
  by (simp add: keeps_def)

lemma trace_fields [simp]:
  "trace (emit e s) = trace s @ [e]"
  "trace (snd (hwMillis s)) = trace s"
  "trace (snd (transportSend to m len s)) = trace s @ [Ev_Tx to m len]"
  "trace (put_msg r m s) = trace s"
  by (cases r; simp add: emit_def hwMillis_def transportSend_def split: list.split)+

lemma extends_fields [simp]:
  "is_prefix p (trace s) \<Longrightarrow> is_prefix p (trace (snd (transportSendWrite to r s)))"
  "is_prefix p (trace s) \<Longrightarrow> is_prefix p (trace (snd (signer_answer e s)))"
  "is_prefix p (trace s) \<Longrightarrow> is_prefix p (trace (find_parent_response sender s))"
  "is_prefix p (trace s) \<Longrightarrow> is_prefix p (trace (request_signing_update sender s))"
  "is_prefix p (trace s) \<Longrightarrow> is_prefix p (trace (snd (fw_config_response c s)))"
  "is_prefix p (trace s) \<Longrightarrow> is_prefix p (trace (deliver c s))"
  "is_prefix p (trace s) \<Longrightarrow> is_prefix p (trace (request_fw_block s))"
  "is_prefix p (trace s) \<Longrightarrow> is_prefix p (trace (request_fw_config c s))"
  "is_prefix p (trace s) \<Longrightarrow> is_prefix p (trace (snd (verify_inbound c a b ty s)))"
  "is_prefix p (trace s) \<Longrightarrow> is_prefix p (trace (flash_writeBytes ad bs s))"
  by (cases r; simp add: transportSendWrite_def signer_answer_def
        find_parent_response_def request_signing_update_def fw_config_response_def
        deliver_def request_fw_block_def request_fw_config_def verify_inbound_eq
        flash_blockErase32K_def flash_writeBytes_def Let_def case_prod_beta
        split: list.split)+

lemma wait_loop_extends:
  assumes "\<And>t. trace_extends p t \<Longrightarrow> keeps (trace_extends p) (proc t)"
  shows "trace_extends p s \<Longrightarrow> keeps (trace_extends p) (wait_loop n proc enter ms s)"
proof (induction n arbitrary: s)
  case 0
  then show ?case by simp
next
  case (Suc n)
  have J1: "trace_extends p (snd (hwMillis s))"
    using Suc.prems by (simp add: trace_extends_def)
  show ?case
    unfolding wait_loop.simps Let_def case_prod_beta
    by (intro keeps_if keeps_obind assms Suc.IH) (simp_all add: J1)
qed

lemma wait_extends:
  assumes "\<And>t. trace_extends p t \<Longrightarrow> keeps (trace_extends p) (proc t)"
  shows "trace_extends p s \<Longrightarrow> keeps (trace_extends p) (wait n proc ms s)"
  unfolding wait_def Let_def case_prod_beta
  by (rule wait_loop_extends [OF assms]) (simp_all add: trace_extends_def)

lemma transportFindParentNode_extends:
  assumes "\<And>t. trace_extends p t \<Longrightarrow> keeps (trace_extends p) (proc t)"
  shows "trace_extends p s \<Longrightarrow> keeps (trace_extends p) (transportFindParentNode n proc s)"
  unfolding transportFindParentNode_def Let_def case_prod_beta
  by (intro keeps_if keeps_obind wait_extends [OF assms])
     (simp_all add: trace_extends_def)

lemma transportRequestNodeId_extends:
  assumes "\<And>t. trace_extends p t \<Longrightarrow> keeps (trace_extends p) (proc t)"
  shows "trace_extends p s \<Longrightarrow> keeps (trace_extends p) (transportRequestNodeId n proc s)"
  unfolding transportRequestNodeId_def Let_def case_prod_beta
  by (intro keeps_if keeps_obind wait_extends [OF assms])
     (simp_all add: trace_extends_def)

lemma send_result_extends:
  assumes "\<And>t. trace_extends p t \<Longrightarrow> keeps (trace_extends p) (proc t)"
  shows "trace_extends p s \<Longrightarrow> keeps (trace_extends p) (send_result n proc c ok s)"
  unfolding send_result_def Let_def
  by (intro keeps_if keeps_obind transportFindParentNode_extends [OF assms])
     (simp_all add: trace_extends_def)

lemma route_message_extends:
  assumes "\<And>t. trace_extends p t \<Longrightarrow> keeps (trace_extends p) (proc t)"
  shows "trace_extends p s \<Longrightarrow> keeps (trace_extends p) (route_message n proc c r lastHop s)"
  unfolding route_message_def Let_def case_prod_beta
  by (intro keeps_if keeps_obind send_result_extends [OF assms])
     (simp_all add: trace_extends_def)

lemma nonce_wait_extends:
  assumes "\<And>t. trace_extends p t \<Longrightarrow> keeps (trace_extends p) (proc t)"
  shows "trace_extends p s \<Longrightarrow> keeps (trace_extends p) (nonce_wait n proc c enter s)"
proof (induction n arbitrary: s)
  case 0
  then show ?case by simp
next
  case (Suc n)
  have J1: "trace_extends p (snd (hwMillis s))"
    using Suc.prems by (simp add: trace_extends_def)
  show ?case
    unfolding nonce_wait.simps Let_def case_prod_beta
    by (intro keeps_if keeps_obind assms Suc.IH) (simp_all add: J1)
qed

lemma transportSendRoute_extends:
  assumes "\<And>t. trace_extends p t \<Longrightarrow> keeps (trace_extends p) (proc t)"
  shows "trace_extends p s \<Longrightarrow> keeps (trace_extends p) (transportSendRoute n proc c r s)"
proof (induction n arbitrary: r s)
  case 0
  then show ?case by simp
next
  case (Suc n)
  note J = Suc.prems
  show ?case
    unfolding transportSendRoute.simps Let_def case_prod_beta
    using J
    by (intro keeps_if keeps_obind transportFindParentNode_extends [OF assms]
          transportRequestNodeId_extends [OF assms] route_message_extends [OF assms]
          nonce_wait_extends [OF assms] Suc.IH)
       (simp_all add: trace_extends_def)
qed

lemma fw_response_extends:
  "trace_extends p s \<Longrightarrow> keeps (trace_extends p) (fw_response c s)"
  unfolding fw_response_def Let_def
  by (intro keeps_if) (simp_all add: trace_extends_def emit_def)

lemma transportPresentNode_extends:
  assumes "\<And>t. trace_extends p t \<Longrightarrow> keeps (trace_extends p) (proc t)"
  shows "trace_extends p s \<Longrightarrow> keeps (trace_extends p) (transportPresentNode n proc c s)"
  unfolding transportPresentNode_def Let_def
  by (intro keeps_if keeps_obind wait_extends [OF assms] transportSendRoute_extends [OF assms])
     (simp_all add: trace_extends_def)

lemma process_local_extends:
  assumes "\<And>t. trace_extends p t \<Longrightarrow> keeps (trace_extends p) (proc t)"
  shows "trace_extends p s \<Longrightarrow>
         keeps (trace_extends p) (process_local n proc c command type sender s)"
  unfolding process_local_def Let_def case_prod_beta
  by (intro keeps_if keeps_obind transportSendRoute_extends [OF assms]
        transportPresentNode_extends [OF assms] fw_response_extends)
     (simp_all add: trace_extends_def)

lemma process_relay_extends:
  assumes "\<And>t. trace_extends p t \<Longrightarrow> keeps (trace_extends p) (proc t)"
  shows "trace_extends p s \<Longrightarrow>
         keeps (trace_extends p) (process_relay n proc c to command type sender lastHop destination s)"
  unfolding process_relay_def Let_def case_prod_beta
  by (intro keeps_if keeps_obind transportSendRoute_extends [OF assms]
        transportFindParentNode_extends [OF assms] wait_extends [OF assms])
     (simp_all add: trace_extends_def)

lemma process_idle_extends:
  assumes "\<And>t. trace_extends p t \<Longrightarrow> keeps (trace_extends p) (proc t)"
  shows "trace_extends p s \<Longrightarrow> keeps (trace_extends p) (process_idle n proc c s)"
  unfolding process_idle_def Let_def case_prod_beta
  by (intro keeps_if keeps_obind transportSendRoute_extends [OF assms])
     (simp_all add: trace_extends_def)

lemma process_frame_extends:
  assumes "\<And>t. trace_extends p t \<Longrightarrow> keeps (trace_extends p) (proc t)"
  shows "trace_extends p s \<Longrightarrow> keeps (trace_extends p) (process_frame n proc c to frame s)"
  unfolding process_frame_eq Let_def
  by (intro keeps_if keeps_obind transportSendRoute_extends [OF assms]
        process_local_extends [OF assms] process_relay_extends [OF assms])
     (simp_all add: trace_extends_def frame_received_def route_learned_def)

lemma transportProcess_extends:
  "trace_extends p s \<Longrightarrow> keeps (trace_extends p) (transportProcess n c s)"
proof (induction n arbitrary: p s)
  case 0
  then show ?case by simp
next
  case (Suc n)
  show ?case
  proof (cases "radio_rx s")
    case Nil
    with Suc.prems show ?thesis
      by (simp add: transportAvailable_def process_idle_extends [OF Suc.IH])
  next
    case (Cons x rest)
    have J0: "trace_extends p (s\<lparr>radio_rx := rest\<rparr>)"
      using Suc.prems by (simp add: trace_extends_def)
    show ?thesis
    proof (cases x)
      case None
      with Cons J0 show ?thesis
        by (simp add: transportAvailable_def process_idle_extends [OF Suc.IH])
    next
      case (Some tf)
      obtain to frame where tf: "tf = (to, frame)" by (cases tf)
      from Cons Some tf show ?thesis
        by (simp add: transportAvailable_def process_frame_extends [OF Suc.IH J0])
    qed
  qed
qed



lemma transportSendWrite_trace:
  "trace (snd (transportSendWrite hop r t))
     = trace t @ [Ev_BlinkTx,
                  Ev_Tx hop ((get_msg r t)\<lparr>mVersion := PROTOCOL_VERSION, mLast := nodeId t\<rparr>)
                    (min MAX_MESSAGE_LENGTH
                       (HEADER_SIZE + (if mSigned (get_msg r t) then MAX_MESSAGE_LENGTH
                                       else unat (mLength (get_msg r t)))))]"
  by (cases r) (simp_all add: transportSendWrite_def Let_def case_prod_beta)

lemma first_tx_write:
  assumes "keeps (trace_extends (trace (snd (transportSendWrite hop r t)))) out"
      and "get_msg r t = get_msg r s" "nodeId t = nodeId s" "trace t = trace s"
      and "f = (get_msg r s)\<lparr>mVersion := PROTOCOL_VERSION, mLast := nodeId s\<rparr>"
      and "len = min MAX_MESSAGE_LENGTH
                   (HEADER_SIZE + (if mSigned (get_msg r s) then MAX_MESSAGE_LENGTH
                                   else unat (mLength (get_msg r s))))"
  shows "keeps (first_tx f len s) out"
proof (rule keeps_mono [OF assms(1)])
  fix s' assume "trace_extends (trace (snd (transportSendWrite hop r t))) s'"
  then have "trace_extends (trace s @ [Ev_BlinkTx, Ev_Tx hop f len]) s'"
    unfolding transportSendWrite_trace assms(2,3,4) assms(5) [symmetric] assms(6) [symmetric] .
  then show "first_tx f len s s'" unfolding first_tx_def by blast
qed

lemma route_message_first_tx:
  assumes proc: "\<And>p t. trace_extends p t \<Longrightarrow> keeps (trace_extends p) (proc t)"
      and f: "f = (get_msg r s)\<lparr>mVersion := PROTOCOL_VERSION, mLast := nodeId s\<rparr>"
      and len: "len = min MAX_MESSAGE_LENGTH
                   (HEADER_SIZE + (if mSigned (get_msg r s) then MAX_MESSAGE_LENGTH
                                   else unat (mLength (get_msg r s))))"
  shows "keeps (first_tx f len s) (route_message n proc c r lastHop s)"
proof -
  have g: "get_msg r (s\<lparr>routes := rt\<rparr>) = get_msg r s" for rt by (cases r) simp_all
  have sr: "keeps (trace_extends (trace t)) (send_result n proc c ok t)" for ok t
    by (rule send_result_extends [OF proc]) (simp_all add: trace_extends_def)
  have sr2: "keeps (trace_extends (trace t)) (send_result n proc c ok (t\<lparr>routes := rt\<rparr>))"
    for ok t rt
    by (rule send_result_extends [OF proc]) (simp_all add: trace_extends_def)
  have rt: "keeps (trace_extends (trace t)) (Ret ok t)" for ok :: bool and t
    by (simp add: trace_extends_def)
  have no: "keeps (first_tx f len s) (Ret False s)"
    by (simp add: first_tx_def)
  show ?thesis
    unfolding route_message_def Let_def case_prod_beta
    by (intro keeps_if no;
        (rule first_tx_write [OF sr _ _ _ f len] first_tx_write [OF sr2 _ _ _ f len]
              first_tx_write [OF rt _ _ _ f len]); simp add: g)
qed

lemma transportSendRoute_cleared:
  assumes sign: "MY_SIGNING_FEATURE c" and par: "parentNodeId s \<noteq> AUTO"
      and nid: "nodeId s \<noteq> AUTO" and own: "mSender (get_msg r s) = nodeId s"
      and skip: "\<not> needs_signing s (get_msg r s)"
  shows "transportSendRoute (Suc n) proc c r s
           = route_message n proc c r (mLast (get_msg r s))
               (put_msg r ((get_msg r s)\<lparr>mVersion := PROTOCOL_VERSION, mSigned := False\<rparr>) s)"
proof -
  have ns: "\<not> needs_signing (put_msg r ((get_msg r s)\<lparr>mVersion := PROTOCOL_VERSION\<rparr>) s)
              (get_msg r (put_msg r ((get_msg r s)\<lparr>mVersion := PROTOCOL_VERSION\<rparr>) s))"
    using skip by (simp add: needs_signing_stamped)
  show ?thesis
    unfolding transportSendRoute.simps Let_def
    using sign par nid own ns by (cases r) simp_all
qed

text \<open>
  C10: lines 411 to 450 are the signing decision of a build with the signing feature. When
  the node has a parent and an id (so that the send reaches line 411), every message whose
  sender is this node and that does not enter the signing coordinator (the destination is
  not marked sign-required, or the message is an ack or a handshake message) has its
  signed flag cleared before the next hop is chosen, whatever the caller had set: the call
  goes on as \<open>route_message\<close> on the message with the flag cleared. Hence whatever the call
  ends in, its trace is the one before (a gateway without a route sends nothing) or goes on
  with the transmission of that message with the signed bit clear and its exact length.
\<close>

theorem C10_signed_flag_cleared:
  assumes sign: "MY_SIGNING_FEATURE c" and par: "parentNodeId s \<noteq> AUTO"
      and nid: "nodeId s \<noteq> AUTO" and own: "mSender (get_msg r s) = nodeId s"
      and skip: "\<not> needs_signing s (get_msg r s)"
  shows "transportSendRoute (Suc n) proc c r s
           = route_message n proc c r (mLast (get_msg r s))
               (put_msg r ((get_msg r s)\<lparr>mVersion := PROTOCOL_VERSION, mSigned := False\<rparr>) s) \<and>
         (\<forall>m s'. final_state (transportSendRoute (Suc n) (transportProcess m c) c r s) = Some s'
            \<longrightarrow> trace s' = trace s \<or>
                (\<exists>hop rest. trace s' = trace s @
                   [Ev_BlinkTx,
                    Ev_Tx hop ((get_msg r s)\<lparr>mLast := nodeId s, mSigned := False,
                                               mVersion := PROTOCOL_VERSION\<rparr>)
                      (min MAX_MESSAGE_LENGTH (HEADER_SIZE + unat (mLength (get_msg r s))))]
                   @ rest))"
proof (intro conjI allI impI)
  show "transportSendRoute (Suc n) proc c r s
           = route_message n proc c r (mLast (get_msg r s))
               (put_msg r ((get_msg r s)\<lparr>mVersion := PROTOCOL_VERSION, mSigned := False\<rparr>) s)"
    by (rule transportSendRoute_cleared [OF assms])
next
  fix m s'
  assume fin: "final_state (transportSendRoute (Suc n) (transportProcess m c) c r s) = Some s'"
  define s1 where
    "s1 = put_msg r ((get_msg r s)\<lparr>mVersion := PROTOCOL_VERSION, mSigned := False\<rparr>) s"
  define f where "f = (get_msg r s)\<lparr>mLast := nodeId s, mSigned := False,
                                     mVersion := PROTOCOL_VERSION\<rparr>"
  define len where "len = min MAX_MESSAGE_LENGTH (HEADER_SIZE + unat (mLength (get_msg r s)))"
  have s1: "trace s1 = trace s" "nodeId s1 = nodeId s"
      "get_msg r s1 = (get_msg r s)\<lparr>mVersion := PROTOCOL_VERSION, mSigned := False\<rparr>"
    by (cases r; simp add: s1_def)+
  have eq: "transportSendRoute (Suc n) (transportProcess m c) c r s
              = route_message n (transportProcess m c) c r (mLast (get_msg r s)) s1"
    unfolding s1_def by (rule transportSendRoute_cleared [OF assms])
  have "keeps (first_tx f len s1) (route_message n (transportProcess m c) c r (mLast (get_msg r s)) s1)"
    by (rule route_message_first_tx [OF transportProcess_extends])
       (simp_all add: s1 f_def len_def)
  with fin have "first_tx f len s1 s'"
    unfolding eq keeps_def by blast
  then show "trace s' = trace s \<or>
                (\<exists>hop rest. trace s' = trace s @
                   [Ev_BlinkTx,
                    Ev_Tx hop ((get_msg r s)\<lparr>mLast := nodeId s, mSigned := False,
                                               mVersion := PROTOCOL_VERSION\<rparr>)
                      (min MAX_MESSAGE_LENGTH (HEADER_SIZE + unat (mLength (get_msg r s))))]
                   @ rest)"
    unfolding first_tx_def trace_extends_def is_prefix_iff s1(1) f_def len_def by auto
qed

theorem C10_signed_flag_cleared_witness:
  "mSigned (msgCaller node_c10) \<and>
   transportSendRoute (Suc 0) (transportProcess 0 cfg_signing) cfg_signing
       Ref_msgCaller node_c10
     = Ret True (node_c10\<lparr>msgCaller := msg0\<lparr>mLast := 10, mSender := 10, mCommand := C_SET\<rparr>,
                         trace := [Ev_BlinkTx,
                                   Ev_Tx 1 (msg0\<lparr>mLast := 10, mSender := 10,
                                                 mCommand := C_SET\<rparr>) 7]\<rparr>)"
  using C10_signed_flag_cleared [of cfg_signing node_c10 Ref_msgCaller 0
      "transportProcess 0 cfg_signing", THEN conjunct1]
  by (simp add: concrete_defs node_c10_def needs_signing_def route_message_def
        transportSendWrite_def transportSend_def send_result_def emit_def Let_def)

subsection \<open>transportFindParentNode: the reentrancy guard\<close>

lemma searching_fields [simp]:
  "findingParentNode (emit e s) = findingParentNode s"
  "findingParentNode (snd (hwMillis s)) = findingParentNode s"
  "findingParentNode (snd (transportSend to m len s)) = findingParentNode s"
  "findingParentNode (put_msg r m s) = findingParentNode s"
  "findingParentNode (snd (transportSendWrite to r s)) = findingParentNode s"
  "findingParentNode (snd (signer_answer e s)) = findingParentNode s"
  "findingParentNode (find_parent_response sender s) = findingParentNode s"
  "findingParentNode (request_signing_update sender s) = findingParentNode s"
  "findingParentNode (snd (fw_config_response c s)) = findingParentNode s"
  "findingParentNode (deliver c s) = findingParentNode s"
  "findingParentNode (request_fw_block s) = findingParentNode s"
  "findingParentNode (request_fw_config c s) = findingParentNode s"
  "findingParentNode (snd (verify_inbound c a b ty s)) = findingParentNode s"
  "findingParentNode (flash_writeBytes ad bs s) = findingParentNode s"
  by (cases r; simp add: emit_def hwMillis_def transportSend_def transportSendWrite_def
        signer_answer_def find_parent_response_def request_signing_update_def
        fw_config_response_def deliver_def request_fw_block_def request_fw_config_def
        verify_inbound_eq flash_blockErase32K_def flash_writeBytes_def Let_def case_prod_beta
        split: list.split)+

lemma wait_loop_searching:
  assumes "\<And>t. findingParentNode t \<Longrightarrow> keeps findingParentNode (proc t)"
  shows "findingParentNode s \<Longrightarrow> keeps findingParentNode (wait_loop n proc enter ms s)"
proof (induction n arbitrary: s)
  case 0
  then show ?case by simp
next
  case (Suc n)
  have J1: "findingParentNode (snd (hwMillis s))"
    using Suc.prems by (simp add: Let_def )
  show ?case
    unfolding wait_loop.simps Let_def case_prod_beta
    by (intro keeps_if keeps_obind assms Suc.IH) (simp_all add: Suc.prems)
qed

lemma wait_searching:
  assumes "\<And>t. findingParentNode t \<Longrightarrow> keeps findingParentNode (proc t)"
  shows "findingParentNode s \<Longrightarrow> keeps findingParentNode (wait n proc ms s)"
  unfolding wait_def Let_def case_prod_beta
  by (rule wait_loop_searching [OF assms]) (simp_all add: Let_def )

lemma transportFindParentNode_searching:
  assumes "\<And>t. findingParentNode t \<Longrightarrow> keeps findingParentNode (proc t)"
  shows "findingParentNode s \<Longrightarrow> keeps findingParentNode (transportFindParentNode n proc s)"
  unfolding transportFindParentNode_def Let_def case_prod_beta
  by (intro keeps_if keeps_obind wait_searching [OF assms])
     (simp_all add: Let_def )

lemma transportRequestNodeId_searching:
  assumes "\<And>t. findingParentNode t \<Longrightarrow> keeps findingParentNode (proc t)"
  shows "findingParentNode s \<Longrightarrow> keeps findingParentNode (transportRequestNodeId n proc s)"
  unfolding transportRequestNodeId_def Let_def case_prod_beta
  by (intro keeps_if keeps_obind wait_searching [OF assms])
     (simp_all add: Let_def )

lemma send_result_searching:
  assumes "\<And>t. findingParentNode t \<Longrightarrow> keeps findingParentNode (proc t)"
  shows "findingParentNode s \<Longrightarrow> keeps findingParentNode (send_result n proc c ok s)"
  unfolding send_result_def Let_def
  by (intro keeps_if keeps_obind transportFindParentNode_searching [OF assms])
     (simp_all add: Let_def )

lemma route_message_searching:
  assumes "\<And>t. findingParentNode t \<Longrightarrow> keeps findingParentNode (proc t)"
  shows "findingParentNode s \<Longrightarrow> keeps findingParentNode (route_message n proc c r lastHop s)"
  unfolding route_message_def Let_def case_prod_beta
  by (intro keeps_if keeps_obind send_result_searching [OF assms])
     (simp_all add: Let_def )

lemma nonce_wait_searching:
  assumes "\<And>t. findingParentNode t \<Longrightarrow> keeps findingParentNode (proc t)"
  shows "findingParentNode s \<Longrightarrow> keeps findingParentNode (nonce_wait n proc c enter s)"
proof (induction n arbitrary: s)
  case 0
  then show ?case by simp
next
  case (Suc n)
  have J1: "findingParentNode (snd (hwMillis s))"
    using Suc.prems by (simp add: Let_def )
  show ?case
    unfolding nonce_wait.simps Let_def case_prod_beta
    by (intro keeps_if keeps_obind assms Suc.IH) (simp_all add: Suc.prems)
qed

lemma transportSendRoute_searching:
  assumes "\<And>t. findingParentNode t \<Longrightarrow> keeps findingParentNode (proc t)"
  shows "findingParentNode s \<Longrightarrow> keeps findingParentNode (transportSendRoute n proc c r s)"
proof (induction n arbitrary: r s)
  case 0
  then show ?case by simp
next
  case (Suc n)
  note J = Suc.prems
  show ?case
    unfolding transportSendRoute.simps Let_def case_prod_beta
    using J
    by (intro keeps_if keeps_obind transportFindParentNode_searching [OF assms]
          transportRequestNodeId_searching [OF assms] route_message_searching [OF assms]
          nonce_wait_searching [OF assms] Suc.IH)
       (simp_all add: Let_def )
qed

lemma fw_response_searching:
  "findingParentNode s \<Longrightarrow> keeps findingParentNode (fw_response c s)"
  unfolding fw_response_def Let_def
  by (intro keeps_if) (simp_all add: Let_def emit_def)

lemma transportPresentNode_searching:
  assumes "\<And>t. findingParentNode t \<Longrightarrow> keeps findingParentNode (proc t)"
  shows "findingParentNode s \<Longrightarrow> keeps findingParentNode (transportPresentNode n proc c s)"
  unfolding transportPresentNode_def Let_def
  by (intro keeps_if keeps_obind wait_searching [OF assms] transportSendRoute_searching [OF assms])
     (simp_all add: Let_def )

lemma process_local_searching:
  assumes "\<And>t. findingParentNode t \<Longrightarrow> keeps findingParentNode (proc t)"
  shows "findingParentNode s \<Longrightarrow>
         keeps findingParentNode (process_local n proc c command type sender s)"
  unfolding process_local_def Let_def case_prod_beta
  by (intro keeps_if keeps_obind transportSendRoute_searching [OF assms]
        transportPresentNode_searching [OF assms] fw_response_searching)
     (simp_all add: Let_def )

lemma process_relay_searching:
  assumes "\<And>t. findingParentNode t \<Longrightarrow> keeps findingParentNode (proc t)"
  shows "findingParentNode s \<Longrightarrow>
         keeps findingParentNode (process_relay n proc c to command type sender lastHop destination s)"
  unfolding process_relay_def Let_def case_prod_beta
  by (intro keeps_if keeps_obind transportSendRoute_searching [OF assms]
        transportFindParentNode_searching [OF assms] wait_searching [OF assms])
     (simp_all add: Let_def )

lemma process_idle_searching:
  assumes "\<And>t. findingParentNode t \<Longrightarrow> keeps findingParentNode (proc t)"
  shows "findingParentNode s \<Longrightarrow> keeps findingParentNode (process_idle n proc c s)"
  unfolding process_idle_def Let_def case_prod_beta
  by (intro keeps_if keeps_obind transportSendRoute_searching [OF assms])
     (simp_all add: Let_def )

lemma process_frame_searching:
  assumes "\<And>t. findingParentNode t \<Longrightarrow> keeps findingParentNode (proc t)"
  shows "findingParentNode s \<Longrightarrow> keeps findingParentNode (process_frame n proc c to frame s)"
  unfolding process_frame_eq Let_def
  by (intro keeps_if keeps_obind transportSendRoute_searching [OF assms]
        process_local_searching [OF assms] process_relay_searching [OF assms])
     (simp_all add: Let_def frame_received_def route_learned_def)

lemma transportProcess_searching:
  "findingParentNode s \<Longrightarrow> keeps findingParentNode (transportProcess n c s)"
proof (induction n arbitrary: s)
  case 0
  then show ?case by simp
next
  case (Suc n)
  show ?case
  proof (cases "radio_rx s")
    case Nil
    with Suc.prems show ?thesis
      by (simp add: transportAvailable_def process_idle_searching [OF Suc.IH])
  next
    case (Cons x rest)
    have J0: "findingParentNode (s\<lparr>radio_rx := rest\<rparr>)"
      using Suc.prems by (simp add: Let_def )
    show ?thesis
    proof (cases x)
      case None
      with Cons J0 show ?thesis
        by (simp add: transportAvailable_def process_idle_searching [OF Suc.IH])
    next
      case (Some tf)
      obtain to frame where tf: "tf = (to, frame)" by (cases tf)
      from Cons Some tf show ?thesis
        by (simp add: transportAvailable_def process_frame_searching [OF Suc.IH J0])
    qed
  qed
qed





lemma wait_loop_guarded:
  assumes "\<And>t. findingParentNode t \<Longrightarrow> keeps findingParentNode (proc t)"
  shows "findingParentNode s \<Longrightarrow>
         wait_loop n proc enter ms s
           = wait_loop n (\<lambda>t. if findingParentNode t then proc t else q t) enter ms s"
proof (induction n arbitrary: s)
  case 0
  then show ?case by simp
next
  case (Suc n)
  have f1: "findingParentNode (snd (hwMillis s))" using Suc.prems by simp
  have "obind (proc (snd (hwMillis s))) (\<lambda>u s2. wait_loop n proc enter ms s2)
          = obind (proc (snd (hwMillis s)))
              (\<lambda>u s2. wait_loop n (\<lambda>t. if findingParentNode t then proc t else q t) enter ms s2)"
    by (rule obind_keeps_cong [OF assms [OF f1]]) (rule Suc.IH)
  then show ?case
    using Suc.prems by (simp add: case_prod_beta Let_def)
qed

text \<open>
  C8: a call of transportFindParentNode while a previous invocation is in progress is a
  no-op. The function-static flag findingParentNode decides: a call that finds it set
  returns at once and leaves the whole state as it is (failed_transmissions is not reset,
  the distance is not set to 255, nothing is broadcast). A running invocation sets the flag
  before it broadcasts and waits; during the wait the processing loop is entered in states
  with the flag set only (the call does not depend on what the loop would do elsewhere),
  and the loop, whatever it receives, ends with the flag set. So a failed send in the loop
  counts the failure and starts no search, and a send of a node without a parent fails at
  once.
\<close>

theorem C8_find_parent_reentrant:
  "(findingParentNode s \<longrightarrow> transportFindParentNode n proc s = Ret () s) \<and>
   (\<not> findingParentNode s \<longrightarrow>
      findingParentNode (find_parent_started s) \<and>
      (\<forall>q. transportFindParentNode n (transportProcess m c) s
             = obind (wait n (\<lambda>t. if findingParentNode t then transportProcess m c t else q t)
                        2000 (find_parent_started s))
                 (\<lambda>u s6. Ret () (s6\<lparr>findingParentNode := False\<rparr>)))) \<and>
   (\<forall>t. findingParentNode t \<longrightarrow> keeps findingParentNode (transportProcess m c t)) \<and>
   (\<forall>t ok. findingParentNode t \<longrightarrow>
      send_result n proc c ok t
        = Ret ok (if ok then t\<lparr>failedTransmissions := 0\<rparr>
                  else (emit Ev_BlinkErr t)\<lparr>failedTransmissions := failedTransmissions t + 1\<rparr>)) \<and>
   (\<forall>t r. findingParentNode t \<longrightarrow> parentNodeId t = AUTO \<longrightarrow>
      transportSendRoute (Suc n) proc c r t = Ret False (emit Ev_BlinkErr t))"
proof (intro conjI impI allI)
  assume "findingParentNode s"
  then show "transportFindParentNode n proc s = Ret () s"
    by (simp add: transportFindParentNode_def)
next
  show "findingParentNode (find_parent_started s)"
    by (simp add: find_parent_started_def)
next
  fix q
  assume nf: "\<not> findingParentNode s"
  have st: "findingParentNode (snd (hwMillis (find_parent_started s)))"
    by (simp add: find_parent_started_def)
  have "wait n (transportProcess m c) 2000 (find_parent_started s)
          = wait n (\<lambda>t. if findingParentNode t then transportProcess m c t else q t) 2000
              (find_parent_started s)"
    unfolding wait_def Let_def case_prod_beta
    by (rule wait_loop_guarded [OF transportProcess_searching st])
  then show "transportFindParentNode n (transportProcess m c) s
             = obind (wait n (\<lambda>t. if findingParentNode t then transportProcess m c t else q t)
                        2000 (find_parent_started s))
                 (\<lambda>u s6. Ret () (s6\<lparr>findingParentNode := False\<rparr>))"
    using nf
    by (simp add: transportFindParentNode_def find_parent_started_def Let_def case_prod_beta)
next
  fix t :: node
  assume "findingParentNode t"
  then show "keeps findingParentNode (transportProcess m c t)"
    by (rule transportProcess_searching)
next
  fix t :: node and ok :: bool
  assume "findingParentNode t"
  then show "send_result n proc c ok t
        = Ret ok (if ok then t\<lparr>failedTransmissions := 0\<rparr>
                  else (emit Ev_BlinkErr t)\<lparr>failedTransmissions := failedTransmissions t + 1\<rparr>)"
    by (simp add: send_result_def transportFindParentNode_def Let_def emit_def)
next
  fix t :: node and r :: msgref
  assume "findingParentNode t" "parentNodeId t = AUTO"
  then show "transportSendRoute (Suc n) proc c r t = Ret False (emit Ev_BlinkErr t)"
    by (simp add: transportFindParentNode_def)
qed

theorem C8_find_parent_reentrant_witness:
  "\<not> findingParentNode node_c8 \<and> parentNodeId node_c8 = AUTO \<and>
   transportFindParentNode (Suc (Suc 0)) (transportProcess (Suc (Suc 0)) cfg0) node_c8
     = Ret () (node_c8\<lparr>distance := 255, failedTransmissions := 0,
                       msg := frame_set\<lparr>mRequestAck := True\<rparr>,
                       msgTmp := frame_set\<lparr>mRequestAck := False, mAck := True, mSender := 10,
                                           mDestination := 20\<rparr>,
                       radio_rx := [], millis := 2001, ticks := [],
                       trace := [Ev_BlinkTx,
                                 Ev_Tx 255 (set_str_empty
                                              (build msg0 10 BROADCAST_ADDRESS NODE_SENSOR_ID
                                                 C_INTERNAL I_FIND_PARENT False)
                                            \<lparr>mLast := 10\<rparr>) 7,
                                 Ev_BlinkRx, Ev_BlinkErr,
                                 Ev_Receive (frame_set\<lparr>mRequestAck := True\<rparr>)]\<rparr>)"
proof -
  have nf: "\<not> findingParentNode node_c8" by (simp add: node_c8_def concrete_defs)
  note C8_find_parent_reentrant [of node_c8 "Suc (Suc 0)" "transportProcess (Suc (Suc 0)) cfg0"
      "Suc (Suc 0)" cfg0, THEN conjunct2, THEN conjunct1, THEN mp, OF nf, THEN conjunct2]
  then have "transportFindParentNode (Suc (Suc 0)) (transportProcess (Suc (Suc 0)) cfg0) node_c8
          = obind (wait (Suc (Suc 0))
                     (\<lambda>t. if findingParentNode t then transportProcess (Suc (Suc 0)) cfg0 t
                          else OutOfFuel)
                     2000 (find_parent_started node_c8))
              (\<lambda>u s6. Ret () (s6\<lparr>findingParentNode := False\<rparr>))"
    by (rule spec)
  also have "\<dots> = Ret () (node_c8\<lparr>distance := 255, failedTransmissions := 0,
                       msg := frame_set\<lparr>mRequestAck := True\<rparr>,
                       msgTmp := frame_set\<lparr>mRequestAck := False, mAck := True, mSender := 10,
                                           mDestination := 20\<rparr>,
                       radio_rx := [], millis := 2001, ticks := [],
                       trace := [Ev_BlinkTx,
                                 Ev_Tx 255 (set_str_empty
                                              (build msg0 10 BROADCAST_ADDRESS NODE_SENSOR_ID
                                                 C_INTERNAL I_FIND_PARENT False)
                                            \<lparr>mLast := 10\<rparr>) 7,
                                 Ev_BlinkRx, Ev_BlinkErr,
                                 Ev_Receive (frame_set\<lparr>mRequestAck := True\<rparr>)]\<rparr>)"
    by (simp add: concrete_defs node_c8_def find_parent_started_def model_defs Let_def
          cong: eval_congs)
  finally show ?thesis using nf by (simp add: node_c8_def)
qed

subsection \<open>transportProcess: route learning on a repeater\<close>

lemma through_if:
  "(b \<Longrightarrow> through r lh t x) \<Longrightarrow> (\<not> b \<Longrightarrow> through r lh t y)
     \<Longrightarrow> through r lh t (if b then x else y)"
  by simp

lemma transportSendWrite_through:
  "nodeId (snd (transportSendWrite hop r t)) = nodeId t"
  "parentNodeId (snd (transportSendWrite hop r t)) = parentNodeId t"
  "autoFindParent (snd (transportSendWrite hop r t)) = autoFindParent t"
  "routes (snd (transportSendWrite hop r t)) = routes t"
  "no_search t \<Longrightarrow> no_search (snd (transportSendWrite hop r t))"
  "no_search t \<Longrightarrow> fst (transportSendWrite hop r t) \<or> \<not> autoFindParent t"
  "r \<noteq> Ref_msg \<Longrightarrow> msg (snd (transportSendWrite hop r t)) = msg t"
  by (cases r; auto simp: transportSendWrite_def transportSend_def emit_def Let_def no_search_def
        split: list.split)+

lemma send_result_through:
  assumes "ok \<or> \<not> autoFindParent s1" and "no_search s1"
  shows "\<exists>s'. send_result k proc c ok s1 = Ret ok s' \<and> nodeId s' = nodeId s1 \<and>
           parentNodeId s' = parentNodeId s1 \<and> no_search s' \<and> routes s' = routes s1 \<and>
           msg s' = msg s1"
  using assms
  by (cases ok) (auto simp: send_result_def Let_def emit_def no_search_def)


lemma through_send:
  assumes ns: "no_search t'" and rel: "nodeId t' = nodeId t" "parentNodeId t' = parentNodeId t"
        "msg t' = msg t"
      and rts: "routes t' = routes t \<or> routes t' = (routes t)(mSender (get_msg r t) := lh)"
  shows "through r lh t (send_result k proc c (fst (transportSendWrite hop r t'))
                           (snd (transportSendWrite hop r t')))"
proof -
  let ?W = "transportSendWrite hop r t'"
  have a: "fst ?W \<or> \<not> autoFindParent (snd ?W)"
    using transportSendWrite_through(6) [OF ns, of hop r] by (simp add: transportSendWrite_through)
  from send_result_through [OF a transportSendWrite_through(5) [OF ns], of k proc c]
  obtain s' where s': "send_result k proc c (fst ?W) (snd ?W) = Ret (fst ?W) s'"
      "nodeId s' = nodeId (snd ?W)" "parentNodeId s' = parentNodeId (snd ?W)"
      "no_search s'" "routes s' = routes (snd ?W)" "msg s' = msg (snd ?W)"
    by blast
  show ?thesis
    unfolding through_def
    using s' rel rts by (auto simp: transportSendWrite_through)
qed

lemma through_send_learn:
  assumes ns: "no_search t"
  shows "through r lh t
           (send_result k proc c (fst (transportSendWrite hop r t))
              ((snd (transportSendWrite hop r t))
                 \<lparr>routes := (routes (snd (transportSendWrite hop r t)))
                              (mSender (get_msg r t) := lh)\<rparr>))"
proof -
  let ?W = "transportSendWrite hop r t"
  let ?s2 = "(snd ?W)\<lparr>routes := (routes (snd ?W))(mSender (get_msg r t) := lh)\<rparr>"
  have a: "fst ?W \<or> \<not> autoFindParent ?s2"
    using transportSendWrite_through(6) [OF ns, of hop r] by (simp add: transportSendWrite_through)
  have b: "no_search ?s2"
    using transportSendWrite_through(5) [OF ns, of hop r] by (simp add: no_search_def)
  from send_result_through [OF a b, of k proc c]
  obtain s' where s': "send_result k proc c (fst ?W) ?s2 = Ret (fst ?W) s'"
      "nodeId s' = nodeId ?s2" "parentNodeId s' = parentNodeId ?s2"
      "no_search s'" "routes s' = routes ?s2" "msg s' = msg ?s2"
    by blast
  show ?thesis
    unfolding through_def
    using s' by (auto simp: transportSendWrite_through)
qed

lemma through_ret:
  assumes ns: "no_search t"
  shows "through r lh t (Ret (fst (transportSendWrite hop r t)) (snd (transportSendWrite hop r t)))"
    and "through r lh t (Ret False t)"
  using ns transportSendWrite_through(5) [OF ns, of hop r]
  by (auto simp: through_def transportSendWrite_through)

lemma route_message_through:
  assumes ns: "no_search t"
  shows "through r lh t (route_message k proc c r lh t)"
proof -
  have g: "get_msg r (t\<lparr>routes := rt\<rparr>) = get_msg r t" for rt by (cases r) simp_all
  have ns1: "no_search (t\<lparr>routes := rt\<rparr>)" for rt using ns by (simp add: no_search_def)
  show ?thesis
    unfolding route_message_def Let_def case_prod_beta
    by (intro through_if through_ret [OF ns] through_send_learn [OF ns]
          through_send [OF ns] through_send [OF ns1])
       (simp_all add: g)
qed


lemma through_put:
  "through r lh (put_msg r m t) out \<Longrightarrow> mSender m = mSender (get_msg r t) \<Longrightarrow>
   through r lh t out"
  by (cases r) (simp_all add: through_def)

lemma no_search_put [simp]: "no_search (put_msg r m t) = no_search t"
  by (cases r) (simp_all add: no_search_def)

lemma transportSendRoute_through:
  assumes par: "parentNodeId t \<noteq> AUTO" and nid: "nodeId t \<noteq> AUTO" and ns: "no_search t"
      and exempt: "mAck (get_msg r t) \<or>
                   (mCommand (get_msg r t) = C_INTERNAL \<and> handshake_type (mType (get_msg r t)))"
  shows "through r (mLast (get_msg r t)) t (transportSendRoute (Suc k) proc c r t)"
proof -
  let ?m = "get_msg r t"
  let ?t1 = "put_msg r (?m\<lparr>mVersion := PROTOCOL_VERSION\<rparr>) t"
  let ?t2 = "put_msg r (?m\<lparr>mVersion := PROTOCOL_VERSION, mSigned := False\<rparr>) t"
  have nn: "\<not> needs_signing ?t1 (get_msg r ?t1)"
    unfolding needs_signing_stamped using exempt by (auto simp: needs_signing_def)
  have f: "parentNodeId ?t1 = parentNodeId t" "nodeId ?t1 = nodeId t"
      "get_msg r ?t1 = ?m\<lparr>mVersion := PROTOCOL_VERSION\<rparr>"
    by (cases r; simp)+
  have p2: "put_msg r m (put_msg r m' t) = put_msg r m t" for m m'
    by (cases r) simp_all
  have eq: "transportSendRoute (Suc k) proc c r t
              = route_message k proc c r (mLast ?m) ?t1 \<or>
            transportSendRoute (Suc k) proc c r t
              = route_message k proc c r (mLast ?m) ?t2"
    unfolding transportSendRoute.simps Let_def
    using par nid nn by (simp add: f p2)
  have "through r (mLast ?m) ?t1 (route_message k proc c r (mLast ?m) ?t1)"
    by (rule route_message_through) (simp add: ns)
  then have a: "through r (mLast ?m) t (route_message k proc c r (mLast ?m) ?t1)"
    by (rule through_put) simp
  have "through r (mLast ?m) ?t2 (route_message k proc c r (mLast ?m) ?t2)"
    by (rule route_message_through) (simp add: ns)
  then have b: "through r (mLast ?m) t (route_message k proc c r (mLast ?m) ?t2)"
    by (rule through_put) simp
  from eq a b show ?thesis by auto
qed


lemma fw_response_total: "final_state (fw_response c s) \<noteq> None"
  by (simp add: fw_response_def Let_def)

lemma process_local_total:
  assumes "\<not> (command = C_INTERNAL \<and>
              ((MY_SIGNING_FEATURE c \<and> type = I_GET_NONCE) \<or>
               (MY_SIGNING_FEATURE c \<and> MY_GATEWAY_FEATURE c \<and> type = I_REQUEST_SIGNING) \<or>
               (type = I_ID_RESPONSE \<and> sender = GATEWAY_ADDRESS \<and> nodeId s = AUTO)))"
  shows "final_state (process_local n proc c command type sender s) \<noteq> None"
proof (cases "command = C_INTERNAL")
  case True
  show ?thesis
  proof (cases "type = I_FIND_PARENT_RESPONSE")
    case True
    with \<open>command = C_INTERNAL\<close> show ?thesis by (simp add: process_local_def)
  next
    case nfp: False
    show ?thesis
    proof (cases "MY_SIGNING_FEATURE c \<and> (type = I_REQUEST_SIGNING \<or> type = I_GET_NONCE_RESPONSE)")
      case True
      with \<open>command = C_INTERNAL\<close> nfp assms show ?thesis
        by (auto simp: process_local_def Let_def case_prod_beta)
    next
      case False
      with \<open>command = C_INTERNAL\<close> nfp assms show ?thesis
        by (auto simp: process_local_def Let_def)
    qed
  qed
next
  case False
  with fw_response_total [of c s] show ?thesis
    by (auto simp: process_local_def Let_def case_prod_beta)
qed

lemma reply_fields [simp]:
  "nodeId (snd (signer_answer e s)) = nodeId s"
  "parentNodeId (snd (signer_answer e s)) = parentNodeId s"
  "no_search (snd (signer_answer e s)) = no_search s"
  "nodeId (request_signing_update sender s) = nodeId s"
  "parentNodeId (request_signing_update sender s) = parentNodeId s"
  "no_search (request_signing_update sender s) = no_search s"
  "msg (request_signing_update sender s) = msg s"
  by (simp_all add: signer_answer_def request_signing_update_def emit_def no_search_def Let_def
        split: list.split)

lemma reply_through:
  assumes par: "parentNodeId t \<noteq> AUTO" and nid: "nodeId t \<noteq> AUTO" and ns: "no_search t"
      and m: "mSender m = nodeId t" "mCommand m = C_INTERNAL" "handshake_type (mType m)"
  shows "\<exists>s'. final_state (obind (transportSendRoute (Suc k) proc c Ref_msg (t\<lparr>msg := m\<rparr>))
                 (\<lambda>ok s2. Ret () s2)) = Some s' \<and>
              (\<forall>x. x \<noteq> nodeId t \<longrightarrow> routes s' x = routes t x) \<and>
              (routes s' (nodeId t) = routes t (nodeId t) \<or> routes s' (nodeId t) = mLast m)"
proof -
  let ?t = "t\<lparr>msg := m\<rparr>"
  have "through Ref_msg (mLast (get_msg Ref_msg ?t)) ?t
          (transportSendRoute (Suc k) proc c Ref_msg ?t)"
    by (rule transportSendRoute_through)
       (use par nid ns m in \<open>simp_all add: no_search_def\<close>)
  then show ?thesis
    using m(1) by (auto simp: through_def)
qed

lemma process_local_through:
  assumes par: "parentNodeId s \<noteq> AUTO" and nid: "nodeId s \<noteq> AUTO" and ns: "no_search s"
  shows "\<exists>s'. final_state (process_local (Suc k) proc c command type sender s) = Some s' \<and>
           (\<forall>x. x \<noteq> nodeId s \<longrightarrow> routes s' x = routes s x) \<and>
           (routes s' (nodeId s) = routes s (nodeId s) \<or>
            routes s' (nodeId s) = mLast (msg s) \<or>
            command = C_INTERNAL \<and> MY_SIGNING_FEATURE c \<and> type = I_GET_NONCE \<and>
            routes s' (nodeId s) = mLast (signer_nonce c (msg s)))"
proof (cases "command = C_INTERNAL \<and> MY_SIGNING_FEATURE c \<and> type = I_GET_NONCE")
  case True
  let ?a = "signer_answer (Ev_SignerGetNonce (msg s)) s"
  let ?m = "build (signer_nonce c (msg (snd ?a))) (nodeId (snd ?a)) sender NODE_SENSOR_ID
              C_INTERNAL I_GET_NONCE_RESPONSE False"
  have pl: "process_local (Suc k) proc c command type sender s
              = (if fst ?a
                 then obind (transportSendRoute (Suc k) proc c Ref_msg ((snd ?a)\<lparr>msg := ?m\<rparr>))
                        (\<lambda>ok s2. Ret () s2)
                 else Ret () (snd ?a))"
    using True by (simp add: process_local_def case_prod_beta del: transportSendRoute.simps)
  show ?thesis
  proof (cases "fst ?a")
    case False
    with pl True show ?thesis by simp
  next
    case ok: True
    from reply_through [of "snd ?a" ?m k proc c]
    obtain s' where "final_state (obind (transportSendRoute (Suc k) proc c Ref_msg
                        ((snd ?a)\<lparr>msg := ?m\<rparr>)) (\<lambda>ok s2. Ret () s2)) = Some s'"
        "\<forall>x. x \<noteq> nodeId s \<longrightarrow> routes s' x = routes s x"
        "routes s' (nodeId s) = routes s (nodeId s) \<or>
         routes s' (nodeId s) = mLast (signer_nonce c (msg s))"
      using par nid ns by (auto simp: build_def handshake_type_def)
    with pl ok True show ?thesis by (auto simp del: transportSendRoute.simps)
  qed
next
  case nG: False
  show ?thesis
  proof (cases "command = C_INTERNAL \<and> MY_SIGNING_FEATURE c \<and> MY_GATEWAY_FEATURE c \<and>
                type = I_REQUEST_SIGNING")
    case True
    let ?s1 = "request_signing_update sender s"
    let ?m = "set_u8 (if MY_SIGNING_REQUEST_SIGNATURES c \<and> doSign ?s1 sender then 1 else 0)
                (build (msg ?s1) (nodeId ?s1) sender NODE_SENSOR_ID C_INTERNAL
                   I_REQUEST_SIGNING False)"
    have pl: "process_local (Suc k) proc c command type sender s
                = obind (transportSendRoute (Suc k) proc c Ref_msg (?s1\<lparr>msg := ?m\<rparr>))
                    (\<lambda>ok s2. Ret () s2)"
      using True by (simp add: process_local_def Let_def del: transportSendRoute.simps)
    from reply_through [of ?s1 ?m k proc c]
    obtain s' where "final_state (obind (transportSendRoute (Suc k) proc c Ref_msg
                        (?s1\<lparr>msg := ?m\<rparr>)) (\<lambda>ok s2. Ret () s2)) = Some s'"
        "\<forall>x. x \<noteq> nodeId s \<longrightarrow> routes s' x = routes s x"
        "routes s' (nodeId s) = routes s (nodeId s) \<or> routes s' (nodeId s) = mLast (msg s)"
      using par nid ns by (auto simp: build_def set_u8_def handshake_type_def)
    with pl True show ?thesis by (auto simp del: transportSendRoute.simps)
  next
    case nR: False
    have ex: "\<not> (command = C_INTERNAL \<and>
              ((MY_SIGNING_FEATURE c \<and> type = I_GET_NONCE) \<or>
               (MY_SIGNING_FEATURE c \<and> MY_GATEWAY_FEATURE c \<and> type = I_REQUEST_SIGNING) \<or>
               (type = I_ID_RESPONSE \<and> sender = GATEWAY_ADDRESS \<and> nodeId s = AUTO)))"
      using nG nR nid by auto
    from process_local_total [OF ex, of "Suc k" proc]
    obtain s' where fs: "final_state (process_local (Suc k) proc c command type sender s) = Some s'"
      by auto
    from process_local_routes [OF ex fs] have "routes s' = routes s" .
    with fs show ?thesis by simp
  qed
qed

lemma no_search_received [simp]:
  "no_search (snd (frame_received c frame s)) = no_search s"
  "no_search (route_learned c s) = no_search s"
  by (simp_all add: no_search_def frame_received_def verify_inbound_eq signer_answer_def
        route_learned_def emit_def split: list.split)

text \<open>
  C1, as stated, fails in both halves. A frame that came in through the parent and asks for
  an ack makes the repeater send the ack through transportSendRoute, which stores the
  frame's last hop in the routing entry of the node's own id (line 513): node 10 with
  parent 1 and an empty routing table ends with routes[10] = 1. And a reply may re-enter
  the processing loop: on a repeater without a parent the ack starts a parent search, the
  search waits in the processing loop, the loop handles the next frame of the same sender,
  heard through node 16, and the call for the frame heard through node 15 returns with
  routes[20] = 16.
\<close>

theorem C1_route_learning_counterexample:
  "mLast (frame_set\<lparr>mLast := 1, mRequestAck := True\<rparr>) = parentNodeId node0 \<and>
   mDestination (frame_set\<lparr>mLast := 1, mRequestAck := True\<rparr>) = nodeId node0 \<and>
   routes node0 10 = 255 \<and>
   transportProcess (Suc (Suc 0)) cfg_repeater
       (node0\<lparr>radio_rx := [Some (10, frame_set\<lparr>mLast := 1, mRequestAck := True\<rparr>)]\<rparr>)
     = Ret () (node0\<lparr>msg := frame_set\<lparr>mLast := 1, mRequestAck := True\<rparr>,
                    msgTmp := frame_set\<lparr>mLast := 10, mSender := 10, mDestination := 20,
                                        mAck := True\<rparr>,
                    routes := (routes node0)(10 := 1),
                    trace := [Ev_BlinkRx, Ev_BlinkTx,
                              Ev_Tx 1 (frame_set\<lparr>mLast := 10, mSender := 10, mDestination := 20,
                                                 mAck := True\<rparr>) 7,
                              Ev_Receive (frame_set\<lparr>mLast := 1, mRequestAck := True\<rparr>)]\<rparr>) \<and>
   mLast (frame_set\<lparr>mLast := 15, mRequestAck := True\<rparr>) \<noteq> parentNodeId node_reentry \<and>
   mDestination (frame_set\<lparr>mLast := 15, mRequestAck := True\<rparr>) = nodeId node_reentry \<and>
   mSender (frame_set\<lparr>mLast := 15, mRequestAck := True\<rparr>) = 20 \<and>
   transportProcess (Suc (Suc (Suc (Suc 0)))) cfg_repeater node_reentry
     = Ret () (node_reentry\<lparr>distance := 255, msg := frame_set\<lparr>mLast := 16\<rparr>,
                    msgTmp := frame_set\<lparr>mLast := 15, mSender := 10, mDestination := 20,
                                        mAck := True\<rparr>,
                    routes := (routes node0)(20 := 16),
                    radio_rx := [], millis := 2001, ticks := [],
                    trace := [Ev_BlinkRx, Ev_BlinkTx,
                              Ev_Tx 255 (set_str_empty
                                           (build (frame_set\<lparr>mLast := 15, mRequestAck := True\<rparr>)
                                              10 BROADCAST_ADDRESS NODE_SENSOR_ID C_INTERNAL
                                              I_FIND_PARENT False)
                                         \<lparr>mLast := 10\<rparr>) 7,
                              Ev_BlinkRx, Ev_Receive (frame_set\<lparr>mLast := 16\<rparr>),
                              Ev_BlinkErr, Ev_Receive (frame_set\<lparr>mLast := 16\<rparr>)]\<rparr>)"
  by (simp add: concrete_defs node_reentry_def model_defs Let_def cong: eval_congs)

text \<open>
  C1, amended: on a repeater node, for every accepted inbound frame F addressed to this
  node (signature and version checks passed), with L the routing table before with the
  entry for F.sender set to F.last if F.last differs from parent_id, and the table before
  if F.last equals parent_id: if F makes the node send nothing (no ack request, no nonce
  request, no signing preference on a gateway, no id assignment), transportProcess ends
  with the routing table L. If the node has a parent and an id and failed sends start no
  parent search, so that no reply re-enters the processing loop, transportProcess ends with
  a routing table that equals L in every entry but the one of the node's own id; that entry
  is as in L, or holds F.last, which a reply has stored with the message it answers, or,
  after a nonce request, the last hop of the message the signer has handed back. So
  routes[F.sender] = F.last whenever F.last differs from parent_id, unless F.sender is the
  node's own id and the signer has changed the last hop of a nonce request.
\<close>

theorem C1_route_learning:
  assumes rep: "MY_REPEATER_FEATURE c"
      and rx: "radio_rx s = Some (to, frame) # rest"
      and acc: "fst (frame_received c frame (s\<lparr>radio_rx := rest\<rparr>))"
      and ver: "mVersion frame = PROTOCOL_VERSION"
      and dst: "mDestination frame = nodeId s"
  shows "(\<not> causes_reply c s frame \<longrightarrow>
            (\<exists>s'. final_state (transportProcess (Suc n) c s) = Some s' \<and>
                  routes s' = (if mLast frame \<noteq> parentNodeId s
                               then (routes s)(mSender frame := mLast frame) else routes s))) \<and>
         (sends_through s \<longrightarrow>
            (\<exists>s'. final_state (transportProcess (Suc (Suc n)) c s) = Some s' \<and>
                  (\<forall>x. x \<noteq> nodeId s \<longrightarrow>
                       routes s' x = (if mLast frame \<noteq> parentNodeId s
                                      then (routes s)(mSender frame := mLast frame)
                                      else routes s) x) \<and>
                  (routes s' (nodeId s)
                     = (if mLast frame \<noteq> parentNodeId s
                        then (routes s)(mSender frame := mLast frame) else routes s) (nodeId s) \<or>
                   routes s' (nodeId s) = mLast frame \<or>
                   nonce_requested c frame \<and>
                   routes s' (nodeId s) = mLast (signer_nonce c (frame\<lparr>mSigned := False\<rparr>))) \<and>
                  (mLast frame \<noteq> parentNodeId s \<longrightarrow>
                   mSender frame \<noteq> nodeId s \<or> \<not> nonce_requested c frame \<or>
                   mLast (signer_nonce c (frame\<lparr>mSigned := False\<rparr>)) = mLast frame \<longrightarrow>
                     routes s' (mSender frame) = mLast frame)))"
proof (intro conjI impI)
  define L where "L = (if mLast frame \<noteq> parentNodeId s
                       then (routes s)(mSender frame := mLast frame) else routes s)"
  define N where "N = mLast (signer_nonce c (frame\<lparr>mSigned := False\<rparr>))"
  define s0 where "s0 = s\<lparr>radio_rx := rest\<rparr>"
  define s5 where "s5 = route_learned c (snd (frame_received c frame s0))"
  have s0f: "nodeId s0 = nodeId s" "routes s0 = routes s" "parentNodeId s0 = parentNodeId s"
      "no_search s0 = no_search s"
    by (simp_all add: s0_def no_search_def)
  have r5: "routes s5 = L"
    using rep by (simp add: s5_def route_learned_def s0f L_def)
  have f5: "nodeId s5 = nodeId s" "parentNodeId s5 = parentNodeId s" "no_search s5 = no_search s"
      "msg s5 = frame\<lparr>mSigned := False\<rparr>"
    by (simp_all add: s5_def s0f)
  have tp: "transportProcess (Suc k) c s = process_frame k (transportProcess k c) c to frame s0"
    for k
    using rx by (simp add: transportAvailable_def s0_def)
  have pf: "process_frame k proc c to frame s0 =
      (if mRequestAck frame then
         obind (transportSendRoute k proc c Ref_msgTmp
                  (s5\<lparr>msgTmp := (msg s5)\<lparr>mRequestAck := False, mAck := True,
                                           mSender := nodeId s5,
                                           mDestination := mSender frame\<rparr>\<rparr>))
               (\<lambda>ok s6. process_local k proc c (mCommand frame) (mType frame) (mSender frame) s6)
       else process_local k proc c (mCommand frame) (mType frame) (mSender frame) s5)"
    for k proc
    unfolding process_frame_eq Let_def s5_def
    using acc ver dst by (simp add: s0_def [symmetric] s0f)
  {
    assume quiet: "\<not> causes_reply c s frame"
    have noack: "\<not> mRequestAck frame" using quiet by (simp add: causes_reply_def)
    have ex: "\<not> (mCommand frame = C_INTERNAL \<and>
              ((MY_SIGNING_FEATURE c \<and> mType frame = I_GET_NONCE) \<or>
               (MY_SIGNING_FEATURE c \<and> MY_GATEWAY_FEATURE c \<and> mType frame = I_REQUEST_SIGNING) \<or>
               (mType frame = I_ID_RESPONSE \<and> mSender frame = GATEWAY_ADDRESS \<and> nodeId s5 = AUTO)))"
      using quiet by (simp add: causes_reply_def f5)
    have pl: "transportProcess (Suc n) c s =
        process_local n (transportProcess n c) c (mCommand frame) (mType frame) (mSender frame) s5"
      unfolding tp pf using noack by simp
    from process_local_total [OF ex, of n "transportProcess n c"]
    obtain s' where fs: "final_state (process_local n (transportProcess n c) c (mCommand frame)
                           (mType frame) (mSender frame) s5) = Some s'"
      by auto
    from process_local_routes [OF ex fs] have "routes s' = L" by (simp add: r5)
    with fs show "\<exists>s'. final_state (transportProcess (Suc n) c s) = Some s' \<and>
                  routes s' = (if mLast frame \<noteq> parentNodeId s
                               then (routes s)(mSender frame := mLast frame) else routes s)"
      unfolding pl L_def by blast
  }
  assume st: "sends_through s"
  then have par: "parentNodeId s \<noteq> AUTO" and nid: "nodeId s \<noteq> AUTO" and ns: "no_search s"
    by (simp_all add: sends_through_def)
  let ?proc = "transportProcess (Suc n) c"
  have "\<exists>s'. final_state (transportProcess (Suc (Suc n)) c s) = Some s' \<and>
          (\<forall>x. x \<noteq> nodeId s \<longrightarrow> routes s' x = L x) \<and>
          (routes s' (nodeId s) = L (nodeId s) \<or> routes s' (nodeId s) = mLast frame \<or>
           nonce_requested c frame \<and> routes s' (nodeId s) = N)"
  proof (cases "mRequestAck frame")
    case False
    from process_local_through [of s5 n ?proc c "mCommand frame" "mType frame" "mSender frame"]
    obtain s' where "final_state (process_local (Suc n) ?proc c (mCommand frame) (mType frame)
                       (mSender frame) s5) = Some s'"
        "\<forall>x. x \<noteq> nodeId s \<longrightarrow> routes s' x = L x"
        "routes s' (nodeId s) = L (nodeId s) \<or> routes s' (nodeId s) = mLast frame \<or>
         nonce_requested c frame \<and> routes s' (nodeId s) = N"
      using par nid ns by (auto simp: f5 r5 nonce_requested_def N_def)
    with False show ?thesis
      unfolding tp pf by (auto simp del: transportProcess.simps)
  next
    case True
    let ?ack = "(msg s5)\<lparr>mRequestAck := False, mAck := True, mSender := nodeId s5,
                         mDestination := mSender frame\<rparr>"
    let ?s5a = "s5\<lparr>msgTmp := ?ack\<rparr>"
    have "no_search ?s5a = no_search s5" by (simp add: no_search_def)
    then have ns5: "no_search ?s5a" using ns by (simp add: f5)
    have "through Ref_msgTmp (mLast (get_msg Ref_msgTmp ?s5a)) ?s5a
            (transportSendRoute (Suc n) ?proc c Ref_msgTmp ?s5a)"
      by (rule transportSendRoute_through [OF _ _ ns5]) (use par nid in \<open>simp_all add: f5\<close>)
    then obtain ok s6 where
        s6: "transportSendRoute (Suc n) ?proc c Ref_msgTmp ?s5a = Ret ok s6"
          "nodeId s6 = nodeId s" "parentNodeId s6 = parentNodeId s" "no_search s6"
          "msg s6 = frame\<lparr>mSigned := False\<rparr>"
          "\<forall>x. x \<noteq> nodeId s \<longrightarrow> routes s6 x = L x"
          "routes s6 (nodeId s) = L (nodeId s) \<or> routes s6 (nodeId s) = mLast frame"
      unfolding through_def by (auto simp: f5 r5)
    from process_local_through [of s6 n ?proc c "mCommand frame" "mType frame" "mSender frame"]
    obtain s' where s': "final_state (process_local (Suc n) ?proc c (mCommand frame) (mType frame)
                       (mSender frame) s6) = Some s'"
        "\<forall>x. x \<noteq> nodeId s \<longrightarrow> routes s' x = routes s6 x"
        "routes s' (nodeId s) = routes s6 (nodeId s) \<or> routes s' (nodeId s) = mLast frame \<or>
         nonce_requested c frame \<and> routes s' (nodeId s) = N"
      using par nid s6(2,3,4) by (auto simp: s6(5) nonce_requested_def N_def)
    have "final_state (transportProcess (Suc (Suc n)) c s) = Some s'"
      unfolding tp pf using True s6(1) s'(1)
      by (simp del: transportProcess.simps transportSendRoute.simps)
    with s6(6,7) s'(2,3) show ?thesis by auto
  qed
  then obtain s' where s': "final_state (transportProcess (Suc (Suc n)) c s) = Some s'"
      "\<forall>x. x \<noteq> nodeId s \<longrightarrow> routes s' x = L x"
      "routes s' (nodeId s) = L (nodeId s) \<or> routes s' (nodeId s) = mLast frame \<or>
       nonce_requested c frame \<and> routes s' (nodeId s) = N"
    by blast
  have "mLast frame \<noteq> parentNodeId s \<longrightarrow>
        mSender frame \<noteq> nodeId s \<or> \<not> nonce_requested c frame \<or> N = mLast frame \<longrightarrow>
        routes s' (mSender frame) = mLast frame"
    using s'(2,3) by (cases "mSender frame = nodeId s") (auto simp: L_def)
  with s' show "(\<exists>s'. final_state (transportProcess (Suc (Suc n)) c s) = Some s' \<and>
          (\<forall>x. x \<noteq> nodeId s \<longrightarrow>
               routes s' x = (if mLast frame \<noteq> parentNodeId s
              then (routes s)(mSender frame := mLast frame)
              else routes s) x) \<and>
          (routes s' (nodeId s)
             = (if mLast frame \<noteq> parentNodeId s
                then (routes s)(mSender frame := mLast frame) else routes s) (nodeId s) \<or>
           routes s' (nodeId s) = mLast frame \<or>
           nonce_requested c frame \<and>
           routes s' (nodeId s) = mLast (signer_nonce c (frame\<lparr>mSigned := False\<rparr>))) \<and>
          (mLast frame \<noteq> parentNodeId s \<longrightarrow>
           mSender frame \<noteq> nodeId s \<or> \<not> nonce_requested c frame \<or>
           mLast (signer_nonce c (frame\<lparr>mSigned := False\<rparr>)) = mLast frame \<longrightarrow>
             routes s' (mSender frame) = mLast frame))"
    unfolding L_def N_def by blast
qed

theorem C1_route_learning_witness:
  "\<not> causes_reply cfg_repeater (node0\<lparr>radio_rx := [Some (10, frame_set\<lparr>mLast := 15\<rparr>)]\<rparr>)
        (frame_set\<lparr>mLast := 15\<rparr>) \<and>
   (\<exists>s'. final_state (transportProcess (Suc 0) cfg_repeater
                  (node0\<lparr>radio_rx := [Some (10, frame_set\<lparr>mLast := 15\<rparr>)]\<rparr>)) = Some s' \<and>
         routes s' = (routes node0)(20 := 15)) \<and>
   mRequestAck (frame_set\<lparr>mLast := 15, mRequestAck := True\<rparr>) \<and>
   sends_through
     (node0\<lparr>radio_rx := [Some (10, frame_set\<lparr>mLast := 15, mRequestAck := True\<rparr>)]\<rparr>) \<and>
   (\<exists>s'. final_state (transportProcess (Suc (Suc 0)) cfg_repeater
                  (node0\<lparr>radio_rx := [Some (10, frame_set\<lparr>mLast := 15, mRequestAck := True\<rparr>)]\<rparr>))
            = Some s' \<and>
         routes s' 20 = 15)"
proof -
  let ?f = "frame_set\<lparr>mLast := 15\<rparr>"
  let ?s = "node0\<lparr>radio_rx := [Some (10, ?f)]\<rparr>"
  let ?g = "frame_set\<lparr>mLast := 15, mRequestAck := True\<rparr>"
  let ?t = "node0\<lparr>radio_rx := [Some (10, ?g)]\<rparr>"
  have h1: "MY_REPEATER_FEATURE cfg_repeater" "radio_rx ?s = Some (10, ?f) # []"
      "fst (frame_received cfg_repeater ?f (?s\<lparr>radio_rx := []\<rparr>))"
      "mVersion ?f = PROTOCOL_VERSION" "mDestination ?f = nodeId ?s"
    by (simp_all add: concrete_defs frame_received_def verify_inbound_eq
          verification_required_def)
  have q1: "\<not> causes_reply cfg_repeater ?s ?f"
    by (simp add: concrete_defs causes_reply_def)
  have h2: "MY_REPEATER_FEATURE cfg_repeater" "radio_rx ?t = Some (10, ?g) # []"
      "fst (frame_received cfg_repeater ?g (?t\<lparr>radio_rx := []\<rparr>))"
      "mVersion ?g = PROTOCOL_VERSION" "mDestination ?g = nodeId ?t"
    by (simp_all add: concrete_defs frame_received_def verify_inbound_eq
          verification_required_def)
  have q2: "sends_through ?t" "mRequestAck ?g" "mLast ?g \<noteq> parentNodeId ?t"
      "mSender ?g \<noteq> nodeId ?t" "mSender ?g = 20" "mLast ?g = 15"
    by (simp_all add: concrete_defs sends_through_def no_search_def)
  from C1_route_learning [OF h1, of 0, THEN conjunct1] q1
  have a: "\<exists>s'. final_state (transportProcess (Suc 0) cfg_repeater ?s) = Some s' \<and>
               routes s' = (routes node0)(20 := 15)"
    by (simp add: concrete_defs del: transportProcess.simps)
  from C1_route_learning [OF h2, of 0, THEN conjunct2] q2
  have b: "\<exists>s'. final_state (transportProcess (Suc (Suc 0)) cfg_repeater ?t) = Some s' \<and>
               routes s' 20 = 15"
    by (auto simp del: transportProcess.simps)
  from a b q1 q2 show ?thesis by blast
qed

end
